(* ===== verification/Prelude.thy ===== *)
theory Prelude
  imports Main "HOL-Library.AList" "HOL-Library.Word"
begin

text \<open>
  What every component of the model shares: Go's errors and panics as values, Go maps as
  association lists, the two loop shapes of the code (a loop that stops at the first error
  and a loop that collects errors and goes on), Go's integer conversions, and two interface
  locales (a machine with an invariant, a function that fills in defaults).

  A Go map is an association list with distinct keys. Go does not fix the order in which a
  map is ranged over; a theorem about a function that ranges over a map is stated for every
  list, so it holds for every order the run time can pick.
\<close>

named_theorems go_simps \<open>equations that evaluate the run-time layer\<close>
named_theorems wf_intros \<open>introduction rules of the well-formedness predicates\<close>

lemma ball_pairD: "\<forall>(k, v) \<in> S. P k v \<Longrightarrow> (k, v) \<in> S \<Longrightarrow> P k v"
  by auto

section \<open>Errors and panics\<close>

text \<open>An error value that a function returns, or a run-time panic that unwinds the caller.\<close>

datatype go_error = Error string | Panic string

type_synonym 'a result = "go_error + 'a"

fun err_text :: "go_error \<Rightarrow> string" where
  "err_text (Error s) = s"
| "err_text (Panic s) = s"

fun is_panic :: "go_error + 'a \<Rightarrow> bool" where
  "is_panic (Inl (Panic s)) = True"
| "is_panic _ = False"

fun panicking :: "go_error option \<Rightarrow> bool" where
  "panicking (Some (Panic s)) = True"
| "panicking _ = False"

definition nil_deref :: go_error where
  "nil_deref = Panic ''invalid memory address or nil pointer dereference''"

definition nil_map_write :: go_error where
  "nil_map_write = Panic ''assignment to entry in nil map''"

definition index_out_of_range :: go_error where
  "index_out_of_range = Panic ''index out of range''"

text \<open>Reading a field through a pointer that may be nil.\<close>

fun deref :: "'a option \<Rightarrow> 'a result" where
  "deref None = Inl nil_deref"
| "deref (Some x) = Inr x"

text \<open>Indexing a slice.\<close>

definition index :: "'a list \<Rightarrow> nat \<Rightarrow> 'a result" where
  "index xs i = (if i < length xs then Inr (xs ! i) else Inl index_out_of_range)"

lemma index_Inr [simp]: "index xs i = Inr x \<longleftrightarrow> i < length xs \<and> x = xs ! i"
  by (auto simp: index_def)

lemma is_panic_Inr [simp]: "\<not> is_panic (Inr x)"
  by simp

section \<open>Loops\<close>

text \<open>A loop that returns at the first error.\<close>

fun rmap :: "('a \<Rightarrow> 'b result) \<Rightarrow> 'a list \<Rightarrow> 'b list result" where
  "rmap f [] = Inr []"
| "rmap f (x # xs) =
     (case f x of Inl e \<Rightarrow> Inl e
      | Inr y \<Rightarrow> (case rmap f xs of Inl e \<Rightarrow> Inl e | Inr ys \<Rightarrow> Inr (y # ys)))"

lemma rmap_Inr_iff:
  "rmap f xs = Inr ys \<longleftrightarrow> map f xs = map Inr ys"
proof (induction xs arbitrary: ys)
  case Nil
  then show ?case by auto
next
  case (Cons x xs)
  show ?case
  proof (cases "rmap f xs")
    case (Inl e)
    with Cons.IH have "map f xs \<noteq> map Inr zs" for zs
      by (metis Inl_Inr_False)
    with Inl show ?thesis
      by (auto simp: Cons_eq_map_conv split: sum.splits)
  next
    case (Inr zs)
    with Cons.IH [of zs] show ?thesis
      by (cases ys) (auto simp: inj_map_eq_map split: sum.splits)
  qed
qed

lemma rmap_ok [simp]: "(\<And>x. x \<in> set xs \<Longrightarrow> f x = Inr (g x)) \<Longrightarrow> rmap f xs = Inr (map g xs)"
  by (induction xs) auto

lemma rmap_image: "rmap f xs = Inr ys \<Longrightarrow> (\<And>x y. f x = Inr y \<Longrightarrow> g y = h x) \<Longrightarrow> map g ys = map h xs"
  by (induction xs arbitrary: ys) (auto split: sum.splits)

lemma rmap_Inl:
  "rmap f xs = Inl e \<Longrightarrow> \<exists>x \<in> set xs. f x = Inl e"
  by (induction xs) (auto split: sum.splits)

lemma rmap_all: "rmap f xs = Inr ys \<Longrightarrow> y \<in> set ys \<Longrightarrow> \<exists>x \<in> set xs. f x = Inr y"
  by (induction xs arbitrary: ys) (auto split: sum.splits)

lemma rmap_fails_iff: "(\<exists>e. rmap f xs = Inl e) \<longleftrightarrow> (\<exists>x \<in> set xs. \<exists>e. f x = Inl e)"
  by (induction xs) (force split: sum.splits)+

lemma rmap_ok_iff: "(\<exists>ys. rmap f xs = Inr ys) \<longleftrightarrow> (\<forall>x \<in> set xs. \<exists>y. f x = Inr y)"
  using rmap_fails_iff [of f xs] by (metis Inl_Inr_False sumE)

lemma length_rmap: "rmap f xs = Inr ys \<Longrightarrow> length ys = length xs"
  by (auto simp: rmap_Inr_iff dest: map_eq_imp_length_eq)

text \<open>
  A loop that writes through the pointers of a slice or of the values of a map and returns
  at the first error: the elements before the failing one, and the failing one as far as it
  got, are written.
\<close>

fun for_list :: "('a \<Rightarrow> go_error option \<times> 'a) \<Rightarrow> 'a list \<Rightarrow> go_error option \<times> 'a list" where
  "for_list f [] = (None, [])"
| "for_list f (x # xs) =
     (case f x of
        (Some e, y) \<Rightarrow> (Some e, y # xs)
      | (None, y) \<Rightarrow> (case for_list f xs of (r, ys) \<Rightarrow> (r, y # ys)))"

lemma for_list_ok_iff: "fst (for_list f xs) = None \<longleftrightarrow> (\<forall>x \<in> set xs. fst (f x) = None)"
  by (induction xs) (auto split: option.splits prod.splits)

lemma for_list_ok:
  "fst (for_list f xs) = None \<Longrightarrow> snd (for_list f xs) = map (\<lambda>x. snd (f x)) xs"
  by (induction xs) (auto split: option.splits prod.splits)

lemma for_list_id:
  "(\<And>x. x \<in> set xs \<Longrightarrow> f x = (None, x)) \<Longrightarrow> for_list f xs = (None, xs)"
  by (induction xs) auto

lemma for_list_error:
  "fst (for_list f xs) = Some e \<Longrightarrow> \<exists>x \<in> set xs. fst (f x) = Some e"
  by (induction xs) (auto split: option.splits prod.splits)

lemma length_for_list [simp]: "length (snd (for_list f xs)) = length xs"
  by (induction xs) (auto split: option.splits prod.splits)

text \<open>The same loop over the values of a map.\<close>

definition for_vals ::
  "('v \<Rightarrow> go_error option \<times> 'v) \<Rightarrow> ('k \<times> 'v) list \<Rightarrow> go_error option \<times> ('k \<times> 'v) list" where
  "for_vals f = for_list (\<lambda>(k, v). (fst (f v), (k, snd (f v))))"

lemma for_vals_ok_iff: "fst (for_vals f m) = None \<longleftrightarrow> (\<forall>(k, v) \<in> set m. fst (f v) = None)"
  by (auto simp: for_vals_def for_list_ok_iff)

lemma for_vals_id:
  "(\<And>k v. (k, v) \<in> set m \<Longrightarrow> f v = (None, v)) \<Longrightarrow> for_vals f m = (None, m)"
  unfolding for_vals_def by (rule for_list_id) auto

lemma keys_for_vals [simp]: "map fst (snd (for_vals f m)) = map fst m"
  unfolding for_vals_def
  by (induction m) (auto split: option.splits prod.splits)

text \<open>
  \<open>retry.Do\<close> of the retry-go package is a parameter. Its documentation: it calls the function
  until it returns no error, a given number of times at most, and returns an error when no
  call succeeded; it panics only when the function does. \<open>attempts\<close> is that reading, with
  whether a call succeeded and the state after the last call.
\<close>

type_synonym 'h retrier = "nat \<Rightarrow> ('h \<Rightarrow> go_error option \<times> 'h) \<Rightarrow> 'h \<Rightarrow> go_error option \<times> 'h"

fun attempts :: "nat \<Rightarrow> ('h \<Rightarrow> go_error option \<times> 'h) \<Rightarrow> 'h \<Rightarrow> bool \<times> 'h" where
  "attempts 0 f h = (False, h)"
| "attempts (Suc n) f h = (case f h of (None, h') \<Rightarrow> (True, h') | (Some e, h') \<Rightarrow> attempts n f h')"

definition retry_documented :: "'h retrier \<Rightarrow> bool" where
  "retry_documented retry \<longleftrightarrow> (\<forall>n f h. 0 < n \<longrightarrow>
     (fst (retry n f h) = None \<longleftrightarrow> fst (attempts n f h)) \<and> snd (retry n f h) = snd (attempts n f h) \<and>
     ((\<forall>h. \<not> panicking (fst (f h))) \<longrightarrow> \<not> panicking (fst (retry n f h))))"

definition ref_retry :: "'h retrier" where
  "ref_retry n f h = (case attempts n f h of
     (ok, h') \<Rightarrow> (if ok then None else Some (Error ''All attempts fail''), h'))"

lemma ref_retry_documented [simp]: "retry_documented ref_retry"
  by (simp add: retry_documented_def ref_retry_def split: prod.splits)

lemma retry_documentedD:
  assumes "retry_documented retry" "0 < n"
  shows "fst (retry n f h) = None \<longleftrightarrow> fst (attempts n f h)" "snd (retry n f h) = snd (attempts n f h)"
    "(\<And>h. \<not> panicking (fst (f h))) \<Longrightarrow> \<not> panicking (fst (retry n f h))"
  using assms by (simp_all add: retry_documented_def)

section \<open>Maps\<close>

type_synonym ('k, 'v) gomap = "('k \<times> 'v) list"

abbreviation wf_map :: "('k, 'v) gomap \<Rightarrow> bool" where
  "wf_map m \<equiv> distinct (map fst m)"

abbreviation keys :: "('k, 'v) gomap \<Rightarrow> 'k list" where
  "keys m \<equiv> map fst m"

abbreviation put :: "'k \<Rightarrow> 'v \<Rightarrow> ('k, 'v) gomap \<Rightarrow> ('k, 'v) gomap" where
  "put \<equiv> AList.update"

abbreviation del :: "'k \<Rightarrow> ('k, 'v) gomap \<Rightarrow> ('k, 'v) gomap" where
  "del \<equiv> AList.delete"

text \<open>Writing through the pointers a map holds: the keys and their order stay.\<close>

definition map_vals :: "('v \<Rightarrow> 'w) \<Rightarrow> ('k, 'v) gomap \<Rightarrow> ('k, 'w) gomap" where
  "map_vals f m = map (\<lambda>(k, v). (k, f v)) m"

lemma keys_map_vals [simp]: "map fst (map_vals f m) = map fst m"
  by (auto simp: map_vals_def)

lemma map_of_map_vals [simp]: "map_of (map_vals f m) k = map_option f (map_of m k)"
  by (induction m) (auto simp: map_vals_def)

lemma map_vals_Nil [simp]: "map_vals f [] = []"
  by (simp add: map_vals_def)

lemma map_vals_Cons [simp]: "map_vals f ((k, v) # m) = (k, f v) # map_vals f m"
  by (simp add: map_vals_def)

lemma map_vals_comp: "map_vals f (map_vals g m) = map_vals (f \<circ> g) m"
  by (auto simp: map_vals_def)

lemma map_vals_cong:
  "(\<And>k v. (k, v) \<in> set m \<Longrightarrow> f v = g v) \<Longrightarrow> map_vals f m = map_vals g m"
  by (auto simp: map_vals_def)

lemma map_vals_id: "(\<And>k v. (k, v) \<in> set m \<Longrightarrow> f v = v) \<Longrightarrow> map_vals f m = m"
  by (induction m) (auto simp: map_vals_def)

lemma map_vals_set: "(k, v) \<in> set (map_vals f m) \<longleftrightarrow> (\<exists>u. (k, u) \<in> set m \<and> v = f u)"
  by (force simp: map_vals_def)

lemma for_vals_ok: "fst (for_vals f m) = None \<Longrightarrow> snd (for_vals f m) = map_vals (snd \<circ> f) m"
  unfolding for_vals_def map_vals_def
  by (drule for_list_ok) (auto simp: split_def)

lemma map_of_put [simp]: "map_of (put k v m) = (map_of m)(k \<mapsto> v)"
  by (simp add: update_conv')

lemma map_of_del [simp]: "map_of (del k m) = (map_of m)(k := None)"
  by (simp add: delete_conv')

lemma put_ne [simp]: "put k v m \<noteq> []"
  by (cases m) (auto split: if_splits)

lemma put_new: "k \<notin> fst ` set m \<Longrightarrow> put k v m = m @ [(k, v)]"
  by (induction m) auto

lemma put_same: "map_of m k = Some v \<Longrightarrow> put k v m = m"
  by (induction m) auto

lemma put_subset: "set (put k v m) \<subseteq> insert (k, v) (set m)"
  by (induction m) auto

lemma keys_put_mem [simp]: "k \<in> fst ` set m \<Longrightarrow> map fst (put k v m) = map fst m"
  by (induction m) auto

lemma wf_map_put [wf_intros]: "wf_map m \<Longrightarrow> wf_map (put k v m)"
  by (rule distinct_update)

lemma wf_map_del [wf_intros]: "wf_map m \<Longrightarrow> wf_map (del k m)"
  by (rule distinct_delete)

section \<open>Integers\<close>

text \<open>
  An \<open>int32\<close> field is a 32-bit word read by \<open>sint\<close>; Go's \<open>int\<close> has 64 bits on every
  platform the program is built for and is modelled by \<open>int\<close>, since the code only counts
  replicas and chunks with it; the conversion to \<open>int32\<close> truncates.
\<close>

type_synonym int32 = "32 word"

definition to_int :: "int32 \<Rightarrow> int" where
  "to_int w = sint w"

definition to_int32 :: "int \<Rightarrow> int32" where
  "to_int32 i = word_of_int i"

definition fits_int32 :: "int \<Rightarrow> bool" where
  "fits_int32 i \<longleftrightarrow> - (2 ^ 31) \<le> i \<and> i < 2 ^ 31"

lemma to_int32_to_int [simp]: "to_int32 (to_int w) = w"
  by (simp add: to_int_def to_int32_def)

lemma to_int_to_int32: "fits_int32 i \<Longrightarrow> to_int (to_int32 i) = i"
  by (simp add: to_int_def to_int32_def fits_int32_def signed_of_int signed_take_bit_int_eq_self)

lemma fits_to_int [simp]: "fits_int32 (to_int w)"
  using sint_range_size [of w] by (simp add: fits_int32_def to_int_def word_size)

section \<open>Interfaces\<close>

text \<open>A component driven by a sequence of events, with an invariant every event keeps.\<close>

locale stepper =
  fixes step :: "'s \<Rightarrow> 'e \<Rightarrow> 's"
    and inv :: "'s \<Rightarrow> bool"
  assumes step_inv: "inv s \<Longrightarrow> inv (step s e)"
begin

lemma run_inv: "inv s \<Longrightarrow> inv (foldl step s es)"
  by (induction es arbitrary: s) (auto intro: step_inv)

lemma run_append_inv: "inv s \<Longrightarrow> inv (foldl step (foldl step s es) fs)"
  by (intro run_inv)

end

text \<open>A function that fills in defaults: its results are filled in, and it leaves those alone.\<close>

locale defaulter =
  fixes fill :: "'a \<Rightarrow> 'a"
    and filled :: "'a \<Rightarrow> bool"
  assumes fill_filled: "filled (fill x)"
    and fill_id: "filled x \<Longrightarrow> fill x = x"
begin

lemma fill_idem: "fill (fill x) = fill x"
  by (simp add: fill_filled fill_id)

lemma fill_fixpoint: "fill x = x \<longleftrightarrow> filled x"
  using fill_filled [of x] by (auto simp: fill_id)

lemma map_fill_idem: "map fill (map fill xs) = map fill xs"
  by (simp add: fill_idem)

lemma map_fill_id: "list_all filled xs \<Longrightarrow> map fill xs = xs"
  by (induction xs) (auto simp: fill_id)

lemma list_all_fill: "list_all filled (map fill xs)"
  by (induction xs) (auto simp: fill_filled)

lemma map_vals_fill_idem: "map_vals fill (map_vals fill m) = map_vals fill m"
  by (simp add: map_vals_comp comp_def fill_idem)

end

end
