(* ===== verification/GoStrings.thy ===== *)
theory GoStrings
  imports Prelude
begin

text \<open>
  The functions of Go's packages strings, strconv and fmt that the program uses: Split,
  Join, ReplaceAll, HasPrefix, Itoa and the verbs %03d and %5d. A Go string is a list of
  bytes. The lemmas are the inverse laws of Split and Join and the injectivity of the
  number formats, on which the uniqueness of stream keys and resource names rests.
\<close>

section \<open>Split and Join\<close>

text \<open>\<open>strings.Split\<close> at a separator of one byte: an empty string splits into one empty part.\<close>

fun split_on :: "char \<Rightarrow> string \<Rightarrow> string list" where
  "split_on c [] = [ [] ]"
| "split_on c (x # xs) =
     (if x = c then [] # split_on c xs
      else (case split_on c xs of [] \<Rightarrow> [ [x] ] | p # ps \<Rightarrow> (x # p) # ps))"

text \<open>\<open>strings.Join\<close>.\<close>

fun join :: "string \<Rightarrow> string list \<Rightarrow> string" where
  "join sep [] = []"
| "join sep [p] = p"
| "join sep (p # q # ps) = p @ sep @ join sep (q # ps)"

lemma split_on_ne [simp]: "split_on c s \<noteq> []"
  by (cases s) (auto split: list.splits)

lemma split_on_parts: "p \<in> set (split_on c s) \<Longrightarrow> c \<notin> set p"
proof (induction s arbitrary: p)
  case Nil
  then show ?case by simp
next
  case (Cons x xs)
  then show ?case
    by (cases "split_on c xs") (auto split: if_splits)
qed

lemma split_on_none [simp]: "c \<notin> set s \<Longrightarrow> split_on c s = [s]"
  by (induction s) auto

lemma split_on_append:
  "split_on c (a @ c # b) = split_on c a @ split_on c b"
proof (induction a)
  case Nil
  then show ?case by simp
next
  case (Cons x xs)
  then show ?case
    by (cases "split_on c xs") auto
qed

lemma split_on_block: "c \<notin> set p \<Longrightarrow> split_on c (p @ c # b) = p # split_on c b"
  by (simp add: split_on_append)

lemma join_Cons: "ps \<noteq> [] \<Longrightarrow> join sep (p # ps) = p @ sep @ join sep ps"
  by (cases ps) auto

lemma join_push: "join sep ((x # p) # ps) = x # join sep (p # ps)"
  by (cases ps) auto

lemma join_split [simp]: "join [c] (split_on c s) = s"
proof (induction s)
  case Nil
  then show ?case by simp
next
  case (Cons x xs)
  obtain p ps where "split_on c xs = p # ps"
    by (cases "split_on c xs") auto
  with Cons show ?case
    by (auto simp: join_push join_Cons)
qed

lemma split_join:
  "ps \<noteq> [] \<Longrightarrow> \<forall>p \<in> set ps. c \<notin> set p \<Longrightarrow> split_on c (join [c] ps) = ps"
proof (induction "[c]" ps rule: join.induct)
  case (3 p q ps)
  then show ?case by (simp add: split_on_block)
qed auto

lemma join_inj:
  assumes "ps \<noteq> []" "qs \<noteq> []"
    and "\<forall>p \<in> set ps. c \<notin> set p" "\<forall>q \<in> set qs. c \<notin> set q"
    and "join [c] ps = join [c] qs"
  shows "ps = qs"
  using assms by (metis split_join)

lemma join_append:
  "ps \<noteq> [] \<Longrightarrow> qs \<noteq> [] \<Longrightarrow> join sep (ps @ qs) = join sep ps @ sep @ join sep qs"
proof (induction sep ps rule: join.induct)
  case (2 sep p)
  then show ?case by (cases qs) auto
qed auto

lemma set_join: "set (join [c] ps) \<subseteq> insert c (\<Union>p \<in> set ps. set p)"
  by (induction "[c]" ps rule: join.induct) auto

lemma last_split_append:
  "c \<notin> set t \<Longrightarrow> last (split_on c (s @ c # t)) = t"
  by (simp add: split_on_append)

section \<open>Prefixes and replacement\<close>

fun has_prefix :: "string \<Rightarrow> string \<Rightarrow> bool" where
  "has_prefix s [] = True"
| "has_prefix [] (p # ps) = False"
| "has_prefix (x # xs) (p # ps) = (x = p \<and> has_prefix xs ps)"

lemma has_prefix_iff: "has_prefix s p \<longleftrightarrow> (\<exists>t. s = p @ t)"
  by (induction s p rule: has_prefix.induct) auto

text \<open>\<open>strings.ReplaceAll\<close> for a non-empty old string: left to right, not overlapping.\<close>

function replace_all :: "string \<Rightarrow> string \<Rightarrow> string \<Rightarrow> string" where
  "replace_all old new s =
     (if old = [] then s
      else (case s of [] \<Rightarrow> []
        | x # xs \<Rightarrow> (if has_prefix s old then new @ replace_all old new (drop (length old) s)
                    else x # replace_all old new xs)))"
  by pat_completeness auto
termination
  by (relation "measure (\<lambda>(old, new, s). length s)") auto

declare replace_all.simps [simp del]

lemma replace_all_Nil [simp]: "replace_all old new [] = []"
  by (simp add: replace_all.simps)

lemma replace_all_hit:
  "old \<noteq> [] \<Longrightarrow> replace_all old new (old @ s) = new @ replace_all old new s"
proof -
  assume "old \<noteq> []"
  then obtain x xs where "old @ s = x # xs" by (cases old) auto
  moreover have "has_prefix (old @ s) old" by (auto simp: has_prefix_iff)
  moreover have "drop (length old) (old @ s) = s" by simp
  ultimately show ?thesis
    using \<open>old \<noteq> []\<close> by (subst replace_all.simps) (auto split: list.splits)
qed

lemma replace_all_miss:
  "old \<noteq> [] \<Longrightarrow> \<not> has_prefix (x # s) old \<Longrightarrow>
   replace_all old new (x # s) = x # replace_all old new s"
  by (subst replace_all.simps) auto

section \<open>Numbers\<close>

definition digit :: "nat \<Rightarrow> char" where
  "digit n = ''0123456789'' ! n"

definition digit_val :: "char \<Rightarrow> nat" where
  "digit_val c = of_char c - 48"

fun nat_str :: "nat \<Rightarrow> string" where
  "nat_str n = (if n < 10 then [digit n] else nat_str (n div 10) @ [digit (n mod 10)])"

declare nat_str.simps [simp del]

definition digits_val :: "string \<Rightarrow> nat" where
  "digits_val s = foldl (\<lambda>v c. 10 * v + digit_val c) 0 s"

lemma lt10_cases:
  assumes "(n::nat) < 10"
  shows "n = 0 \<or> n = 1 \<or> n = 2 \<or> n = 3 \<or> n = 4 \<or> n = 5 \<or> n = 6 \<or> n = 7 \<or> n = 8 \<or> n = 9"
  using assms by arith

lemma digit_val_digit [simp]: "n < 10 \<Longrightarrow> digit_val (digit n) = n"
  by (drule lt10_cases) (auto simp: digit_def digit_val_def)

lemma digit_in: "n < 10 \<Longrightarrow> digit n \<in> set ''0123456789''"
  unfolding digit_def by (rule nth_mem) simp

lemma digits_val_nat_str [simp]: "digits_val (nat_str n) = n"
proof (induction n rule: nat_str.induct)
  case (1 n)
  show ?case
  proof (cases "n < 10")
    case True
    then show ?thesis by (subst nat_str.simps) (simp add: digits_val_def)
  next
    case False
    with 1 have "digits_val (nat_str (n div 10)) = n div 10" by simp
    with False show ?thesis
      by (subst nat_str.simps) (simp add: digits_val_def)
  qed
qed

lemma nat_str_ne [simp]: "nat_str n \<noteq> []"
  by (subst nat_str.simps) auto

lemma nat_str_digits: "c \<in> set (nat_str n) \<Longrightarrow> c \<in> set ''0123456789''"
proof (induction n rule: nat_str.induct)
  case (1 n)
  then show ?case
    using digit_in [of n] digit_in [of "n mod 10"]
    by (subst (asm) (2) nat_str.simps) (auto split: if_splits)
qed

text \<open>\<open>strconv.Itoa\<close>.\<close>

definition itoa :: "int \<Rightarrow> string" where
  "itoa i = (if i < 0 then CHR ''-'' # nat_str (nat (- i)) else nat_str (nat i))"

text \<open>The verb %0wd: the sign first, then zeros up to the width.\<close>

definition pad0 :: "nat \<Rightarrow> int \<Rightarrow> string" where
  "pad0 w i =
     (if i < 0
      then CHR ''-'' # replicate (w - 1 - length (nat_str (nat (- i)))) (CHR ''0'') @ nat_str (nat (- i))
      else replicate (w - length (nat_str (nat i))) (CHR ''0'') @ nat_str (nat i))"

text \<open>The verb %wd: spaces up to the width.\<close>

definition pad_sp :: "nat \<Rightarrow> int \<Rightarrow> string" where
  "pad_sp w i = replicate (w - length (itoa i)) (CHR '' '') @ itoa i"

lemma digits_val_zeros [simp]: "digits_val (replicate n (CHR ''0'') @ s) = digits_val s"
  by (induction n) (auto simp: digits_val_def digit_val_def)

lemma nat_str_no_minus: "hd (replicate n (CHR ''0'') @ nat_str k) \<noteq> CHR ''-''"
proof -
  have "hd (replicate n (CHR ''0'') @ nat_str k) \<in> set ''0123456789''"
    using nat_str_digits [of "hd (nat_str k)" k] by (cases n) auto
  then show ?thesis by auto
qed

lemma pad0_inj: "pad0 w i = pad0 w j \<longleftrightarrow> i = j"
proof
  assume eq: "pad0 w i = pad0 w j"
  have sign: "hd (pad0 w k) = CHR ''-'' \<longleftrightarrow> k < 0" for k
    by (auto simp: pad0_def nat_str_no_minus)
  have val: "digits_val (if k < 0 then tl (pad0 w k) else pad0 w k) = nat \<bar>k\<bar>" for k
    by (auto simp: pad0_def)
  from eq sign have "i < 0 \<longleftrightarrow> j < 0" by metis
  with eq val [of i] val [of j] have "nat \<bar>i\<bar> = nat \<bar>j\<bar>" by auto
  with \<open>i < 0 \<longleftrightarrow> j < 0\<close> show "i = j" by auto
qed simp

lemma itoa_pad0: "itoa i = pad0 0 i"
  by (simp add: itoa_def pad0_def)

lemma itoa_inj [simp]: "itoa i = itoa j \<longleftrightarrow> i = j"
  by (simp add: itoa_pad0 pad0_inj)

lemma pad0_chars: "c \<in> set (pad0 w i) \<Longrightarrow> c \<in> set ''-0123456789''"
  using nat_str_digits by (fastforce simp: pad0_def split: if_splits)

lemma pad0_no_sep [simp]:
  "CHR '':'' \<notin> set (pad0 w i)" "CHR ''/'' \<notin> set (pad0 w i)" "CHR ''_'' \<notin> set (pad0 w i)"
  by (auto dest: pad0_chars)

lemma itoa_no_sep [simp]:
  "CHR '':'' \<notin> set (itoa i)" "CHR ''/'' \<notin> set (itoa i)" "CHR ''_'' \<notin> set (itoa i)"
  by (auto simp: itoa_pad0)

lemma pad0_ne [simp]: "pad0 w i \<noteq> []"
  by (simp add: pad0_def)

lemma nat_str_small [go_simps]: "n < 10 \<Longrightarrow> nat_str n = [digit n]"
  by (subst nat_str.simps) simp

lemma nat_str_big [go_simps]: "10 \<le> n \<Longrightarrow> nat_str n = nat_str (n div 10) @ [digit (n mod 10)]"
  by (subst nat_str.simps) simp

lemmas num_eval = pad0_def itoa_def nat_str_small nat_str_big digit_def

end
