(* ===== verification/Proto.thy ===== *)
theory Proto
  imports GoStrings
begin

text \<open>
  The protocol-buffer messages the components exchange (proto/*/*.pb.go), as records of
  their public fields. A pointer to a message is an option, a repeated field a list, a map
  field an association list; where the code tells a nil map from an empty one the map is
  under an option. The wire bookkeeping of the generated structs is left out. An enum of
  proto3 is open: a number with no name is the constructor with that number.
\<close>

section \<open>devicepb\<close>

record Device =
  dv_Addr :: string
  dv_SSHPort :: int32
  dv_Username :: string
  dv_Password :: string
  dv_AionHome :: string

section \<open>servicepb\<close>

record NextServiceSetting =
  nss_NextServiceName :: string
  nss_NumberPattern :: string
  nss_NextDevice :: string

record NextService =
  nx_Settings :: "NextServiceSetting option list"

record PortConfig =
  pc_Name :: string
  pc_Protocol :: string
  pc_Port :: int32
  pc_NodePort :: int32

record ResourceConfig =
  rc_Memory :: string
  rc_Cpu :: string

record Resources =
  rs_Requests :: "ResourceConfig option"
  rs_Limits :: "ResourceConfig option"

record Microservice =
  ms_Command :: "string list"
  ms_NextService :: "(string, NextService option) gomap option"
  ms_Scale :: int32
  ms_Env :: "(string, string) gomap option"
  ms_Position :: string
  ms_Always :: bool
  ms_Multiple :: bool
  ms_Startup :: bool
  ms_Interval :: int32
  ms_Ports :: "PortConfig option list"
  ms_DirPath :: string
  ms_ServiceAccount :: string
  ms_Network :: string
  ms_Tag :: string
  ms_VolumeMountPathList :: "string list"
  ms_Privileged :: bool
  ms_WithoutKanban :: bool
  ms_TargetNode :: string
  ms_Resources :: "Resources option"

section \<open>projectpb\<close>

record AionSetting =
  as_Microservices :: "(string, Microservice option) gomap"
  as_Devices :: "(string, Device option) gomap"
  as_DeviceName :: string
  as_Debug :: string

datatype ResponseCode =
  ResponseCode_Unknown | ResponseCode_OK | ResponseCode_Failed | ResponseCode_Other int32

record ProjectResponse =
  pr_Message :: string
  pr_Code :: ResponseCode

record Services =
  sv_Response :: "ProjectResponse option"
  sv_Status :: "(string, string) gomap option"

section \<open>clusterpb\<close>

record NodeMeta =
  nm_NodeName :: string
  nm_NodeIP :: string
  nm_ServicesStatus :: "(string, bool) gomap option"

record ClusterApply =
  ca_AionSetting :: "AionSetting option"

section \<open>kanbanpb\<close>

text \<open>
  A value of \<open>google.protobuf.Struct\<close>. A number is a float64, kept as its bits; \<open>NoKind\<close>
  is a value whose kind is not set.
\<close>

datatype pb_value =
    NullValue
  | NumberValue "64 word"
  | StringValue string
  | BoolValue bool
  | StructValue "(string \<times> pb_value) list"
  | ListValue "pb_value list"
  | NoKind

type_synonym pb_struct = "(string, pb_value) gomap"

text \<open>
  A dynamic value (Go's \<open>interface{}\<close>) with the types the code asserts. A float64 is kept as
  its bits.
\<close>

datatype iface =
    INil
  | IBool bool
  | IFloat64 "64 word"
  | IString string
  | IInt int
  | ISlice "iface list"
  | IMap "(string \<times> iface) list"

fun as_string :: "iface option \<Rightarrow> string option" where
  "as_string (Some (IString s)) = Some s"
| "as_string _ = None"

fun as_int :: "iface option \<Rightarrow> int option" where
  "as_int (Some (IInt i)) = Some i"
| "as_int _ = None"

lemma as_string_Some [simp]: "as_string v = Some s \<longleftrightarrow> v = Some (IString s)"
  by (cases v rule: as_string.cases) auto

record StatusKanban =
  sk_StartAt :: string
  sk_FinishAt :: string
  sk_NextDeviceName :: string
  sk_ConnectionKey :: string
  sk_ProcessNumber :: int32
  sk_PriorSuccess :: bool
  sk_DataPath :: string
  sk_FileList :: "string list"
  sk_Metadata :: "pb_struct option"

text \<open>The getter of the metadata field accepts a nil message.\<close>

definition GetMetadata :: "StatusKanban option \<Rightarrow> pb_struct option" where
  "GetMetadata x = (case x of Some k \<Rightarrow> sk_Metadata k | None \<Rightarrow> None)"

record StaticKanban =
  st_Id :: string
  st_StatusKanban :: "StatusKanban option"

record SendKanban =
  sd_DeviceName :: string
  sd_DeviceAddr :: string
  sd_NextService :: string
  sd_NextNumber :: int32
  sd_AfterKanban :: "StatusKanban option"

type_synonym bytes = "8 word list"

record FileInfo =
  fi_Size :: "64 word"
  fi_ChunkCnt :: int32
  fi_Hash :: bytes
  fi_Name :: string
  fi_RelDir :: string

record DirInfo =
  di_FileCnt :: "64 word"
  di_DirName :: string
  di_RelParentPath :: string

record Chunk =
  ck_Context :: bytes
  ck_Name :: string
  ck_RefNum :: int32

record StreamInfo =
  si_FileCount :: int32

datatype UploadRequestCode =
    SendingKanban | SendingFile_CONT | SendingFile_EOF | SendingFile_FAILED | EOS
  | SendingFile_Info | EndOfSendingFile | SendingDirInfo | EndOfSendingDir | SendingStatus
  | UploadRequestCode_Other int32

text \<open>
  A message of the upload stream: its code and a \<open>google.protobuf.Any\<close>, whose type 'a is
  a parameter.
\<close>

record 'a SendContext =
  sc_Code :: UploadRequestCode
  sc_Context :: "'a option"

datatype UploadStatusCode =
  UploadStatus_Unknown | UploadStatus_Failed | UploadStatus_OK | UploadStatus_Other int32

record UploadStatus =
  us_Message :: string
  us_StatusCode :: UploadStatusCode

datatype InitializeType =
  START_SERVICE | START_SERVICE_WITHOUT_KANBAN | InitializeType_Other int32

record InitializeService =
  is_InitType :: InitializeType
  is_MicroserviceName :: string
  is_ProcessNumber :: int32

datatype ResponseStatus = SUCCESS | FAILED | ResponseStatus_Other int32

record Topic =
  tp_Name :: string

record Request =
  rq_MicroserviceName :: string
  rq_Message :: "StatusKanban option"

record StaticRequest =
  sr_Topic :: "Topic option"
  sr_Message :: "StatusKanban option"

record DeleteStaticRequest =
  dr_Topic :: "Topic option"
  dr_Id :: string

record Response =
  rp_Status :: ResponseStatus
  rp_Error :: string

section \<open>Packing messages into Any\<close>

text \<open>
  \<open>anypb.New\<close> and \<open>ptypes.UnmarshalAny\<close> are library code: a record of functions is the
  parameter that stands for them, and \<open>codec_ok\<close> says what their documentation does, that
  a message packed without an error is unpacked unchanged under its own type.
\<close>

record 'a any_codec =
  pack_kanban :: "SendKanban \<Rightarrow> 'a result"
  pack_file :: "FileInfo \<Rightarrow> 'a result"
  pack_dir :: "DirInfo \<Rightarrow> 'a result"
  pack_chunk :: "Chunk \<Rightarrow> 'a result"
  pack_stream :: "StreamInfo \<Rightarrow> 'a result"
  unpack_kanban :: "'a option \<Rightarrow> SendKanban result"
  unpack_file :: "'a option \<Rightarrow> FileInfo result"
  unpack_dir :: "'a option \<Rightarrow> DirInfo result"
  unpack_chunk :: "'a option \<Rightarrow> Chunk result"
  unpack_stream :: "'a option \<Rightarrow> StreamInfo result"

definition codec_ok :: "'a any_codec \<Rightarrow> bool" where
  "codec_ok c \<longleftrightarrow>
     (\<forall>m a. pack_kanban c m = Inr a \<longrightarrow> unpack_kanban c (Some a) = Inr m) \<and>
     (\<forall>m a. pack_file c m = Inr a \<longrightarrow> unpack_file c (Some a) = Inr m) \<and>
     (\<forall>m a. pack_dir c m = Inr a \<longrightarrow> unpack_dir c (Some a) = Inr m) \<and>
     (\<forall>m a. pack_chunk c m = Inr a \<longrightarrow> unpack_chunk c (Some a) = Inr m) \<and>
     (\<forall>m a. pack_stream c m = Inr a \<longrightarrow> unpack_stream c (Some a) = Inr m)"

lemma codec_okD:
  assumes "codec_ok c"
  shows "pack_kanban c m = Inr a \<Longrightarrow> unpack_kanban c (Some a) = Inr m"
    and "pack_file c f = Inr a \<Longrightarrow> unpack_file c (Some a) = Inr f"
    and "pack_dir c d = Inr a \<Longrightarrow> unpack_dir c (Some a) = Inr d"
    and "pack_chunk c k = Inr a \<Longrightarrow> unpack_chunk c (Some a) = Inr k"
    and "pack_stream c s = Inr a \<Longrightarrow> unpack_stream c (Some a) = Inr s"
  using assms by (auto simp: codec_ok_def)

text \<open>A concrete packing: the message itself.\<close>

datatype wire =
    WKanban SendKanban | WFile FileInfo | WDir DirInfo | WChunk Chunk | WStream StreamInfo

definition ref_codec :: "wire any_codec" where
  "ref_codec =
     \<lparr>pack_kanban = (\<lambda>m. Inr (WKanban m)), pack_file = (\<lambda>m. Inr (WFile m)), pack_dir = (\<lambda>m. Inr (WDir m)),
      pack_chunk = (\<lambda>m. Inr (WChunk m)), pack_stream = (\<lambda>m. Inr (WStream m)),
      unpack_kanban = (\<lambda>a. case a of Some (WKanban m) \<Rightarrow> Inr m | _ \<Rightarrow> Inl (Error ''mismatched message type'')),
      unpack_file = (\<lambda>a. case a of Some (WFile m) \<Rightarrow> Inr m | _ \<Rightarrow> Inl (Error ''mismatched message type'')),
      unpack_dir = (\<lambda>a. case a of Some (WDir m) \<Rightarrow> Inr m | _ \<Rightarrow> Inl (Error ''mismatched message type'')),
      unpack_chunk = (\<lambda>a. case a of Some (WChunk m) \<Rightarrow> Inr m | _ \<Rightarrow> Inl (Error ''mismatched message type'')),
      unpack_stream = (\<lambda>a. case a of Some (WStream m) \<Rightarrow> Inr m | _ \<Rightarrow> Inl (Error ''mismatched message type''))\<rparr>"

lemma ref_codec_ok: "codec_ok ref_codec"
  by (simp add: codec_ok_def ref_codec_def)

end
