(* ===== verification/Config.thy ===== *)
theory Config
  imports Proto
begin

text \<open>
  The project configuration (config/yaml_model.go and config/project.go): the model read
  from services.yml, its translation to the protocol-buffer setting, the defaults filled in
  on loading and the lookups the other components make. Loading writes through the pointers
  of the setting it is given, so the functions return what the setting has become together
  with the error.
\<close>

section \<open>The YAML model\<close>

record YamlDevice =
  yd_Addr :: string
  yd_SSHPort :: int32
  yd_Username :: string
  yd_Password :: string
  yd_AionHome :: string

record YamlPortConfig =
  yp_Name :: string
  yp_Protocol :: string
  yp_Port :: int32
  yp_NodePort :: int32

record YamlNextService =
  yn_NextServiceName :: string
  yn_NumberPattern :: string
  yn_NextDevice :: string

record YamlResourceConfig =
  yr_Memory :: string
  yr_Cpu :: string

record YamlResources =
  ys_Requests :: "YamlResourceConfig option"
  ys_Limits :: "YamlResourceConfig option"

record YamlMicroservice =
  ym_Command :: "string list"
  ym_NextService :: "(string, YamlNextService option list) gomap option"
  ym_Scale :: int32
  ym_Env :: "(string, string) gomap option"
  ym_Position :: string
  ym_Always :: bool
  ym_Multiple :: bool
  ym_Startup :: bool
  ym_Interval :: int32
  ym_Ports :: "YamlPortConfig option list"
  ym_DirPath :: string
  ym_ServiceAccount :: string
  ym_Network :: string
  ym_Tag :: string
  ym_VolumeMountPathList :: "string list"
  ym_Privileged :: bool
  ym_WithoutKanban :: bool
  ym_TargetNode :: string
  ym_Resources :: "YamlResources option"

record YamlAionSetting =
  ya_Microservices :: "(string, YamlMicroservice option) gomap"
  ya_Devices :: "(string, YamlDevice option) gomap"
  ya_DeviceName :: string
  ya_Debug :: string

section \<open>From the YAML model to the setting\<close>

definition map_device :: "YamlDevice option \<Rightarrow> Device option result" where
  "map_device v = (case v of None \<Rightarrow> Inl nil_deref
     | Some d \<Rightarrow> Inr (Some \<lparr>dv_Addr = yd_Addr d, dv_SSHPort = yd_SSHPort d,
         dv_Username = yd_Username d, dv_Password = yd_Password d, dv_AionHome = yd_AionHome d\<rparr>))"

definition map_next_setting :: "YamlNextService option \<Rightarrow> NextServiceSetting option result" where
  "map_next_setting e = (case e of None \<Rightarrow> Inl nil_deref
     | Some n \<Rightarrow> Inr (Some \<lparr>nss_NextServiceName = yn_NextServiceName n,
         nss_NumberPattern = yn_NumberPattern n, nss_NextDevice = yn_NextDevice n\<rparr>))"

definition map_next :: "YamlNextService option list \<Rightarrow> NextService option result" where
  "map_next v = (case rmap map_next_setting v of Inl e \<Rightarrow> Inl e
     | Inr ss \<Rightarrow> Inr (Some \<lparr>nx_Settings = ss\<rparr>))"

definition map_port :: "YamlPortConfig option \<Rightarrow> PortConfig option result" where
  "map_port v = (case v of None \<Rightarrow> Inl nil_deref
     | Some p \<Rightarrow> Inr (Some \<lparr>pc_Name = yp_Name p, pc_Protocol = yp_Protocol p,
         pc_Port = yp_Port p, pc_NodePort = yp_NodePort p\<rparr>))"

definition map_resource_config :: "YamlResourceConfig \<Rightarrow> ResourceConfig" where
  "map_resource_config r = \<lparr>rc_Memory = yr_Memory r, rc_Cpu = yr_Cpu r\<rparr>"

definition map_resources :: "YamlResources \<Rightarrow> Resources" where
  "map_resources r = \<lparr>rs_Requests = map_option map_resource_config (ys_Requests r),
     rs_Limits = map_option map_resource_config (ys_Limits r)\<rparr>"

text \<open>A loop over a map that builds a new map.\<close>

definition rmap_vals :: "('v \<Rightarrow> 'w result) \<Rightarrow> ('k \<times> 'v) list \<Rightarrow> ('k \<times> 'w) list result" where
  "rmap_vals f = rmap (\<lambda>(k, v). case f v of Inl e \<Rightarrow> Inl e | Inr w \<Rightarrow> Inr (k, w))"

definition map_microservice :: "YamlMicroservice option \<Rightarrow> Microservice option result" where
  "map_microservice v = (case v of None \<Rightarrow> Inl nil_deref
     | Some y \<Rightarrow>
       (case rmap_vals map_next (case ym_NextService y of None \<Rightarrow> [] | Some ns \<Rightarrow> ns) of
          Inl e \<Rightarrow> Inl e
        | Inr ns \<Rightarrow>
          (case rmap map_port (ym_Ports y) of
             Inl e \<Rightarrow> Inl e
           | Inr ps \<Rightarrow> Inr (Some \<lparr>ms_Command = ym_Command y, ms_NextService = Some ns,
               ms_Scale = ym_Scale y, ms_Env = ym_Env y, ms_Position = ym_Position y,
               ms_Always = ym_Always y, ms_Multiple = ym_Multiple y, ms_Startup = ym_Startup y,
               ms_Interval = ym_Interval y, ms_Ports = ps, ms_DirPath = ym_DirPath y,
               ms_ServiceAccount = ym_ServiceAccount y, ms_Network = ym_Network y,
               ms_Tag = ym_Tag y, ms_VolumeMountPathList = ym_VolumeMountPathList y,
               ms_Privileged = ym_Privileged y, ms_WithoutKanban = ym_WithoutKanban y,
               ms_TargetNode = ym_TargetNode y,
               ms_Resources = map_option map_resources (ym_Resources y)\<rparr>))))"

definition mapToGRPCAionSetting :: "YamlAionSetting \<Rightarrow> AionSetting result" where
  "mapToGRPCAionSetting y =
     (case rmap_vals map_device (ya_Devices y) of
        Inl e \<Rightarrow> Inl e
      | Inr ds \<Rightarrow>
        (case rmap_vals map_microservice (ya_Microservices y) of
           Inl e \<Rightarrow> Inl e
         | Inr ms \<Rightarrow> Inr \<lparr>as_Microservices = ms, as_Devices = ds,
             as_DeviceName = ya_DeviceName y, as_Debug = ya_Debug y\<rparr>))"

text \<open>
  The file is read by the operating system and parsed by the yaml library, two parameters.
\<close>

definition LoadConfigFromFile ::
  "(string \<Rightarrow> string result) \<Rightarrow> (string \<Rightarrow> YamlAionSetting result) \<Rightarrow> string \<Rightarrow> AionSetting result" where
  "LoadConfigFromFile read_file unmarshal filePath =
     (case read_file filePath of
        Inl e \<Rightarrow> Inl e
      | Inr b \<Rightarrow> (case unmarshal b of Inl e \<Rightarrow> Inl e | Inr y \<Rightarrow> mapToGRPCAionSetting y))"

section \<open>Defaults\<close>

definition DefaultAionHome :: string where "DefaultAionHome = ''/var/lib/aion''"
definition DefaultUsername :: string where "DefaultUsername = ''aion''"
definition DefaultPassword :: string where "DefaultPassword = ''aion''"
definition DefaultSSHPort :: int32 where "DefaultSSHPort = 22"
definition Spread :: string where "Spread = ''n''"
definition DefaultNumber :: string where "DefaultNumber = ''0''"
definition DefaultProcessPattern :: string where "DefaultProcessPattern = Spread"
definition DefaultConnectionKey :: string where "DefaultConnectionKey = ''default''"
definition DefaultPosition :: string where "DefaultPosition = ''Runtime''"
definition DefaultScale :: int32 where "DefaultScale = 1"
definition DefaultServiceAccount :: string where "DefaultServiceAccount = ''default''"
definition DefaultNetwork :: string where "DefaultNetwork = ''ClusterIP''"
definition DefaultTag :: string where "DefaultTag = ''latest''"

lemmas default_defs = DefaultAionHome_def DefaultUsername_def DefaultPassword_def
  DefaultSSHPort_def Spread_def DefaultNumber_def DefaultProcessPattern_def
  DefaultConnectionKey_def DefaultPosition_def DefaultScale_def DefaultServiceAccount_def
  DefaultNetwork_def DefaultTag_def

definition dflt :: "string \<Rightarrow> string \<Rightarrow> string" where
  "dflt d s = (if s = '''' then d else s)"

lemma dflt_ne [simp]: "d \<noteq> [] \<Longrightarrow> dflt d s \<noteq> []"
  by (simp add: dflt_def)

lemma dflt_id [simp]: "s \<noteq> [] \<Longrightarrow> dflt d s = s"
  by (simp add: dflt_def)

definition init_device :: "Device \<Rightarrow> Device" where
  "init_device v = v\<lparr>dv_AionHome := dflt DefaultAionHome (dv_AionHome v),
     dv_Username := dflt DefaultUsername (dv_Username v),
     dv_Password := dflt DefaultPassword (dv_Password v),
     dv_SSHPort := (if dv_SSHPort v = 0 then DefaultSSHPort else dv_SSHPort v)\<rparr>"

definition init_next_setting :: "NextServiceSetting \<Rightarrow> NextServiceSetting" where
  "init_next_setting n = n\<lparr>nss_NumberPattern := dflt DefaultProcessPattern (nss_NumberPattern n)\<rparr>"

definition init_fields :: "Microservice \<Rightarrow> Microservice" where
  "init_fields m = m\<lparr>ms_Position := dflt DefaultPosition (ms_Position m),
     ms_Scale := (if to_int (ms_Scale m) \<le> 0 then DefaultScale else ms_Scale m),
     ms_Network := dflt DefaultNetwork (ms_Network m),
     ms_ServiceAccount := dflt DefaultServiceAccount (ms_ServiceAccount m),
     ms_Env := (case ms_Env m of None \<Rightarrow> Some [] | Some e \<Rightarrow> Some e),
     ms_NextService := (case ms_NextService m of None \<Rightarrow> Some [] | Some n \<Rightarrow> Some n),
     ms_Tag := dflt DefaultTag (ms_Tag m)\<rparr>"


definition filled_device :: "Device \<Rightarrow> bool" where
  "filled_device v \<longleftrightarrow> dv_AionHome v \<noteq> [] \<and> dv_Username v \<noteq> [] \<and> dv_Password v \<noteq> [] \<and> dv_SSHPort v \<noteq> 0"

definition filled_next_setting :: "NextServiceSetting \<Rightarrow> bool" where
  "filled_next_setting n \<longleftrightarrow> nss_NumberPattern n \<noteq> []"

definition filled_fields :: "Microservice \<Rightarrow> bool" where
  "filled_fields m \<longleftrightarrow> ms_Position m \<noteq> [] \<and> 0 < to_int (ms_Scale m) \<and> ms_Network m \<noteq> [] \<and>
     ms_ServiceAccount m \<noteq> [] \<and> ms_Env m \<noteq> None \<and> ms_NextService m \<noteq> None \<and> ms_Tag m \<noteq> []"

lemma to_int_consts [simp]: "to_int 0 = 0" "to_int 1 = 1"
  by (simp_all add: to_int_def)

interpretation dev: defaulter init_device filled_device
  by unfold_locales (auto simp: init_device_def filled_device_def default_defs)

interpretation nss: defaulter init_next_setting filled_next_setting
  by unfold_locales (auto simp: init_next_setting_def filled_next_setting_def default_defs)

interpretation msf: defaulter init_fields filled_fields
  by unfold_locales (auto simp: init_fields_def filled_fields_def default_defs split: option.splits)

text \<open>The loops of \<open>setInitializeValue\<close>; a nil pointer in a map or a slice panics where it is read.\<close>

definition init_device_ptr :: "Device option \<Rightarrow> go_error option \<times> Device option" where
  "init_device_ptr v = (case v of None \<Rightarrow> (Some nil_deref, None) | Some d \<Rightarrow> (None, Some (init_device d)))"

definition init_setting_ptr :: "NextServiceSetting option \<Rightarrow> go_error option \<times> NextServiceSetting option" where
  "init_setting_ptr v = (case v of None \<Rightarrow> (Some nil_deref, None) | Some n \<Rightarrow> (None, Some (init_next_setting n)))"

definition init_next_ptr :: "NextService option \<Rightarrow> go_error option \<times> NextService option" where
  "init_next_ptr v = (case v of None \<Rightarrow> (Some nil_deref, None)
     | Some nx \<Rightarrow> (case for_list init_setting_ptr (nx_Settings nx) of
         (r, ss) \<Rightarrow> (r, Some (nx\<lparr>nx_Settings := ss\<rparr>))))"

definition init_microservice_ptr :: "Microservice option \<Rightarrow> go_error option \<times> Microservice option" where
  "init_microservice_ptr v = (case v of None \<Rightarrow> (Some (Error ''yaml format is wrong''), None)
     | Some m0 \<Rightarrow> (let m = init_fields m0 in
         (case for_vals init_next_ptr (the (ms_NextService m)) of
           (r, ns) \<Rightarrow> (r, Some (m\<lparr>ms_NextService := Some ns\<rparr>)))))"

definition setInitializeValue :: "AionSetting \<Rightarrow> go_error option \<times> AionSetting" where
  "setInitializeValue a =
     (case for_vals init_device_ptr (as_Devices a) of
        (Some e, ds) \<Rightarrow> (Some e, a\<lparr>as_Devices := ds\<rparr>)
      | (None, ds) \<Rightarrow>
          (case for_vals init_microservice_ptr (as_Microservices a) of
             (r, ms) \<Rightarrow> (r, a\<lparr>as_Devices := ds, as_Microservices := ms\<rparr>)))"

text \<open>
  The two loaders. \<open>LoadConfigFromGRPC\<close> wraps the setting it is given, so on success the
  loaded setting is the returned one, and on an error the caller's setting has still been
  written as far as the loops got.
\<close>

definition LoadConfigFromGRPC :: "AionSetting option \<Rightarrow> go_error option \<times> AionSetting option" where
  "LoadConfigFromGRPC project = (case project of None \<Rightarrow> (Some nil_deref, None)
     | Some a \<Rightarrow> (case setInitializeValue a of (r, a') \<Rightarrow> (r, Some a')))"

definition LoadConfigFromDirectory ::
  "(string \<Rightarrow> string result) \<Rightarrow> (string \<Rightarrow> YamlAionSetting result) \<Rightarrow> string \<Rightarrow> AionSetting result" where
  "LoadConfigFromDirectory read_file unmarshal configPath =
     (case LoadConfigFromFile read_file unmarshal configPath of
        Inl e \<Rightarrow> Inl e
      | Inr a \<Rightarrow> (case setInitializeValue a of (Some e, _) \<Rightarrow> Inl e | (None, a') \<Rightarrow> Inr a'))"

section \<open>Lookups\<close>

definition GetNextNumber :: "int32 \<Rightarrow> string \<Rightarrow> int" where
  "GetNextNumber previousNumber msNumberPattern =
     (if msNumberPattern = DefaultNumber then 1
      else if msNumberPattern = Spread then to_int previousNumber
      else 1)"

definition no_microservice :: "string \<Rightarrow> go_error" where
  "no_microservice name = Error (''there is no microservice: '' @ name)"

definition GetMicroserviceByName :: "AionSetting \<Rightarrow> string \<Rightarrow> Microservice option result" where
  "GetMicroserviceByName a name = (case map_of (as_Microservices a) name of
     None \<Rightarrow> Inl (no_microservice name) | Some ms \<Rightarrow> Inr ms)"

definition GetNextServiceList :: "AionSetting \<Rightarrow> string \<Rightarrow> string \<Rightarrow> NextServiceSetting option list result" where
  "GetNextServiceList a name connectionKey =
     (case map_of (as_Microservices a) name of
        None \<Rightarrow> Inl (no_microservice name)
      | Some None \<Rightarrow> Inl nil_deref
      | Some (Some ms) \<Rightarrow>
         (let ns = (case ms_NextService ms of None \<Rightarrow> [] | Some n \<Rightarrow> n) in
          (case map_of ns connectionKey of
             Some cl \<Rightarrow> (case cl of None \<Rightarrow> Inl nil_deref | Some c \<Rightarrow> Inr (nx_Settings c))
           | None \<Rightarrow>
             (case map_of ns DefaultConnectionKey of
                Some cl \<Rightarrow> (case cl of None \<Rightarrow> Inl nil_deref | Some c \<Rightarrow> Inr (nx_Settings c))
              | None \<Rightarrow> Inl (Error (''invalid connection key (connectionkey: '' @ connectionKey @ '')''))))))"

text \<open>The accessors \<open>GetMicroserviceList\<close>, \<open>GetDeviceName\<close>, \<open>GetDebug\<close>, \<open>GetDeviceList\<close>.\<close>

definition GetMicroserviceList :: "AionSetting \<Rightarrow> (string, Microservice option) gomap" where
  "GetMicroserviceList a = as_Microservices a"

definition GetDeviceName :: "AionSetting \<Rightarrow> string" where
  "GetDeviceName a = as_DeviceName a"

definition GetDebug :: "AionSetting \<Rightarrow> string" where
  "GetDebug a = as_Debug a"

definition GetDeviceList :: "AionSetting \<Rightarrow> (string, Device option) gomap" where
  "GetDeviceList a = as_Devices a"


section \<open>Which settings load, and what loading gives\<close>

text \<open>A setting with no nil pointer where the loops dereference one.\<close>

definition next_no_nil :: "NextService option \<Rightarrow> bool" where
  "next_no_nil v = (case v of None \<Rightarrow> False | Some nx \<Rightarrow> (\<forall>s \<in> set (nx_Settings nx). s \<noteq> None))"

definition ms_no_nil :: "Microservice option \<Rightarrow> bool" where
  "ms_no_nil v = (case v of None \<Rightarrow> False
     | Some m \<Rightarrow> (\<forall>(k, nx) \<in> set (case ms_NextService m of None \<Rightarrow> [] | Some n \<Rightarrow> n). next_no_nil nx))"

definition no_nil :: "AionSetting \<Rightarrow> bool" where
  "no_nil a \<longleftrightarrow> (\<forall>(k, d) \<in> set (as_Devices a). d \<noteq> None) \<and>
     (\<forall>(k, m) \<in> set (as_Microservices a). ms_no_nil m)"

text \<open>A setting with every default filled in: what the rest of the program relies on.\<close>

definition filled_next :: "NextService option \<Rightarrow> bool" where
  "filled_next v = (case v of None \<Rightarrow> False
     | Some nx \<Rightarrow> (\<forall>s \<in> set (nx_Settings nx). case s of None \<Rightarrow> False | Some t \<Rightarrow> filled_next_setting t))"

definition filled_ms :: "Microservice option \<Rightarrow> bool" where
  "filled_ms v = (case v of None \<Rightarrow> False
     | Some m \<Rightarrow> filled_fields m \<and>
         (\<forall>(k, nx) \<in> set (case ms_NextService m of None \<Rightarrow> [] | Some n \<Rightarrow> n). filled_next nx))"

definition wf_setting :: "AionSetting \<Rightarrow> bool" where
  "wf_setting a \<longleftrightarrow> (\<forall>(k, d) \<in> set (as_Devices a). case d of None \<Rightarrow> False | Some v \<Rightarrow> filled_device v) \<and>
     (\<forall>(k, m) \<in> set (as_Microservices a). filled_ms m)"

lemma init_device_ptr_ok: "fst (init_device_ptr v) = None \<longleftrightarrow> v \<noteq> None"
  by (auto simp: init_device_ptr_def split: option.splits)

lemma init_setting_ptr_ok: "fst (init_setting_ptr v) = None \<longleftrightarrow> v \<noteq> None"
  by (auto simp: init_setting_ptr_def split: option.splits)

lemma init_next_ptr_ok: "fst (init_next_ptr v) = None \<longleftrightarrow> next_no_nil v"
proof (cases v)
  case None
  then show ?thesis by (simp add: init_next_ptr_def next_no_nil_def)
next
  case (Some nx)
  have "fst (init_next_ptr v) = fst (for_list init_setting_ptr (nx_Settings nx))"
    using Some by (simp add: init_next_ptr_def split: prod.splits)
  with Some show ?thesis
    by (auto simp: next_no_nil_def for_list_ok_iff init_setting_ptr_ok)
qed

lemma init_fields_next [simp]:
  "ms_NextService (init_fields m) = Some (case ms_NextService m of None \<Rightarrow> [] | Some n \<Rightarrow> n)"
  by (simp add: init_fields_def split: option.splits)

lemma init_microservice_ptr_eq:
  "init_microservice_ptr (Some m) =
     (fst (for_vals init_next_ptr (case ms_NextService m of None \<Rightarrow> [] | Some n \<Rightarrow> n)),
      Some ((init_fields m)\<lparr>ms_NextService :=
        Some (snd (for_vals init_next_ptr (case ms_NextService m of None \<Rightarrow> [] | Some n \<Rightarrow> n)))\<rparr>))"
  by (simp add: init_microservice_ptr_def Let_def split: prod.splits)

lemma init_microservice_ptr_ok: "fst (init_microservice_ptr v) = None \<longleftrightarrow> ms_no_nil v"
proof (cases v)
  case None
  then show ?thesis by (simp add: init_microservice_ptr_def ms_no_nil_def)
next
  case (Some m)
  then show ?thesis
    by (simp add: init_microservice_ptr_eq ms_no_nil_def for_vals_ok_iff init_next_ptr_ok)
qed

lemma set_init_ok_iff: "fst (setInitializeValue a) = None \<longleftrightarrow> no_nil a"
proof -
  have "fst (setInitializeValue a) = None \<longleftrightarrow>
      fst (for_vals init_device_ptr (as_Devices a)) = None \<and>
      fst (for_vals init_microservice_ptr (as_Microservices a)) = None"
    by (auto simp: setInitializeValue_def split: prod.splits option.splits)
  then show ?thesis
    by (simp add: no_nil_def for_vals_ok_iff init_device_ptr_ok init_microservice_ptr_ok)
qed

text \<open>What a successful load returns, without the loops.\<close>

lemma set_init_ok:
  assumes "no_nil a"
  shows "setInitializeValue a = (None, a\<lparr>as_Devices := map_vals (snd \<circ> init_device_ptr) (as_Devices a),
     as_Microservices := map_vals (snd \<circ> init_microservice_ptr) (as_Microservices a)\<rparr>)"
proof -
  from assms have "fst (for_vals init_device_ptr (as_Devices a)) = None"
    "fst (for_vals init_microservice_ptr (as_Microservices a)) = None"
    by (simp_all add: no_nil_def for_vals_ok_iff init_device_ptr_ok init_microservice_ptr_ok)
  from this [THEN for_vals_ok] this have
    "for_vals init_device_ptr (as_Devices a) = (None, map_vals (snd \<circ> init_device_ptr) (as_Devices a))"
    "for_vals init_microservice_ptr (as_Microservices a) =
       (None, map_vals (snd \<circ> init_microservice_ptr) (as_Microservices a))"
    by (auto intro: prod_eqI)
  then show ?thesis by (simp add: setInitializeValue_def)
qed

lemma filled_init_device_ptr: "v \<noteq> None \<Longrightarrow> \<exists>d. snd (init_device_ptr v) = Some d \<and> filled_device d"
  by (auto simp: init_device_ptr_def dev.fill_filled)

lemma filled_init_next_ptr:
  assumes "next_no_nil v"
  shows "filled_next (snd (init_next_ptr v))"
proof -
  from assms obtain nx where v: "v = Some nx" and nn: "\<forall>s \<in> set (nx_Settings nx). s \<noteq> None"
    by (auto simp: next_no_nil_def split: option.splits)
  have "fst (for_list init_setting_ptr (nx_Settings nx)) = None"
    using nn by (auto simp: for_list_ok_iff init_setting_ptr_ok)
  from for_list_ok [OF this]
  have "snd (init_next_ptr v) = Some (nx\<lparr>nx_Settings := map (\<lambda>x. snd (init_setting_ptr x)) (nx_Settings nx)\<rparr>)"
    by (simp add: v init_next_ptr_def split_beta)
  then show ?thesis
    using nn by (auto simp: filled_next_def init_setting_ptr_def nss.fill_filled split: option.splits)
qed

lemma filled_init_microservice_ptr:
  assumes "ms_no_nil v"
  shows "filled_ms (snd (init_microservice_ptr v))"
proof -
  from assms obtain m where v: "v = Some m"
    and nn: "\<forall>(k, nx) \<in> set (case ms_NextService m of None \<Rightarrow> [] | Some n \<Rightarrow> n). next_no_nil nx"
    by (auto simp: ms_no_nil_def split: option.splits)
  let ?ns = "case ms_NextService m of None \<Rightarrow> [] | Some n \<Rightarrow> n"
  have "fst (for_vals init_next_ptr ?ns) = None"
    using nn by (simp add: for_vals_ok_iff init_next_ptr_ok)
  then have "snd (for_vals init_next_ptr ?ns) = map_vals (snd \<circ> init_next_ptr) ?ns"
    by (rule for_vals_ok)
  moreover have "filled_fields (init_fields m)" by (rule msf.fill_filled)
  moreover have "\<forall>(k, nx) \<in> set (map_vals (snd \<circ> init_next_ptr) ?ns). filled_next nx"
    using nn by (auto simp del: map_of_map_vals simp: map_vals_def intro!: filled_init_next_ptr)
  ultimately show ?thesis
    by (simp add: v init_microservice_ptr_eq filled_ms_def filled_fields_def)
qed

lemma set_init_wf:
  assumes "no_nil a"
  shows "wf_setting (snd (setInitializeValue a))"
proof -
  have "\<forall>(k, d) \<in> set (map_vals (snd \<circ> init_device_ptr) (as_Devices a)).
      case d of None \<Rightarrow> False | Some v \<Rightarrow> filled_device v"
    using assms by (auto simp: no_nil_def map_vals_def init_device_ptr_def dev.fill_filled split: option.splits)
  moreover have "\<forall>(k, m) \<in> set (map_vals (snd \<circ> init_microservice_ptr) (as_Microservices a)). filled_ms m"
    using assms by (auto simp: no_nil_def map_vals_def intro!: filled_init_microservice_ptr)
  ultimately show ?thesis
    using assms by (simp add: set_init_ok wf_setting_def)
qed

lemma filled_next_no_nil: "filled_next v \<Longrightarrow> next_no_nil v"
  by (auto simp: filled_next_def next_no_nil_def split: option.splits)

lemma filled_ms_no_nil: "filled_ms v \<Longrightarrow> ms_no_nil v"
  by (auto simp: filled_ms_def ms_no_nil_def intro: filled_next_no_nil split: option.splits)

lemma wf_no_nil: "wf_setting a \<Longrightarrow> no_nil a"
  by (auto simp: wf_setting_def no_nil_def intro: filled_ms_no_nil split: option.splits)

text \<open>Loading leaves a setting alone that has its defaults.\<close>

lemma init_next_ptr_id: "filled_next v \<Longrightarrow> init_next_ptr v = (None, v)"
proof -
  assume "filled_next v"
  then obtain nx where v: "v = Some nx"
    and f: "\<forall>s \<in> set (nx_Settings nx). case s of None \<Rightarrow> False | Some t \<Rightarrow> filled_next_setting t"
    by (auto simp: filled_next_def split: option.splits)
  from f have "for_list init_setting_ptr (nx_Settings nx) = (None, nx_Settings nx)"
    by (intro for_list_id) (auto simp: init_setting_ptr_def nss.fill_id split: option.splits)
  then show ?thesis by (simp add: v init_next_ptr_def)
qed

lemma init_microservice_ptr_id: "filled_ms v \<Longrightarrow> init_microservice_ptr v = (None, v)"
proof -
  assume "filled_ms v"
  then obtain m where v: "v = Some m" and ff: "filled_fields m"
    and f: "\<forall>(k, nx) \<in> set (case ms_NextService m of None \<Rightarrow> [] | Some n \<Rightarrow> n). filled_next nx"
    by (auto simp: filled_ms_def split: option.splits)
  from ff obtain n where n: "ms_NextService m = Some n" by (auto simp: filled_fields_def)
  from f n have "for_vals init_next_ptr n = (None, n)"
    by (intro for_vals_id) (auto simp: init_next_ptr_id)
  then show ?thesis
    using n msf.fill_id [OF ff] by (simp add: v init_microservice_ptr_eq)
qed

lemma set_init_id:
  assumes "wf_setting a"
  shows "setInitializeValue a = (None, a)"
proof -
  from assms have "for_vals init_device_ptr (as_Devices a) = (None, as_Devices a)"
    by (intro for_vals_id)
      (auto simp: wf_setting_def init_device_ptr_def dev.fill_id split: option.splits)
  moreover from assms have "for_vals init_microservice_ptr (as_Microservices a) = (None, as_Microservices a)"
    by (intro for_vals_id) (auto simp: wf_setting_def init_microservice_ptr_id)
  ultimately show ?thesis by (simp add: setInitializeValue_def)
qed

lemma load_Some:
  "LoadConfigFromGRPC (Some a) = (fst (setInitializeValue a), Some (snd (setInitializeValue a)))"
  by (simp add: LoadConfigFromGRPC_def split: prod.splits)


section \<open>Example settings\<close>

definition ex_device :: Device where
  "ex_device = \<lparr>dv_Addr = ''10.0.0.2'', dv_SSHPort = 0, dv_Username = [], dv_Password = [], dv_AionHome = []\<rparr>"

definition ex_next :: NextServiceSetting where
  "ex_next = \<lparr>nss_NextServiceName = ''b'', nss_NumberPattern = [], nss_NextDevice = []\<rparr>"

definition ex_ms :: Microservice where
  "ex_ms = \<lparr>ms_Command = [], ms_NextService = Some [(''default'', Some \<lparr>nx_Settings = [Some ex_next]\<rparr>)],
     ms_Scale = 0, ms_Env = None, ms_Position = [], ms_Always = False, ms_Multiple = False,
     ms_Startup = True, ms_Interval = 0, ms_Ports = [], ms_DirPath = [], ms_ServiceAccount = [],
     ms_Network = [], ms_Tag = [], ms_VolumeMountPathList = [], ms_Privileged = False,
     ms_WithoutKanban = False, ms_TargetNode = [], ms_Resources = None\<rparr>"

definition ex_setting :: AionSetting where
  "ex_setting = \<lparr>as_Microservices = [(''a'', Some ex_ms)], as_Devices = [(''dev'', Some ex_device)],
     as_DeviceName = ''here'', as_Debug = ''false''\<rparr>"

lemma ex_setting_no_nil: "no_nil ex_setting"
  by (simp add: no_nil_def ex_setting_def ms_no_nil_def ex_ms_def next_no_nil_def)

section \<open>Properties\<close>


text \<open>
  Filling in defaults is idempotent: a setting that has been loaded once is loaded again
  without an error and without a change (the broker's master sends a loaded setting to its
  workers, which load it again).
\<close>

theorem load_idempotent:
  assumes "LoadConfigFromGRPC p = (None, q)"
  shows "LoadConfigFromGRPC q = (None, q)"
proof -
  from assms obtain a where p: "p = Some a"
    by (cases p) (auto simp: LoadConfigFromGRPC_def)
  with assms have ok: "fst (setInitializeValue a) = None" and q: "q = Some (snd (setInitializeValue a))"
    by (simp_all add: load_Some)
  from ok have "wf_setting (snd (setInitializeValue a))"
    by (simp add: set_init_ok_iff set_init_wf)
  then show ?thesis by (simp add: q load_Some set_init_id)
qed

theorem load_idempotent_witness:
  "LoadConfigFromGRPC (snd (LoadConfigFromGRPC (Some ex_setting))) =
     (None, snd (LoadConfigFromGRPC (Some ex_setting)))"
proof -
  have "LoadConfigFromGRPC (Some ex_setting) = (None, snd (LoadConfigFromGRPC (Some ex_setting)))"
    by (simp add: load_Some set_init_ok ex_setting_no_nil)
  then show ?thesis by (rule load_idempotent)
qed

lemma wf_setting_lookup:
  "wf_setting a \<Longrightarrow> map_of (as_Microservices a) name = Some v \<Longrightarrow> filled_ms v"
  by (auto simp: wf_setting_def dest!: map_of_SomeD)

lemma wf_setting_ms:
  assumes "wf_setting a" "map_of (as_Microservices a) name = Some v"
  obtains m ns where "v = Some m" "filled_fields m" "ms_NextService m = Some ns"
    "\<forall>(k, nx) \<in> set ns. filled_next nx"
  using wf_setting_lookup [OF assms]
  by (auto simp: filled_ms_def filled_fields_def split: option.splits)

lemma wf_setting_device:
  assumes "wf_setting a" "map_of (as_Devices a) name = Some v"
  obtains d where "v = Some d" "filled_device d"
  using assms by (auto simp: wf_setting_def dest!: map_of_SomeD split: option.splits)

text \<open>
  On a loaded setting the next services of a microservice are those of the kanban's
  connection key, else those of the key \<open>default\<close>; the lookup never panics, it returns an
  error exactly when the microservice is unknown or has neither key, and every entry it
  returns is non-nil and has a number pattern.
\<close>

theorem next_service_list_loaded:
  assumes "wf_setting a"
  shows "case GetNextServiceList a name key of
      Inr ss \<Rightarrow> (\<exists>m ns nx. map_of (as_Microservices a) name = Some (Some m) \<and> ms_NextService m = Some ns \<and>
          (map_of ns key = Some (Some nx) \<or> map_of ns key = None \<and> map_of ns ''default'' = Some (Some nx)) \<and>
          ss = nx_Settings nx \<and> (\<forall>s \<in> set ss. \<exists>t. s = Some t \<and> nss_NumberPattern t \<noteq> []))
    | Inl (Error e) \<Rightarrow> map_of (as_Microservices a) name = None \<or>
          (\<exists>m ns. map_of (as_Microservices a) name = Some (Some m) \<and> ms_NextService m = Some ns \<and>
             map_of ns key = None \<and> map_of ns ''default'' = None)
    | Inl (Panic e) \<Rightarrow> False"
proof (cases "map_of (as_Microservices a) name")
  case None
  then show ?thesis by (simp add: GetNextServiceList_def no_microservice_def)
next
  case (Some v)
  from wf_setting_ms [OF assms Some] obtain m ns where v: "v = Some m" "ms_NextService m = Some ns"
    and ns: "\<forall>(k, nx) \<in> set ns. filled_next nx" by metis
  have nx: "\<exists>c. w = Some c \<and> (\<forall>s \<in> set (nx_Settings c). \<exists>t. s = Some t \<and> nss_NumberPattern t \<noteq> [])"
    if "map_of ns k = Some w" for k w
    using ball_pairD [OF ns map_of_SomeD [OF that]]
    by (auto simp: filled_next_def filled_next_setting_def split: option.splits)
  show ?thesis
    using Some v nx
    by (auto simp: GetNextServiceList_def DefaultConnectionKey_def split: option.splits)
qed

theorem next_service_list_loaded_witness:
  "GetNextServiceList (snd (setInitializeValue ex_setting)) ''a'' ''x'' =
     Inr [Some (init_next_setting ex_next)]"
proof -
  let ?a = "snd (setInitializeValue ex_setting)"
  have "wf_setting ?a" by (rule set_init_wf [OF ex_setting_no_nil])
  note c = next_service_list_loaded [OF this, of "''a''" "''x''"]
  have "GetNextServiceList ?a ''a'' ''x'' = Inr [Some (init_next_setting ex_next)]"
    by code_simp
  with c show ?thesis by simp
qed

text \<open>Reading the YAML model.\<close>

lemma rmap_vals_keys: "rmap_vals f m = Inr m' \<Longrightarrow> map fst m' = map fst m"
proof (induction m arbitrary: m')
  case (Cons kv m)
  then show ?case
    by (cases kv) (auto simp: rmap_vals_def split: sum.splits)
qed (simp add: rmap_vals_def)

lemma rmap_vals_lookup:
  "rmap_vals f m = Inr m' \<Longrightarrow> map_of m' k = (case map_of m k of None \<Rightarrow> None
     | Some v \<Rightarrow> (case f v of Inl e \<Rightarrow> None | Inr w \<Rightarrow> Some w))"
proof (induction m arbitrary: m')
  case (Cons kv m)
  then show ?case
    by (cases kv) (auto simp: rmap_vals_def split: sum.splits)
qed (simp add: rmap_vals_def)

lemma rmap_vals_Inl: "rmap_vals f m = Inl e \<Longrightarrow> \<exists>(k, v) \<in> set m. f v = Inl e"
  by (fastforce simp: rmap_vals_def dest!: rmap_Inl split: sum.splits)

lemma rmap_vals_all:
  assumes "rmap_vals f m = Inr m'" "(k, w) \<in> set m'"
  shows "\<exists>v. (k, v) \<in> set m \<and> f v = Inr w"
  using rmap_all [OF assms(1) [unfolded rmap_vals_def] assms(2)]
  by (auto split: sum.splits)

lemma map_next_ok_iff: "(\<exists>w. map_next v = Inr w) \<longleftrightarrow> None \<notin> set v"
proof -
  have "(\<exists>e. rmap map_next_setting v = Inl e) \<longleftrightarrow> None \<in> set v"
    by (auto simp: rmap_fails_iff map_next_setting_def split: option.splits)
  then show ?thesis
    by (auto simp: map_next_def split: sum.splits)
qed

lemma map_next_panics: "map_next v = Inl e \<Longrightarrow> e = nil_deref"
  by (auto simp: map_next_def map_next_setting_def dest!: rmap_Inl split: sum.splits option.splits)

lemma map_port_panics: "map_port v = Inl e \<Longrightarrow> e = nil_deref"
  by (auto simp: map_port_def split: option.splits)

lemma map_microservice_panics: "map_microservice v = Inl e \<Longrightarrow> e = nil_deref"
  by (auto simp: map_microservice_def dest!: rmap_vals_Inl rmap_Inl intro: map_next_panics map_port_panics
      split: option.splits sum.splits)

lemma mapTo_panics: "mapToGRPCAionSetting y = Inl e \<Longrightarrow> e = nil_deref"
  by (auto simp: mapToGRPCAionSetting_def map_device_def dest!: rmap_vals_Inl
      intro: map_microservice_panics split: option.splits sum.splits)

lemma map_next_setting_no_nil: "map_next_setting e = Inr s \<Longrightarrow> s \<noteq> None"
  by (auto simp: map_next_setting_def split: option.splits)

lemma map_microservice_no_nil: "map_microservice v = Inr w \<Longrightarrow> ms_no_nil w"
proof -
  assume ok: "map_microservice v = Inr w"
  then obtain y ns where "v = Some y"
    and ns: "rmap_vals map_next (case ym_NextService y of None \<Rightarrow> [] | Some ns \<Rightarrow> ns) = Inr ns"
    and w: "\<exists>m. w = Some m \<and> ms_NextService m = Some ns"
    by (auto simp: map_microservice_def split: option.splits sum.splits)
  have "next_no_nil nx" if "(k, nx) \<in> set ns" for k nx
  proof -
    from rmap_vals_all [OF ns that] obtain u where "map_next u = Inr nx" by auto
    then obtain ss where nx: "nx = Some \<lparr>nx_Settings = ss\<rparr>" and ss: "rmap map_next_setting u = Inr ss"
      by (auto simp: map_next_def split: sum.splits)
    from rmap_all [OF ss] have "\<forall>s \<in> set ss. s \<noteq> None"
      by (blast dest: map_next_setting_no_nil)
    then show ?thesis by (simp add: nx next_no_nil_def)
  qed
  with w show ?thesis by (auto simp: ms_no_nil_def)
qed

lemma map_device_no_nil: "map_device v = Inr d \<Longrightarrow> d \<noteq> None"
  by (auto simp: map_device_def split: option.splits)

lemma mapTo_no_nil:
  assumes "mapToGRPCAionSetting y = Inr a"
  shows "no_nil a"
proof -
  from assms have ds: "rmap_vals map_device (ya_Devices y) = Inr (as_Devices a)"
    and ms: "rmap_vals map_microservice (ya_Microservices y) = Inr (as_Microservices a)"
    by (auto simp: mapToGRPCAionSetting_def split: sum.splits)
  have "d \<noteq> None" if "(k, d) \<in> set (as_Devices a)" for k d
    using rmap_vals_all [OF ds that] by (auto dest: map_device_no_nil)
  moreover have "ms_no_nil m" if "(k, m) \<in> set (as_Microservices a)" for k m
    using rmap_vals_all [OF ms that] by (auto intro: map_microservice_no_nil)
  ultimately show ?thesis by (auto simp: no_nil_def)
qed

text \<open>
  Loading services.yml never reports \<open>yaml format is wrong\<close>: an empty entry of the file
  is a nil pointer that the translation dereferences before the check for it is reached, so
  the loader panics there; any other outcome is an error of reading or parsing, or a setting
  with every default filled in.
\<close>

theorem yaml_load_outcomes:
  "case LoadConfigFromDirectory read_file unmarshal path of
      Inr a \<Rightarrow> wf_setting a
    | Inl e \<Rightarrow> read_file path = Inl e \<or>
        (\<exists>b. read_file path = Inr b \<and>
           (unmarshal b = Inl e \<or>
            e = nil_deref \<and> (\<exists>y. unmarshal b = Inr y \<and> mapToGRPCAionSetting y = Inl nil_deref)))"
proof (cases "LoadConfigFromFile read_file unmarshal path")
  case (Inl e)
  then show ?thesis
    by (auto simp: LoadConfigFromDirectory_def LoadConfigFromFile_def dest: mapTo_panics split: sum.splits)
next
  case (Inr a)
  then have "no_nil a"
    by (auto simp: LoadConfigFromFile_def intro: mapTo_no_nil split: sum.splits)
  with Inr show ?thesis
    using set_init_wf [of a] by (simp add: LoadConfigFromDirectory_def set_init_ok)
qed

end
