(* ===== verification/Kanban.thy ===== *)
theory Kanban
  imports Proto
begin

text \<open>
  The kanban streams (internal/kanban) over the Redis client wrapper (pkg/my_redis): the
  names of the streams, and writing, watching and deleting kanbans. The go-redis client and
  the server behind it, and the jsonpb codec, are parameters.
\<close>

section \<open>The Redis client wrapper\<close>

record XMessage =
  xm_ID :: string
  xm_Values :: "(string, iface) gomap option"

record XStream =
  xs_Stream :: string
  xs_Messages :: "XMessage list"

text \<open>The commands of the go-redis client over an abstract server state 'r.\<close>

record 'r redis_api =
  r_XRead :: "string list \<Rightarrow> int \<Rightarrow> int \<Rightarrow> 'r \<Rightarrow> XStream list result \<times> 'r"
  r_XAdd :: "string \<Rightarrow> int \<Rightarrow> (string, iface) gomap \<Rightarrow> 'r \<Rightarrow> string result \<times> 'r"
  r_FlushAll :: "'r \<Rightarrow> string result \<times> 'r"
  r_XDel :: "string \<Rightarrow> string list \<Rightarrow> 'r \<Rightarrow> int result \<times> 'r"
  r_HGetAll :: "string \<Rightarrow> 'r \<Rightarrow> (string, string) gomap result \<times> 'r"
  r_HSet :: "string \<Rightarrow> (string, iface) gomap \<Rightarrow> 'r \<Rightarrow> int result \<times> 'r"
  r_Del :: "string list \<Rightarrow> 'r \<Rightarrow> int result \<times> 'r"

definition drop_value :: "'a result \<times> 'r \<Rightarrow> go_error option \<times> 'r" where
  "drop_value p = (case p of (Inl e, r) \<Rightarrow> (Some e, r) | (Inr _, r) \<Rightarrow> (None, r))"

lemma drop_value_simps [simp]:
  "drop_value (Inl e, r) = (Some e, r)" "drop_value (Inr x, r) = (None, r)"
  by (simp_all add: drop_value_def)

definition XRead :: "'r redis_api \<Rightarrow> string list \<Rightarrow> string list \<Rightarrow> int \<Rightarrow> int \<Rightarrow> 'r \<Rightarrow> XStream list result \<times> 'r" where
  "XRead api streamKeys ids count block r = r_XRead api (streamKeys @ ids) count block r"

definition XReadOne :: "'r redis_api \<Rightarrow> string list \<Rightarrow> string list \<Rightarrow> int \<Rightarrow> int \<Rightarrow> 'r \<Rightarrow>
    ((string, iface) gomap option \<times> string) result \<times> 'r" where
  "XReadOne api streamKeys ids count block r =
     (case r_XRead api (streamKeys @ ids) count block r of
        (Inl e, r') \<Rightarrow> (Inl (Error (''cant read by stream: '' @ err_text e)), r')
      | (Inr [], r') \<Rightarrow> (Inl (Error ''stream length is zero: <nil>''), r')
      | (Inr (s # _), r') \<Rightarrow>
          (case xs_Messages s of
             [] \<Rightarrow> (Inl (Error ''message length is zero: <nil>''), r')
           | m # _ \<Rightarrow> (Inr (xm_Values m, xm_ID m), r')))"

definition max_len :: int where "max_len = 50"

definition XAdd :: "'r redis_api \<Rightarrow> string \<Rightarrow> (string, iface) gomap \<Rightarrow> 'r \<Rightarrow> go_error option \<times> 'r" where
  "XAdd api streamKey value r = drop_value (r_XAdd api streamKey max_len value r)"

definition FlushAll :: "'r redis_api \<Rightarrow> 'r \<Rightarrow> go_error option \<times> 'r" where
  "FlushAll api r = drop_value (r_FlushAll api r)"

definition XDel :: "'r redis_api \<Rightarrow> string \<Rightarrow> string list \<Rightarrow> 'r \<Rightarrow> go_error option \<times> 'r" where
  "XDel api streamKey ids r = drop_value (r_XDel api streamKey ids r)"

definition HGet :: "'r redis_api \<Rightarrow> string \<Rightarrow> 'r \<Rightarrow> (string, string) gomap result \<times> 'r" where
  "HGet api key r = r_HGetAll api key r"

definition HSet :: "'r redis_api \<Rightarrow> string \<Rightarrow> (string, iface) gomap \<Rightarrow> 'r \<Rightarrow> int result \<times> 'r" where
  "HSet api key value r = r_HSet api key value r"

definition Delete :: "'r redis_api \<Rightarrow> string list \<Rightarrow> 'r \<Rightarrow> int result \<times> 'r" where
  "Delete api ks r = r_Del api ks r"

section \<open>Stream keys\<close>

datatype StatusType = StatusType_Before | StatusType_After | StatusType_Static

definition GetBeforeStreamKey :: "string \<Rightarrow> int \<Rightarrow> string" where
  "GetBeforeStreamKey msName number = join '':'' [''kanban'', ''before'', msName, pad0 3 number]"

definition GetAfterStreamKey :: "string \<Rightarrow> int \<Rightarrow> string" where
  "GetAfterStreamKey msName number = join '':'' [''kanban'', ''after'', msName, pad0 3 number]"

definition GetStaticStreamKey :: "string \<Rightarrow> string" where
  "GetStaticStreamKey topic = join '':'' [''kanban'', ''static'', topic]"

fun GetStreamKeyByStatusType :: "string \<Rightarrow> int \<Rightarrow> StatusType \<Rightarrow> string" where
  "GetStreamKeyByStatusType msName msNumber StatusType_Before = GetBeforeStreamKey msName msNumber"
| "GetStreamKeyByStatusType msName msNumber StatusType_After = GetAfterStreamKey msName msNumber"
| "GetStreamKeyByStatusType msName msNumber _ = ''''"

text \<open>
  The interface between the components that name streams and those that watch them: for the
  kinds of stream a component watches, the name determines kind, microservice and number.
\<close>

locale stream_naming =
  fixes key :: "string \<Rightarrow> int \<Rightarrow> StatusType \<Rightarrow> string"
    and watched :: "StatusType set"
  assumes key_inj: "t \<in> watched \<Longrightarrow> u \<in> watched \<Longrightarrow>
      key m i t = key n j u \<longleftrightarrow> m = n \<and> i = j \<and> t = u"
begin

lemma distinct_keys:
  "distinct ws \<Longrightarrow> (\<And>m i t. (m, i, t) \<in> set ws \<Longrightarrow> t \<in> watched) \<Longrightarrow>
   distinct (map (\<lambda>(m, i, t). key m i t) ws)"
  by (induction ws) (fastforce simp: key_inj)+

lemma same_key_same_watch:
  "t \<in> watched \<Longrightarrow> u \<in> watched \<Longrightarrow> key m i t = key n j u \<Longrightarrow> (m, i, t) = (n, j, u)"
  by (simp add: key_inj)

end

lemma key_tail_inj:
  assumes "m @ CHR '':'' # pad0 3 i = n @ CHR '':'' # pad0 3 j"
  shows "m = n \<and> i = j"
proof -
  have "last (split_on (CHR '':'') (m @ CHR '':'' # pad0 3 i)) = pad0 3 i"
    "last (split_on (CHR '':'') (n @ CHR '':'' # pad0 3 j)) = pad0 3 j"
    by (simp_all add: last_split_append)
  with assms have "pad0 3 i = pad0 3 j" by simp
  with assms show ?thesis by (simp add: pad0_inj)
qed

interpretation kanban_keys: stream_naming GetStreamKeyByStatusType "{StatusType_Before, StatusType_After}"
  by unfold_locales
    (auto simp: GetBeforeStreamKey_def GetAfterStreamKey_def dest: key_tail_inj)

lemma static_key_apart:
  "GetStaticStreamKey topic \<noteq> GetStreamKeyByStatusType m i t"
  by (cases t) (auto simp: GetStaticStreamKey_def GetBeforeStreamKey_def GetAfterStreamKey_def)

section \<open>The Redis adapter\<close>

record json_codec =
  jc_marshal :: "StatusKanban option \<Rightarrow> string result"
  jc_unmarshal :: "string \<Rightarrow> StatusKanban result"

record AdaptorKanban =
  ak_ID :: string
  ak_Kanban :: "StatusKanban option"

definition initPrevID :: string where "initPrevID = ''0''"

definition unmarshalKanban :: "json_codec \<Rightarrow> (string, iface) gomap option \<Rightarrow> StatusKanban option result" where
  "unmarshalKanban jc hash =
     (case hash of None \<Rightarrow> Inr None
      | Some h \<Rightarrow>
        (case as_string (map_of h ''kanban'') of
           None \<Rightarrow> Inl (Error ''kanban is not string'')
         | Some str \<Rightarrow>
            (case jc_unmarshal jc str of
               Inl e \<Rightarrow> Inl (Error (''cant unmarshal kanban yaml: '' @ err_text e))
             | Inr k \<Rightarrow> Inr (Some k))))"

definition WriteKanban :: "'r redis_api \<Rightarrow> json_codec \<Rightarrow> string \<Rightarrow> StatusKanban option \<Rightarrow> 'r \<Rightarrow> go_error option \<times> 'r" where
  "WriteKanban api jc streamKey kanban r =
     (case jc_marshal jc kanban of
        Inl e \<Rightarrow> (Some (Error (''[write kanban] cant marshal kanban, '' @ err_text e)), r)
      | Inr kanbanJson \<Rightarrow>
         (case XAdd api streamKey [(''kanban'', IString kanbanJson)] r of
            (Some e, r') \<Rightarrow> (Some (Error (''[write kanban] cant write kanban to redis, '' @ err_text e)), r')
          | (None, r') \<Rightarrow> (None, r')))"

definition DeleteKanban :: "'r redis_api \<Rightarrow> string \<Rightarrow> string \<Rightarrow> 'r \<Rightarrow> go_error option \<times> 'r" where
  "DeleteKanban api streamKey i r = XDel api streamKey [i] r"

text \<open>
  One iteration of \<open>WatchKanban\<close> with a live context: the loop returns when the read fails,
  goes on with the next identifier when the entry cannot be decoded, and otherwise sends the
  kanban to the channel. A failed removal of the previous entry is only logged.
\<close>

datatype watch_out = Stop | Skip string | Deliver AdaptorKanban

definition watch_iter :: "'r redis_api \<Rightarrow> json_codec \<Rightarrow> string \<Rightarrow> bool \<Rightarrow> string \<Rightarrow> 'r \<Rightarrow> watch_out \<times> 'r" where
  "watch_iter api jc streamKey deleteOldKanban prevID r =
     (case XReadOne api [streamKey] [prevID] 1 0 r of
        (Inl e, r') \<Rightarrow> (Stop, r')
      | (Inr (hash, nextID), r') \<Rightarrow>
         (let r'' = (if deleteOldKanban then snd (XDel api streamKey [prevID] r') else r') in
          (case unmarshalKanban jc hash of
             Inl e \<Rightarrow> (Skip nextID, r'')
           | Inr k \<Rightarrow> (Deliver \<lparr>ak_ID = nextID, ak_Kanban = k\<rparr>, r''))))"

text \<open>
  The loop, for as many iterations as the list says; each element tells whether the context
  is done when the iteration starts. The result is what was sent to the channel, whether the
  loop returned (and so closed the channel), and the server.
\<close>

fun WatchKanban :: "'r redis_api \<Rightarrow> json_codec \<Rightarrow> string \<Rightarrow> bool \<Rightarrow> bool list \<Rightarrow> string \<Rightarrow> 'r \<Rightarrow>
    AdaptorKanban list \<times> bool \<times> 'r" where
  "WatchKanban api jc key del_old [] prevID r = ([], False, r)"
| "WatchKanban api jc key del_old (ctx_done # ds) prevID r =
     (if ctx_done then ([], True, r)
      else (case watch_iter api jc key del_old prevID r of
          (Stop, r') \<Rightarrow> ([], True, r')
        | (Skip nextID, r') \<Rightarrow> WatchKanban api jc key del_old ds nextID r'
        | (Deliver k, r') \<Rightarrow>
            (case WatchKanban api jc key del_old ds (ak_ID k) r' of
               (ks, closed, r'') \<Rightarrow> (k # ks, closed, r''))))"


section \<open>What the adapter relies on\<close>

definition last_n :: "nat \<Rightarrow> 'a list \<Rightarrow> 'a list" where
  "last_n n xs = drop (length xs - n) xs"

lemma last_n_all: "length xs \<le> n \<Longrightarrow> last_n n xs = xs"
  by (simp add: last_n_def)

lemma last_n_snoc: "0 < n \<Longrightarrow> last_n n (last_n n xs @ [x]) = last_n n (xs @ [x])"
  by (cases "n \<le> length xs") (simp_all add: last_n_def Suc_diff_le)

lemma length_last_n [simp]: "length (last_n n xs) = min n (length xs)"
  by (auto simp: last_n_def)

lemma map_last_n: "map f (last_n n xs) = last_n n (map f xs)"
  by (simp add: last_n_def drop_map)

lemma snd_drop_value [simp]: "snd (drop_value p) = snd p"
  by (auto simp: drop_value_def split: prod.splits sum.splits)

lemma sorted_after:
  assumes "irreflp lt" "transp lt" "sorted_wrt lt (map fst (pre @ (j, v) # post))"
  shows "filter (\<lambda>e. lt j (fst e)) (pre @ (j, v) # post) = post"
proof -
  from assms(3) have pre: "\<And>e. e \<in> set pre \<Longrightarrow> lt (fst e) j" and post: "\<And>e. e \<in> set post \<Longrightarrow> lt j (fst e)"
    by (auto simp: sorted_wrt_append)
  have "\<not> lt j j" using assms(1) by (auto dest: irreflpD)
  with pre assms(2) have "\<And>e. e \<in> set pre \<Longrightarrow> \<not> lt j (fst e)" by (meson transpD)
  with post \<open>\<not> lt j j\<close> show ?thesis by (simp add: filter_False filter_True)
qed

definition decodes :: "json_codec \<Rightarrow> string \<times> (string, iface) gomap \<Rightarrow> StatusKanban \<Rightarrow> bool" where
  "decodes jc e k \<longleftrightarrow> unmarshalKanban jc (Some (snd e)) = Inr (Some k)"

definition codec_roundtrip :: "json_codec \<Rightarrow> StatusKanban \<Rightarrow> bool" where
  "codec_roundtrip jc k \<longleftrightarrow> (\<exists>s. jc_marshal jc (Some k) = Inr s \<and> jc_unmarshal jc s = Inr k)"

definition write_all :: "'r redis_api \<Rightarrow> json_codec \<Rightarrow> string \<Rightarrow> StatusKanban list \<Rightarrow> 'r \<Rightarrow> 'r" where
  "write_all api jc key ks r = foldl (\<lambda>r k. snd (WriteKanban api jc key (Some k) r)) r ks"

lemma list_all2_last_n: "list_all2 P xs ys \<Longrightarrow> list_all2 P (last_n n xs) (last_n n ys)"
  by (simp add: last_n_def list_all2_lengthD list_all2_dropI)

text \<open>
  The documented behaviour of Redis streams, for a server that is up: the entries of a
  stream are ordered by their identifiers, all after \<open>0\<close>; XREAD with a count of one returns
  the first entry after the given identifier when there is one; XADD appends an entry and
  trims the stream to the given length; XDEL removes the entries with the given identifiers;
  no command touches another stream. \<open>ent\<close> reads the entries of a stream off the server
  state and \<open>lt\<close> is the order of identifiers.
\<close>

locale redis_streams =
  fixes api :: "'r redis_api" and ent :: "'r \<Rightarrow> string \<Rightarrow> (string \<times> (string, iface) gomap) list"
    and lt :: "string \<Rightarrow> string \<Rightarrow> bool"
  assumes lt_trans: "transp lt" and lt_irrefl: "irreflp lt"
    and ent_sorted: "sorted_wrt lt (''0'' # map fst (ent r key))"
    and xread: "filter (\<lambda>e. lt i (fst e)) (ent r key) = (j, v) # es \<Longrightarrow>
      r_XRead api [key, i] 1 0 r = (Inr [\<lparr>xs_Stream = key, xs_Messages = [\<lparr>xm_ID = j, xm_Values = Some v\<rparr>]\<rparr>], r)"
    and xadd: "\<exists>i r'. r_XAdd api key n v r = (Inr i, r') \<and>
      (\<forall>k. ent r' k = (if k = key then last_n (nat n) (ent r key @ [(i, v)]) else ent r k))"
    and xdel: "ent (snd (r_XDel api key is r)) k =
      (if k = key then filter (\<lambda>e. fst e \<notin> set is) (ent r k) else ent r k)"
begin

text \<open>A read of the next entry, seen from one iteration of the watcher.\<close>

lemma watch_iter_entry:
  assumes nxt: "filter (\<lambda>e. lt prev (fst e)) (ent r key) = (j, v) # es"
  shows "watch_iter api jc key d prev r =
     ((case unmarshalKanban jc (Some v) of Inl e \<Rightarrow> Skip j | Inr k \<Rightarrow> Deliver \<lparr>ak_ID = j, ak_Kanban = k\<rparr>),
      if d then snd (XDel api key [prev] r) else r)"
  using xread [OF nxt]
  by (simp add: watch_iter_def XReadOne_def Let_def split: sum.splits)

lemma XDel_entries:
  "ent (snd (XDel api key [i] r)) k = (if k = key then filter (\<lambda>e. fst e \<noteq> i) (ent r k) else ent r k)"
  using xdel [of key "[i]" r k] by (simp add: XDel_def)

text \<open>
  The watcher, started anywhere, on a stream no one else writes: it sends the entries after
  its identifier one by one, in order.
\<close>

lemma watch_from:
  "ent r key = pre @ post \<Longrightarrow> filter (\<lambda>e. lt prev (fst e)) (ent r key) = post \<Longrightarrow>
    (\<And>e. e \<in> set pre \<Longrightarrow> d \<Longrightarrow> fst e = prev) \<Longrightarrow> (d \<Longrightarrow> prev \<notin> fst ` set post) \<Longrightarrow>
    list_all2 (decodes jc) post ks \<Longrightarrow> n \<le> length post \<Longrightarrow>
    \<exists>r'. WatchKanban api jc key d (replicate n False) prev r =
      (map (\<lambda>(e, k). \<lparr>ak_ID = fst e, ak_Kanban = Some k\<rparr>) (zip (take n post) ks), False, r') \<and>
      ent r' key = (if d \<and> 0 < n then drop (n - 1) post else ent r key) \<and>
      (\<forall>k. k \<noteq> key \<longrightarrow> ent r' k = ent r k)"
proof (induction n arbitrary: r pre post prev ks)
  case 0
  then show ?case by simp
next
  case (Suc n)
  from Suc.prems(6) obtain j v post' where post: "post = (j, v) # post'"
    by (cases post) auto
  with Suc.prems(5) obtain k ks' where ks: "ks = k # ks'"
    and dc: "decodes jc (j, v) k" and rest: "list_all2 (decodes jc) post' ks'"
    by (auto simp: list_all2_Cons1)
  from dc have dec: "unmarshalKanban jc (Some v) = Inr (Some k)" by (simp add: decodes_def)
  let ?r = "if d then snd (XDel api key [prev] r) else r"
  have iter: "watch_iter api jc key d prev r = (Deliver \<lparr>ak_ID = j, ak_Kanban = Some k\<rparr>, ?r)"
    using watch_iter_entry Suc.prems(2) post dec by simp
  let ?pre = "if d then [(j, v)] else pre @ [(j, v)]"
  have ent: "ent ?r key = ?pre @ post'"
  proof (cases d)
    case True
    then have "filter (\<lambda>e. fst e \<noteq> prev) pre = []" "filter (\<lambda>e. fst e \<noteq> prev) post = post"
      using Suc.prems(3,4) by (auto simp: filter_empty_conv filter_id_conv)
    with True Suc.prems(1) post show ?thesis by (simp add: XDel_entries)
  next
    case False
    with Suc.prems(1) post show ?thesis by simp
  qed
  have srt: "sorted_wrt lt (map fst (ent ?r key))"
    using ent_sorted [of ?r key] by simp
  have aft: "filter (\<lambda>e. lt j (fst e)) (ent ?r key) = post'"
  proof -
    obtain p where "ent ?r key = p @ (j, v) # post'" using ent by (cases d) auto
    with srt sorted_after [OF lt_irrefl lt_trans] show ?thesis by metis
  qed
  have frame: "\<And>k. k \<noteq> key \<Longrightarrow> ent ?r k = ent r k"
    by (simp add: XDel_entries)
  have "j \<notin> fst ` set post'"
  proof
    assume "j \<in> fst ` set post'"
    then obtain w where "(j, w) \<in> set post'" by auto
    then have "(j, w) \<in> set (filter (\<lambda>e. lt j (fst e)) (ent ?r key))" by (simp only: aft)
    then have "lt j j" by simp
    then show False using lt_irrefl by (auto dest: irreflpD)
  qed
  with Suc.IH [OF ent aft _ _ rest] Suc.prems(6) post
  obtain r' where r': "WatchKanban api jc key d (replicate n False) j ?r =
      (map (\<lambda>(e, k). \<lparr>ak_ID = fst e, ak_Kanban = Some k\<rparr>) (zip (take n post') ks'), False, r')"
    "ent r' key = (if d \<and> 0 < n then drop (n - 1) post' else ent ?r key)"
    "\<forall>k. k \<noteq> key \<longrightarrow> ent r' k = ent ?r k"
    by (auto split: if_splits)
  have "drop n post = (if 0 < n then drop (n - 1) post' else (j, v) # post')"
    by (simp add: post drop_Cons')
  with r' ent frame Suc.prems(1) iter show ?case
    by (auto simp: post ks)
qed

lemma watch_prefix:
  assumes "list_all2 (decodes jc) (ent r key) ks"
    and "n \<le> length (ent r key)"
  shows "\<exists>r'. WatchKanban api jc key d (replicate n False) initPrevID r =
      (map (\<lambda>(e, k). \<lparr>ak_ID = fst e, ak_Kanban = Some k\<rparr>) (zip (take n (ent r key)) ks), False, r') \<and>
      ent r' key = (if d \<and> 0 < n then drop (n - 1) (ent r key) else ent r key) \<and>
      (\<forall>j. j \<noteq> key \<longrightarrow> ent r' j = ent r j)"
proof -
  have srt: "sorted_wrt lt (initPrevID # map fst (ent r key))"
    using ent_sorted [of r key] by (simp add: initPrevID_def)
  then have all: "filter (\<lambda>e. lt initPrevID (fst e)) (ent r key) = ent r key"
    by (simp add: filter_id_conv)
  have "initPrevID \<notin> fst ` set (ent r key)"
    using srt irreflpD [OF lt_irrefl, of initPrevID] by auto
  with watch_from [of r key "[]" "ent r key" initPrevID d jc ks n] all assms
  show ?thesis by simp
qed

lemma WriteKanban_entries:
  assumes rt: "codec_roundtrip jc k"
  obtains e r' where "WriteKanban api jc key (Some k) r = (None, r')" "decodes jc e k"
    "ent r' key = last_n 50 (ent r key @ [e])" "\<And>j. j \<noteq> key \<Longrightarrow> ent r' j = ent r j"
proof -
  from rt obtain s where s: "jc_marshal jc (Some k) = Inr s" "jc_unmarshal jc s = Inr k"
    by (auto simp: codec_roundtrip_def)
  let ?v = "[(''kanban'', IString s)]"
  from xadd [of key max_len ?v r] obtain i r' where
    add: "r_XAdd api key max_len ?v r = (Inr i, r')"
    and ent: "\<forall>j. ent r' j = (if j = key then last_n (nat max_len) (ent r key @ [(i, ?v)]) else ent r j)"
    by blast
  show ?thesis
  proof (rule that)
    show "WriteKanban api jc key (Some k) r = (None, r')"
      by (simp add: WriteKanban_def XAdd_def s add)
    show "decodes jc (i, ?v) k"
      by (simp add: decodes_def unmarshalKanban_def s)
  qed (use ent in \<open>simp_all add: max_len_def\<close>)
qed

lemma write_all_entries:
  assumes "ent r key = []"
  shows "\<forall>k \<in> set ks. codec_roundtrip jc k \<Longrightarrow>
    \<exists>es. list_all2 (decodes jc) es ks \<and> ent (write_all api jc key ks r) key = last_n 50 es"
proof (induction ks rule: rev_induct)
  case Nil
  with assms show ?case by (simp add: write_all_def last_n_def)
next
  case (snoc k ks)
  then obtain es where es: "list_all2 (decodes jc) es ks"
    "ent (write_all api jc key ks r) key = last_n 50 es" by auto
  from snoc.prems have "codec_roundtrip jc k" by simp
  from WriteKanban_entries [OF this, of key "write_all api jc key ks r"]
  obtain e r' where w: "WriteKanban api jc key (Some k) (write_all api jc key ks r) = (None, r')"
    "decodes jc e k" "ent r' key = last_n 50 (ent (write_all api jc key ks r) key @ [e])"
    by metis
  have "ent (write_all api jc key (ks @ [k]) r) key = last_n 50 (es @ [e])"
    using w es(2) by (simp add: write_all_def last_n_snoc)
  moreover have "list_all2 (decodes jc) (es @ [e]) (ks @ [k])"
    using es(1) w(2) by (simp add: list_all2_appendI)
  ultimately show ?case by blast
qed

end

section \<open>A server for the examples\<close>

text \<open>
  A server state that satisfies \<open>redis_streams\<close>: a list of entries per stream, read as
  empty when its identifiers are not in order; an identifier is longer than those before it.
\<close>

type_synonym ref_redis = "string \<Rightarrow> (string \<times> (string, iface) gomap) list"

definition shorter :: "string \<Rightarrow> string \<Rightarrow> bool" where
  "shorter a b \<longleftrightarrow> length a < length b"

definition ref_ent :: "ref_redis \<Rightarrow> string \<Rightarrow> (string \<times> (string, iface) gomap) list" where
  "ref_ent r key = (if sorted_wrt shorter (''0'' # map fst (r key)) then r key else [])"

definition ref_id :: "(string \<times> (string, iface) gomap) list \<Rightarrow> string" where
  "ref_id es = CHR ''1'' # (if es = [] then ''0'' else fst (last es))"

fun ref_xread :: "string list \<Rightarrow> int \<Rightarrow> int \<Rightarrow> ref_redis \<Rightarrow> XStream list result \<times> ref_redis" where
  "ref_xread [key, i] c b r =
     (case filter (\<lambda>e. shorter i (fst e)) (ref_ent r key) of
        [] \<Rightarrow> (Inl (Error ''timeout''), r)
      | (j, v) # _ \<Rightarrow> (Inr [\<lparr>xs_Stream = key, xs_Messages = [\<lparr>xm_ID = j, xm_Values = Some v\<rparr>]\<rparr>], r))"
| "ref_xread _ c b r = (Inl (Error ''wrong number of arguments''), r)"

definition ref_api :: "ref_redis redis_api" where
  "ref_api = \<lparr>r_XRead = ref_xread,
     r_XAdd = (\<lambda>key n v r. (Inr (ref_id (ref_ent r key)),
        r(key := last_n (nat n) (ref_ent r key @ [(ref_id (ref_ent r key), v)])))),
     r_FlushAll = (\<lambda>r. (Inr ''OK'', \<lambda>_. [])),
     r_XDel = (\<lambda>key is r. (Inr 0, r(key := filter (\<lambda>e. fst e \<notin> set is) (ref_ent r key)))),
     r_HGetAll = (\<lambda>key r. (Inr [], r)), r_HSet = (\<lambda>key v r. (Inr 0, r)), r_Del = (\<lambda>ks r. (Inr 0, r))\<rparr>"

lemma ref_ent_sorted: "sorted_wrt shorter (''0'' # map fst (ref_ent r key))"
  by (simp add: ref_ent_def)

lemma ref_ent_idem: "sorted_wrt shorter (''0'' # map fst es) \<Longrightarrow> ref_ent (r(key := es)) key = es"
  by (simp add: ref_ent_def)

lemma ref_ent_other: "k \<noteq> key \<Longrightarrow> ref_ent (r(key := es)) k = ref_ent r k"
  by (simp add: ref_ent_def)

lemma ref_id_sorted:
  assumes "sorted_wrt shorter (''0'' # map fst es)"
  shows "sorted_wrt shorter (''0'' # map fst (es @ [(ref_id es, v)]))"
proof -
  have "shorter (fst e) (ref_id es)" if "e \<in> set es" for e
  proof -
    from that assms have "e = last es \<or> shorter (fst e) (fst (last es))"
      by (cases es rule: rev_cases) (auto simp: sorted_wrt_append)
    with that show ?thesis by (auto simp: shorter_def ref_id_def)
  qed
  moreover have "shorter ''0'' (ref_id es)"
    using assms by (cases es rule: rev_cases) (auto simp: shorter_def ref_id_def sorted_wrt_append)
  ultimately show ?thesis
    using assms by (auto simp: sorted_wrt_append)
qed

lemma sorted_wrt_Cons_drop: "sorted_wrt R (x # ys) \<Longrightarrow> sorted_wrt R (x # drop n ys)"
  by (auto dest: in_set_dropD intro: sorted_wrt_drop)

lemma ref_redis_streams: "redis_streams ref_api ref_ent shorter"
proof -
  have srt: "sorted_wrt shorter (''0'' # map fst (last_n n (ref_ent r key @ [(ref_id (ref_ent r key), v)])))"
    for n r key v
    unfolding last_n_def drop_map [symmetric]
    by (intro sorted_wrt_Cons_drop ref_id_sorted ref_ent_sorted)
  have flt: "sorted_wrt shorter (''0'' # map fst (filter P (ref_ent r key)))" for P r key
    using ref_ent_sorted [of r key] by (auto simp: sorted_wrt_map intro: sorted_wrt_filter)
  have "transp shorter" "irreflp shorter"
    by (auto simp: transp_def irreflp_def shorter_def)
  then show ?thesis
    unfolding redis_streams_def
    by (intro conjI allI impI)
      (simp_all add: ref_api_def ref_ent_sorted [simplified]
        ref_ent_other ref_ent_idem [OF srt] ref_ent_idem [OF flt])
qed

interpretation ref_server: redis_streams ref_api ref_ent shorter
  by (rule ref_redis_streams)


section \<open>Properties\<close>

text \<open>
  C29. The name of a watched stream determines whether it is a before or an after stream, the
  microservice and the number, whatever the microservice is called; no static topic shares a
  name with such a stream, and distinct topics have distinct names.
\<close>

theorem stream_keys_unique:
  "(GetStreamKeyByStatusType m i t = GetStreamKeyByStatusType n j u \<longleftrightarrow>
      (t = StatusType_Static \<and> u = StatusType_Static) \<or> (m = n \<and> i = j \<and> t = u)) \<and>
   (GetStaticStreamKey a = GetStaticStreamKey b \<longleftrightarrow> a = b) \<and>
   GetStaticStreamKey a \<noteq> GetStreamKeyByStatusType m i t"
  using kanban_keys.key_inj [of t u m i n j] static_key_apart [of a m i t]
  by (cases t; cases u)
    (auto simp: GetStaticStreamKey_def GetBeforeStreamKey_def GetAfterStreamKey_def)

lemma zip_kanbans:
  assumes "length es = length ks"
  shows "map ak_Kanban (map (\<lambda>(e, k). \<lparr>ak_ID = fst e, ak_Kanban = Some k\<rparr>) (zip (take n es) ks)) = map Some (take n ks)"
  using assms by (induction es ks arbitrary: n rule: list_induct2) (auto simp: take_Cons split: nat.split)

lemma watch_done:
  "WatchKanban api jc key d (replicate n False) prev r = (out, False, r') \<Longrightarrow>
   WatchKanban api jc key d (replicate n False @ True # rest) prev r = (out, True, r')"
proof (induction n arbitrary: prev r out)
  case (Suc n)
  then show ?case by (auto split: watch_out.splits prod.splits)
qed simp

lemma split_turns: "True \<in> set ds \<Longrightarrow> \<exists>rest. ds = replicate (length (takeWhile Not ds)) False @ True # rest"
  by (induction ds) auto

definition ex_kanban :: StatusKanban where
  "ex_kanban = \<lparr>sk_StartAt = [], sk_FinishAt = [], sk_NextDeviceName = [], sk_ConnectionKey = ''default'',
     sk_ProcessNumber = 1, sk_PriorSuccess = True, sk_DataPath = [], sk_FileList = [], sk_Metadata = None\<rparr>"

definition ex_codec :: json_codec where
  "ex_codec = \<lparr>jc_marshal = (\<lambda>k. case k of None \<Rightarrow> Inl (Error ''nil'') | Some x \<Rightarrow> Inr (sk_ConnectionKey x)),
     jc_unmarshal = (\<lambda>s. Inr (ex_kanban\<lparr>sk_ConnectionKey := s\<rparr>))\<rparr>"

definition ex_redis :: ref_redis where
  "ex_redis = (\<lambda>_. [(''10'', [(''kanban'', IString ''x'')]), (''110'', [(''kanban'', IString ''y'')])])"

text \<open>
  On a stream that no one else writes, the watcher's first \<open>n\<close> iterations send exactly
  the first \<open>n\<close> entries, each once, in order and with the kanban that was stored; with the
  removal of old kanbans on, every entry but the last one sent has been removed by then, and
  without it the stream is as it was; other streams are not touched.
\<close>

theorem watch_sends_each_once:
  assumes "redis_streams api ent lt" and "list_all2 (decodes jc) (ent r key) ks"
    and "n \<le> length (ent r key)"
  shows "\<exists>r'. WatchKanban api jc key d (replicate n False) initPrevID r =
      (map (\<lambda>(e, k). \<lparr>ak_ID = fst e, ak_Kanban = Some k\<rparr>) (zip (take n (ent r key)) ks), False, r') \<and>
      ent r' key = (if d \<and> 0 < n then drop (n - 1) (ent r key) else ent r key) \<and>
      (\<forall>j. j \<noteq> key \<longrightarrow> ent r' j = ent r j)"
  using assms by (rule redis_streams.watch_prefix)

theorem watch_sends_each_once_witness:
  "WatchKanban ref_api ex_codec ''s'' True (replicate 2 False) initPrevID ex_redis =
     ([\<lparr>ak_ID = ''10'', ak_Kanban = Some (ex_kanban\<lparr>sk_ConnectionKey := ''x''\<rparr>)\<rparr>,
       \<lparr>ak_ID = ''110'', ak_Kanban = Some (ex_kanban\<lparr>sk_ConnectionKey := ''y''\<rparr>)\<rparr>], False,
      snd (snd (WatchKanban ref_api ex_codec ''s'' True (replicate 2 False) initPrevID ex_redis)))"
proof -
  have ent: "ref_ent ex_redis ''s'' = [(''10'', [(''kanban'', IString ''x'')]), (''110'', [(''kanban'', IString ''y'')])]"
    by (simp add: ref_ent_def ex_redis_def shorter_def)
  have dec: "list_all2 (decodes ex_codec) (ref_ent ex_redis ''s'')
      [ex_kanban\<lparr>sk_ConnectionKey := ''x''\<rparr>, ex_kanban\<lparr>sk_ConnectionKey := ''y''\<rparr>]"
    by (simp add: ent decodes_def unmarshalKanban_def ex_codec_def)
  have "2 \<le> length (ref_ent ex_redis ''s'')" by (simp add: ent)
  from watch_sends_each_once [where ent = ref_ent and lt = shorter, OF ref_redis_streams dec this, where d = True]
  show ?thesis
    by (auto simp: ent numeral_2_eq_2)
qed

text \<open>
  Kanbans written to an empty stream and then watched arrive in the order they were
  written, unchanged; but the stream keeps 50 entries, so a watcher that starts after more
  than 50 writes receives the last 50 only.
\<close>

theorem written_then_watched:
  assumes "redis_streams api ent lt" and "ent r key = []" and "\<forall>k \<in> set ks. codec_roundtrip jc k"
  shows "map ak_Kanban (fst (WatchKanban api jc key d (replicate (min 50 (length ks)) False) initPrevID
      (write_all api jc key ks r))) = map Some (last_n 50 ks)"
proof -
  let ?r = "write_all api jc key ks r"
  from redis_streams.write_all_entries [OF assms] obtain es where es: "list_all2 (decodes jc) es ks"
    "ent ?r key = last_n 50 es" by blast
  then have dec: "list_all2 (decodes jc) (ent ?r key) (last_n 50 ks)"
    by (simp add: list_all2_last_n)
  have len: "length es = length ks" using es(1) by (rule list_all2_lengthD)
  then have "min 50 (length ks) \<le> length (ent ?r key)" by (simp add: es(2))
  from redis_streams.watch_prefix [OF assms(1) dec this, where d = d]
  have "map ak_Kanban (fst (WatchKanban api jc key d (replicate (min 50 (length ks)) False) initPrevID ?r)) =
      map (\<lambda>(e, k). Some k) (zip (take (min 50 (length ks)) (ent ?r key)) (last_n 50 ks))"
    by (auto simp: comp_def split_def)
  also have "take (min 50 (length ks)) (ent ?r key) = ent ?r key"
    by (simp add: es(2) len)
  also have "map (\<lambda>(e, k). Some k) (zip (ent ?r key) (last_n 50 ks)) = map Some (map snd (zip (ent ?r key) (last_n 50 ks)))"
    by (simp add: split_def)
  also have "map snd (zip (ent ?r key) (last_n 50 ks)) = last_n 50 ks"
    by (rule map_snd_zip) (simp add: es(2) len)
  finally show ?thesis .
qed


theorem written_then_watched_witness:
  "map ak_Kanban (fst (WatchKanban ref_api ex_codec ''s'' False (replicate (min 50 (length [ex_kanban])) False) initPrevID
      (write_all ref_api ex_codec ''s'' [ex_kanban] (\<lambda>_. [])))) = map Some (last_n 50 [ex_kanban])"
proof -
  have e: "ref_ent (\<lambda>_. []) ''s'' = []" by (simp add: ref_ent_def)
  have "codec_roundtrip ex_codec ex_kanban"
    by (simp add: codec_roundtrip_def ex_codec_def ex_kanban_def)
  then have "\<forall>k \<in> set [ex_kanban]. codec_roundtrip ex_codec k" by simp
  from written_then_watched [where ent = ref_ent and lt = shorter, OF ref_redis_streams e this, where d = False]
  show ?thesis .
qed

text \<open>
  C22. Stopping the watcher: it returns, and closes its channel, at the first turn of its loop at
  which the context is done, and not before; by then it has sent exactly the kanbans of the
  turns before, one each, and nothing of the stream is lost by the stop.
\<close>

theorem watch_stops:
  assumes "redis_streams api ent lt" and "list_all2 (decodes jc) (ent r key) ks" and "length ds \<le> length ks"
  shows "\<exists>r'. WatchKanban api jc key False ds initPrevID r =
      (map (\<lambda>(e, k). \<lparr>ak_ID = fst e, ak_Kanban = Some k\<rparr>) (zip (take (length (takeWhile Not ds)) (ent r key)) ks),
       True \<in> set ds, r') \<and> ent r' key = ent r key"
proof -
  let ?n = "length (takeWhile Not ds)"
  have "?n \<le> length (ent r key)"
    using length_takeWhile_le [of Not ds] list_all2_lengthD [OF assms(2)] assms(3) by linarith
  from redis_streams.watch_prefix [OF assms(1,2) this, of False] obtain r' where w:
    "WatchKanban api jc key False (replicate ?n False) initPrevID r =
      (map (\<lambda>(e, k). \<lparr>ak_ID = fst e, ak_Kanban = Some k\<rparr>) (zip (take ?n (ent r key)) ks), False, r')"
    "ent r' key = ent r key" by (elim exE conjE) simp
  show ?thesis
  proof (cases "True \<in> set ds")
    case True
    from split_turns [OF True] obtain rest where ds: "replicate ?n False @ True # rest = ds" by metis
    from watch_done [OF w(1), of rest] show ?thesis
      unfolding ds using w(2) True by (intro exI [of _ r']) simp
  next
    case False
    then have ds: "replicate ?n False = ds" by (induction ds) auto
    from w(1) show ?thesis
      unfolding ds using w(2) False by (intro exI [of _ r']) simp
  qed
qed

theorem watch_stops_witness:
  "\<exists>r'. WatchKanban ref_api ex_codec ''s'' False [False, True] initPrevID ex_redis =
     ([\<lparr>ak_ID = ''10'', ak_Kanban = Some (ex_kanban\<lparr>sk_ConnectionKey := ''x''\<rparr>)\<rparr>], True, r')"
proof -
  have ent: "ref_ent ex_redis ''s'' = [(''10'', [(''kanban'', IString ''x'')]), (''110'', [(''kanban'', IString ''y'')])]"
    by (simp add: ref_ent_def ex_redis_def shorter_def)
  have dec: "list_all2 (decodes ex_codec) (ref_ent ex_redis ''s'')
      [ex_kanban\<lparr>sk_ConnectionKey := ''x''\<rparr>, ex_kanban\<lparr>sk_ConnectionKey := ''y''\<rparr>]"
    by (simp add: ent decodes_def unmarshalKanban_def ex_codec_def)
  let ?ks = "[ex_kanban\<lparr>sk_ConnectionKey := ''x''\<rparr>, ex_kanban\<lparr>sk_ConnectionKey := ''y''\<rparr>]"
  have "length [False, True] \<le> length ?ks" by simp
  from watch_stops [where ent = ref_ent and lt = shorter, OF ref_redis_streams dec this]
  obtain r' where w: "WatchKanban ref_api ex_codec ''s'' False [False, True] initPrevID ex_redis =
      (map (\<lambda>(e, k). \<lparr>ak_ID = fst e, ak_Kanban = Some k\<rparr>)
        (zip (take (length (takeWhile Not [False, True])) (ref_ent ex_redis ''s'')) ?ks), True \<in> set [False, True], r')"
    by blast
  show ?thesis unfolding w ent by simp
qed

definition out_id :: "watch_out \<Rightarrow> string" where
  "out_id out = (case out of Stop \<Rightarrow> [] | Skip i \<Rightarrow> i | Deliver k \<Rightarrow> ak_ID k)"

text \<open>
  Whatever happens on the server between the reads, as long as a read returns only
  entries after the identifier it is given, the identifiers the watcher sends are strictly
  increasing: no kanban is sent twice.
\<close>

theorem watch_ids_increase:
  assumes "transp lt"
    and "\<And>key i s r ss r' x m. r_XRead api [key, i] 1 0 s = (Inr ss, r') \<Longrightarrow> x \<in> set ss \<Longrightarrow>
      m \<in> set (xs_Messages x) \<Longrightarrow> lt i (xm_ID m)"
  shows "sorted_wrt lt (prev # map ak_ID (fst (WatchKanban api jc key d ds prev r)))"
proof (induction ds arbitrary: prev r)
  case Nil
  then show ?case by simp
next
  case (Cons b ds)
  have rd: "lt prev (xm_ID m)" if "r_XRead api [key, prev] 1 0 r = (Inr (x # xs), r2)" "xs_Messages x = m # ms"
    for x xs m ms r2
    using assms(2) [OF that(1), of x m] that(2) by simp
  have nxt: "lt prev (out_id out)" if "watch_iter api jc key d prev r = (out, r')" "out \<noteq> Stop" for out r'
    using that rd
    by (auto simp: watch_iter_def XReadOne_def Let_def out_id_def split: prod.splits sum.splits list.splits)
  have step: "sorted_wrt lt (prev # map ak_ID ks)" if "lt prev j" "sorted_wrt lt (j # map ak_ID ks)" for j ks
    using that assms(1) by (auto dest: transpD)
  obtain out r' where it: "watch_iter api jc key d prev r = (out, r')" by fastforce
  show ?case
  proof (cases out)
    case Stop
    with it show ?thesis by simp
  next
    case (Skip j)
    with nxt [OF it] have "lt prev j" by (simp add: out_id_def)
    from step [OF this Cons.IH] Skip it show ?thesis by simp
  next
    case (Deliver k)
    with nxt [OF it] have "lt prev (ak_ID k)" by (simp add: out_id_def)
    from step [OF this Cons.IH [of _ r']] this Deliver it Cons.IH [of "ak_ID k" r'] show ?thesis
      by (simp add: split_beta)
  qed
qed

theorem watch_ids_increase_witness:
  "sorted_wrt shorter (''0'' # map ak_ID (fst (WatchKanban ref_api ex_codec ''s'' False [False, False] ''0'' ex_redis)))"
proof (rule watch_ids_increase)
  show "transp shorter" by (auto simp: transp_def shorter_def)
  show "shorter i (xm_ID m)" if "r_XRead ref_api [key, i] 1 0 s = (Inr ss, r')" "x \<in> set ss"
    "m \<in> set (xs_Messages x)" for key i s ss r' x m
  proof (cases "filter (\<lambda>e. shorter i (fst e)) (ref_ent s key)")
    case Nil
    with that show ?thesis by (simp add: ref_api_def)
  next
    case (Cons e es)
    have "e \<in> set (filter (\<lambda>e. shorter i (fst e)) (ref_ent s key))" by (simp add: Cons)
    then have "shorter i (fst e)" by (simp only: set_filter mem_Collect_eq)
    with that Cons show ?thesis by (cases e) (auto simp: ref_api_def)
  qed
qed

end
