(* ===== verification/Watcher.thy ===== *)
theory Watcher
  imports Config Kanban
begin

text \<open>
  The routing of kanbans: the watcher of the service broker
  (cmd/service-broker/app/watcher.go), which takes what a microservice has written and hands
  it to the next microservices, and the device controller (internal/devices), which carries
  kanbans for other devices to and from the send-anything server. Channels are lists of what
  has been sent to them. A kanban that is queued for another device is a pointer to an object
  that the routing loop may still change.
\<close>

section \<open>Devices\<close>

text \<open>
  A kanban that was read from a stream is an object that the routing loop changes and that a
  message for another device points to: \<open>qd_AfterKanban\<close> is the number of the object. The message
  takes its kanban when it is marshalled.
\<close>

record queued_kanban =
  qd_DeviceName :: string
  qd_DeviceAddr :: string
  qd_NextService :: string
  qd_NextNumber :: int32
  qd_AfterKanban :: nat

definition SendFileToDevice :: "string \<Rightarrow> nat \<Rightarrow> string \<Rightarrow> int \<Rightarrow> string \<Rightarrow> queued_kanban list \<Rightarrow> queued_kanban list" where
  "SendFileToDevice deviceName k nextService number addr sendCh = sendCh @
     [\<lparr>qd_DeviceName = deviceName, qd_DeviceAddr = addr, qd_NextService = nextService,
       qd_NextNumber = to_int32 number, qd_AfterKanban = k\<rparr>]"

definition marshalled :: "StatusKanban list \<Rightarrow> queued_kanban \<Rightarrow> SendKanban" where
  "marshalled ks q = \<lparr>sd_DeviceName = qd_DeviceName q, sd_DeviceAddr = qd_DeviceAddr q, sd_NextService = qd_NextService q,
     sd_NextNumber = qd_NextNumber q, sd_AfterKanban = Some (ks ! qd_AfterKanban q)\<rparr>"

text \<open>
  The connection loop, by what happens to each attempt: the context is done, the dial or the
  opening of the stream fails, or the stream delivers messages until it is closed. The result
  is what was sent to the receive channel and whether the channel was closed. What its
  goroutine sends is \<open>send_queued\<close> below.
\<close>

datatype attempt = ContextDone | DialFails | StreamFails | Connection "SendKanban list"

fun connectToServer :: "attempt list \<Rightarrow> SendKanban list \<times> bool" where
  "connectToServer [] = ([], False)"
| "connectToServer (ContextDone # as) = ([], True)"
| "connectToServer (DialFails # as) = connectToServer as"
| "connectToServer (StreamFails # as) = connectToServer as"
| "connectToServer (Connection data # as) = (case connectToServer as of (recv, closed) \<Rightarrow> (data @ recv, closed))"

section \<open>Routing a kanban\<close>

record Container =
  cn_Name :: string
  cn_Number :: int

definition NewContainer :: "string \<Rightarrow> int \<Rightarrow> Container" where
  "NewContainer name number = \<lparr>cn_Name = name, cn_Number = number\<rparr>"

text \<open>
  The watcher, with what it shares: Redis, the kanban objects that have been routed, the channel
  of the device controller, and what that channel's reader has handed to the stream so far,
  which is as far as it has got in the channel.
\<close>

record 'r watcher =
  wt_redis :: 'r
  wt_startCh :: "Container list"
  wt_kanbans :: "StatusKanban list"
  wt_sendCh :: "queued_kanban list"
  wt_sent :: "SendKanban list"
  wt_aionSetting :: "AionSetting option"

definition NewWatcher :: "'r \<Rightarrow> 'r watcher" where
  "NewWatcher redis = \<lparr>wt_redis = redis, wt_startCh = [], wt_kanbans = [], wt_sendCh = [], wt_sent = [], wt_aionSetting = None\<rparr>"

text \<open>The device controller's goroutine takes the next message and marshals it.\<close>

definition send_queued :: "'r watcher \<Rightarrow> 'r watcher" where
  "send_queued w = (if length (wt_sent w) < length (wt_sendCh w)
     then w\<lparr>wt_sent := wt_sent w @ [marshalled (wt_kanbans w) (wt_sendCh w ! length (wt_sent w))]\<rparr> else w)"

definition serviceBrokerName :: string where "serviceBrokerName = ''service-broker''"

text \<open>\<open>protojson.Marshal\<close> of a Struct, and \<open>json.Unmarshal\<close> into a map.\<close>

record struct_codec =
  protojson_marshal :: "pb_struct option \<Rightarrow> string result"
  json_unmarshal :: "string \<Rightarrow> (string, iface) gomap result"

definition terminateServiceParser :: "struct_codec \<Rightarrow> StatusKanban option \<Rightarrow> (string \<times> int) result" where
  "terminateServiceParser sc k =
     (case protojson_marshal sc (GetMetadata k) of
        Inl e \<Rightarrow> Inl (Error ''Failed to marshal grpc stream'')
      | Inr b \<Rightarrow>
     (case json_unmarshal sc b of
        Inl e \<Rightarrow> Inl (Error ''Failed to unmarshal json'')
      | Inr ret \<Rightarrow>
         (if as_string (map_of ret ''type'') \<noteq> Some ''terminate''
          then Inl (Error ''invalid function name (expect: terminate)'')
          else (case as_string (map_of ret ''name'') of
             None \<Rightarrow> Inl (Error ''not set service name'')
           | Some serviceName \<Rightarrow>
              (case as_int (map_of ret ''number'') of
                 None \<Rightarrow> Inr (serviceName, - 1)
               | Some number \<Rightarrow> Inr (serviceName, number))))))"

text \<open>
  One next service: the number, and where the kanban goes, by the device that it names or,
  when it names none, that the project names.
\<close>

definition next_number :: "StatusKanban \<Rightarrow> NextServiceSetting \<Rightarrow> int" where
  "next_number k ns = GetNextNumber (sk_ProcessNumber k) (nss_NumberPattern ns)"

definition target_device :: "StatusKanban \<Rightarrow> NextServiceSetting \<Rightarrow> string" where
  "target_device k ns = (if sk_NextDeviceName k = '''' then nss_NextDevice ns else sk_NextDeviceName k)"

datatype hop = ToDevice string Device | ToLocal

definition find_hop :: "AionSetting \<Rightarrow> NextServiceSetting \<Rightarrow> StatusKanban \<Rightarrow> hop result" where
  "find_hop as ns k =
     (let nextDeviceName = target_device k ns
      in (case map_of (GetDeviceList as) nextDeviceName of
            Some None \<Rightarrow> Inl nil_deref
          | Some (Some device) \<Rightarrow> Inr (ToDevice nextDeviceName device)
          | None \<Rightarrow> Inr ToLocal))"

text \<open>
  The two branches, for the kanban object \<open>a\<close>; the second writes the own device's name into the
  object, then the object to the stream, and asks for the start.
\<close>

definition send_remote :: "NextServiceSetting \<Rightarrow> string \<Rightarrow> Device \<Rightarrow> nat \<Rightarrow> 'r watcher \<Rightarrow> 'r watcher" where
  "send_remote ns nextDeviceName device a w =
     w\<lparr>wt_sendCh := SendFileToDevice nextDeviceName a (nss_NextServiceName ns) (next_number (wt_kanbans w ! a) ns)
       (dv_Addr device) (wt_sendCh w)\<rparr>"

definition write_local :: "'r redis_api \<Rightarrow> json_codec \<Rightarrow> AionSetting \<Rightarrow> NextServiceSetting \<Rightarrow> nat \<Rightarrow> 'r watcher \<Rightarrow> 'r watcher" where
  "write_local api jc as ns a w =
     (let k = (wt_kanbans w ! a)\<lparr>sk_NextDeviceName := GetDeviceName as\<rparr>; number = next_number k ns in
      w\<lparr>wt_kanbans := (wt_kanbans w)[a := k],
        wt_redis := snd (WriteKanban api jc (GetStreamKeyByStatusType (nss_NextServiceName ns) number StatusType_Before) (Some k) (wt_redis w))\<rparr>)"

definition ask_start :: "NextServiceSetting \<Rightarrow> nat \<Rightarrow> 'r watcher \<Rightarrow> 'r watcher" where
  "ask_start ns a w =
     w\<lparr>wt_startCh := wt_startCh w @ [NewContainer (nss_NextServiceName ns) (next_number (wt_kanbans w ! a) ns)]\<rparr>"

text \<open>The loop over the next services, when nothing else happens meanwhile.\<close>

fun route_loop :: "'r redis_api \<Rightarrow> json_codec \<Rightarrow> AionSetting \<Rightarrow> NextServiceSetting option list \<Rightarrow> nat \<Rightarrow>
    'r watcher \<Rightarrow> go_error option \<times> 'r watcher" where
  "route_loop api jc as [] a w = (None, w)"
| "route_loop api jc as (nextService # rest) a w =
     (case nextService of
        None \<Rightarrow> (Some nil_deref, w)
      | Some ns \<Rightarrow>
         (case find_hop as ns (wt_kanbans w ! a) of
            Inl e \<Rightarrow> (Some e, w)
          | Inr (ToDevice nextDeviceName device) \<Rightarrow> route_loop api jc as rest a (send_remote ns nextDeviceName device a w)
          | Inr ToLocal \<Rightarrow> route_loop api jc as rest a (ask_start ns a (write_local api jc as ns a w))))"

text \<open>What the watching goroutine does next: wait for the next kanban, return, or unwind.\<close>

datatype after = Continue | ReturnWatch | Unwind go_error

fun unwind_or_continue :: "go_error \<Rightarrow> after" where
  "unwind_or_continue (Panic s) = Unwind (Panic s)"
| "unwind_or_continue (Error s) = Continue"

definition new_kanban :: "StatusKanban \<Rightarrow> 'r watcher \<Rightarrow> 'r watcher" where
  "new_kanban k w = w\<lparr>wt_kanbans := wt_kanbans w @ [k]\<rparr>"

definition route :: "'r redis_api \<Rightarrow> json_codec \<Rightarrow> AionSetting \<Rightarrow> string \<Rightarrow> StatusKanban \<Rightarrow> 'r watcher \<Rightarrow> after \<times> 'r watcher" where
  "route api jc as msName k w =
     (case GetNextServiceList as msName (sk_ConnectionKey k) of
        Inl e \<Rightarrow> (unwind_or_continue e, new_kanban k w)
      | Inr nextServiceList \<Rightarrow>
         (case route_loop api jc as nextServiceList (length (wt_kanbans w)) (new_kanban k w) of
            (Some e, w') \<Rightarrow> (Unwind e, w')
          | (None, w') \<Rightarrow> (Continue, w')))"

text \<open>One kanban received by \<open>WatchMicroservice\<close>, when nothing else happens meanwhile.\<close>

definition WatchMicroservice :: "'r redis_api \<Rightarrow> json_codec \<Rightarrow> struct_codec \<Rightarrow>
    string \<Rightarrow> AdaptorKanban \<Rightarrow> 'r watcher \<Rightarrow> after \<times> 'r watcher" where
  "WatchMicroservice api jc sc msName ak w =
     (case ak_Kanban ak of
        None \<Rightarrow> (Unwind nil_deref, w)
      | Some k \<Rightarrow>
         (if sk_ConnectionKey k = serviceBrokerName
          then (case terminateServiceParser sc (Some k) of
             Inl e \<Rightarrow> (unwind_or_continue e, w)
           | Inr (serviceName, _) \<Rightarrow>
              (case wt_aionSetting w of
                 None \<Rightarrow> (Unwind nil_deref, w)
               | Some as \<Rightarrow>
                  (case map_of (GetMicroserviceList as) serviceName of
                     None \<Rightarrow> (Continue, w)
                   | Some None \<Rightarrow> (Unwind nil_deref, w)
                   | Some (Some msData) \<Rightarrow>
                      (if \<not> ms_Always msData then (ReturnWatch, w) else route api jc as msName k w))))
          else (case wt_aionSetting w of
             None \<Rightarrow> (Unwind nil_deref, new_kanban k w)
           | Some as \<Rightarrow> route api jc as msName k w)))"

section \<open>Routing step by step\<close>

text \<open>
  What really happens in between: other goroutines run, the watcher may get another project,
  which the loop reads anew at each use, and queued messages are marshalled. The goroutine is
  about to look up the next services, before a next service, or about to send to another
  device, to take the own device's name and write, or to ask for the start.
\<close>

datatype pass = Choosing nat
  | Looping nat "NextServiceSetting option list"
  | Sending nat NextServiceSetting string Device "NextServiceSetting option list"
  | Naming nat NextServiceSetting "NextServiceSetting option list"
  | Asking nat NextServiceSetting "NextServiceSetting option list"

datatype progress = Goes pass | Ends after

fun unwinds :: "progress \<Rightarrow> bool" where
  "unwinds (Ends (Unwind e)) = True"
| "unwinds _ = False"

text \<open>A pass of the routing loop: the object it is about and the next services that are left.\<close>

fun pass_object :: "pass \<Rightarrow> nat" where
  "pass_object (Choosing a) = a"
| "pass_object (Looping a vs) = a"
| "pass_object (Sending a ns d dv vs) = a"
| "pass_object (Naming a ns vs) = a"
| "pass_object (Asking a ns vs) = a"

fun pass_list :: "pass \<Rightarrow> NextServiceSetting option list" where
  "pass_list (Choosing a) = []"
| "pass_list (Looping a vs) = vs"
| "pass_list (Sending a ns d dv vs) = Some ns # vs"
| "pass_list (Naming a ns vs) = Some ns # vs"
| "pass_list (Asking a ns vs) = Some ns # vs"

definition take_kanban :: "struct_codec \<Rightarrow> AdaptorKanban \<Rightarrow> 'r watcher \<Rightarrow> progress \<times> 'r watcher" where
  "take_kanban sc ak w =
     (case ak_Kanban ak of
        None \<Rightarrow> (Ends (Unwind nil_deref), w)
      | Some k \<Rightarrow>
         (if sk_ConnectionKey k = serviceBrokerName
          then (case terminateServiceParser sc (Some k) of
             Inl e \<Rightarrow> (Ends (unwind_or_continue e), w)
           | Inr (serviceName, _) \<Rightarrow>
              (case wt_aionSetting w of
                 None \<Rightarrow> (Ends (Unwind nil_deref), w)
               | Some as \<Rightarrow>
                  (case map_of (GetMicroserviceList as) serviceName of
                     None \<Rightarrow> (Ends Continue, w)
                   | Some None \<Rightarrow> (Ends (Unwind nil_deref), w)
                   | Some (Some msData) \<Rightarrow>
                      (if \<not> ms_Always msData then (Ends ReturnWatch, w)
                       else (Goes (Choosing (length (wt_kanbans w))), new_kanban k w)))))
          else (Goes (Choosing (length (wt_kanbans w))), new_kanban k w)))"

fun pass_step :: "'r redis_api \<Rightarrow> json_codec \<Rightarrow> string \<Rightarrow> pass \<Rightarrow> 'r watcher \<Rightarrow> progress \<times> 'r watcher" where
  "pass_step api jc msName (Choosing a) w =
     (case wt_aionSetting w of
        None \<Rightarrow> (Ends (Unwind nil_deref), w)
      | Some as \<Rightarrow>
         (case GetNextServiceList as msName (sk_ConnectionKey (wt_kanbans w ! a)) of
            Inl e \<Rightarrow> (Ends (unwind_or_continue e), w)
          | Inr nextServiceList \<Rightarrow> (Goes (Looping a nextServiceList), w)))"
| "pass_step api jc msName (Looping a []) w = (Ends Continue, w)"
| "pass_step api jc msName (Looping a (nextService # rest)) w =
     (case nextService of
        None \<Rightarrow> (Ends (Unwind nil_deref), w)
      | Some ns \<Rightarrow>
         (case wt_aionSetting w of
            None \<Rightarrow> (Ends (Unwind nil_deref), w)
          | Some as \<Rightarrow>
             (case find_hop as ns (wt_kanbans w ! a) of
                Inl e \<Rightarrow> (Ends (Unwind e), w)
              | Inr (ToDevice nextDeviceName device) \<Rightarrow> (Goes (Sending a ns nextDeviceName device rest), w)
              | Inr ToLocal \<Rightarrow> (Goes (Naming a ns rest), w))))"
| "pass_step api jc msName (Sending a ns nextDeviceName device rest) w =
     (Goes (Looping a rest), send_remote ns nextDeviceName device a w)"
| "pass_step api jc msName (Naming a ns rest) w =
     (case wt_aionSetting w of
        None \<Rightarrow> (Ends (Unwind nil_deref), w)
      | Some as \<Rightarrow> (Goes (Asking a ns rest), write_local api jc as ns a w))"
| "pass_step api jc msName (Asking a ns rest) w = (Goes (Looping a rest), ask_start ns a w)"

text \<open>A number of steps in a row.\<close>

fun pass_steps :: "nat \<Rightarrow> 'r redis_api \<Rightarrow> json_codec \<Rightarrow> string \<Rightarrow> progress \<times> 'r watcher \<Rightarrow> progress \<times> 'r watcher" where
  "pass_steps (Suc n) api jc msName (Goes p, w) = pass_steps n api jc msName (pass_step api jc msName p w)"
| "pass_steps n api jc msName r = r"

lemma keeps_setting [simp]:
  "wt_aionSetting (send_remote ns d dev a w) = wt_aionSetting w" "wt_aionSetting (write_local api jc as ns a w) = wt_aionSetting w"
  "wt_aionSetting (ask_start ns a w) = wt_aionSetting w" "wt_aionSetting (new_kanban k w) = wt_aionSetting w"
  "wt_kanbans (new_kanban k w) = wt_kanbans w @ [k]"
  by (simp_all add: send_remote_def write_local_def ask_start_def new_kanban_def Let_def)

lemma pass_steps_end [simp]: "pass_steps n api jc msName (Ends x, w) = (Ends x, w)"
  by (cases n) simp_all

lemma pass_steps_loop:
  "wt_aionSetting w = Some as \<Longrightarrow> route_loop api jc as vs a w = (e, w') \<Longrightarrow>
    pass_steps (Suc n + 3 * length vs) api jc msName (Goes (Looping a vs), w) =
      (Ends (case e of None \<Rightarrow> Continue | Some x \<Rightarrow> Unwind x), w')"
proof (induction vs arbitrary: n w)
  case (Cons v vs)
  have n: "Suc n + 3 * length (v # vs) = Suc (Suc (Suc (Suc n + 3 * length vs)))"
    "Suc (Suc n + 3 * length vs) = Suc (Suc n) + 3 * length vs" by simp_all
  show ?case
  proof (cases v)
    case None
    with Cons.prems show ?thesis unfolding n(1) by auto
  next
    case (Some ns)
    consider (err) x where "find_hop as ns (wt_kanbans w ! a) = Inl x"
      | (dev) d dv where "find_hop as ns (wt_kanbans w ! a) = Inr (ToDevice d dv)"
      | (own) "find_hop as ns (wt_kanbans w ! a) = Inr ToLocal"
      by (metis hop.exhaust sum.exhaust)
    then show ?thesis
    proof cases
      case err
      with Cons.prems Some show ?thesis unfolding n(1) by auto
    next
      case dev
      with Cons.prems Some Cons.IH [of "send_remote ns d dv a w" "Suc n"] show ?thesis
        unfolding n(1) by (simp add: n(2))
    next
      case own
      with Cons.prems Some Cons.IH [of "ask_start ns a (write_local api jc as ns a w)" n] show ?thesis
        unfolding n(1) by simp
    qed
  qed
qed auto

text \<open>
  Undisturbed, the steps do what the whole pass does: at most three for each next service, one
  to look them up and one to end.
\<close>

lemma undisturbed_pass:
  assumes "\<And>as vs. wt_aionSetting w = Some as \<Longrightarrow> ak_Kanban ak = Some k \<Longrightarrow> GetNextServiceList as msName (sk_ConnectionKey k) = Inr vs \<Longrightarrow>
    length vs \<le> n"
    and "ak_Kanban ak = Some k"
  shows "pass_steps (3 * n + 2) api jc msName (take_kanban sc ak w) =
    (case WatchMicroservice api jc sc msName ak w of (x, w') \<Rightarrow> (Ends x, w'))"
proof -
  have go: "pass_steps (3 * n + 2) api jc msName (Goes (Choosing (length (wt_kanbans w))), new_kanban k w) =
      (case route api jc as msName k w of (x, w') \<Rightarrow> (Ends x, w'))" if as: "wt_aionSetting w = Some as" for as
  proof (cases "GetNextServiceList as msName (sk_ConnectionKey k)")
    case (Inl e)
    with as show ?thesis by (simp add: route_def)
  next
    case (Inr vs)
    obtain e w' where l: "route_loop api jc as vs (length (wt_kanbans w)) (new_kanban k w) = (e, w')" by force
    have "3 * n + 2 = Suc (Suc (3 * (n - length vs)) + 3 * length vs)" using assms(1) [OF as assms(2) Inr] by simp
    then show ?thesis
      using pass_steps_loop [of "new_kanban k w" as api jc vs "length (wt_kanbans w)" e w' "3 * (n - length vs)" msName] as l
      by (simp add: route_def Inr split: option.splits)
  qed
  have "pass_steps (3 * n + 2) api jc msName (Goes (Choosing (length (wt_kanbans w))), new_kanban k w) =
      (Ends (Unwind nil_deref), new_kanban k w)" if "wt_aionSetting w = None"
    using that by simp
  with go show ?thesis
    by (cases "wt_aionSetting w") (auto simp: take_kanban_def WatchMicroservice_def assms(2) split: sum.splits option.splits prod.splits)
qed

lemma undisturbed_steps:
  assumes "ak_Kanban ak = Some k"
  shows "\<exists>n. pass_steps n api jc msName (take_kanban sc ak w) = (case WatchMicroservice api jc sc msName ak w of (x, w') \<Rightarrow> (Ends x, w'))"
proof -
  define vs where "vs = (case GetNextServiceList (the (wt_aionSetting w)) msName (sk_ConnectionKey k) of Inl e \<Rightarrow> [] | Inr vs \<Rightarrow> vs)"
  show ?thesis
    by (rule exI, rule undisturbed_pass [where n = "length vs"]) (use assms in \<open>auto simp: vs_def\<close>)
qed

text \<open>One message of \<open>WatchReceiveKanban\<close>: a new setting, or a kanban from another device.\<close>

datatype received = NewSetting "AionSetting option" | ReceivedKanban SendKanban

fun WatchReceiveKanban :: "'r redis_api \<Rightarrow> json_codec \<Rightarrow> 'r watcher \<Rightarrow> received \<Rightarrow> 'r watcher" where
  "WatchReceiveKanban api jc w (NewSetting as) = w\<lparr>wt_aionSetting := as\<rparr>"
| "WatchReceiveKanban api jc w (ReceivedKanban k) =
     w\<lparr>wt_redis := snd (WriteKanban api jc
          (GetStreamKeyByStatusType (sd_NextService k) (to_int (sd_NextNumber k)) StatusType_Before)
          (sd_AfterKanban k) (wt_redis w)),
       wt_startCh := wt_startCh w @ [NewContainer (sd_NextService k) (to_int (sd_NextNumber k))]\<rparr>"

section \<open>What a kanban is routed to\<close>

text \<open>
  The specification of one step: whether a next service is on another device, the message that
  is queued for it and what the message would carry if it was marshalled at once, from the
  kanban as the microservice wrote it.
\<close>

definition remote :: "AionSetting \<Rightarrow> StatusKanban \<Rightarrow> NextServiceSetting option \<Rightarrow> bool" where
  "remote as k v = (case v of None \<Rightarrow> False | Some ns \<Rightarrow> map_of (as_Devices as) (target_device k ns) \<noteq> None)"

definition sent_remote :: "AionSetting \<Rightarrow> StatusKanban \<Rightarrow> NextServiceSetting option \<Rightarrow> SendKanban" where
  "sent_remote as k v = (let ns = the v in
     \<lparr>sd_DeviceName = target_device k ns, sd_DeviceAddr = dv_Addr (the (the (map_of (as_Devices as) (target_device k ns)))),
      sd_NextService = nss_NextServiceName ns, sd_NextNumber = to_int32 (next_number k ns), sd_AfterKanban = Some k\<rparr>)"

definition queued_remote :: "AionSetting \<Rightarrow> StatusKanban \<Rightarrow> nat \<Rightarrow> NextServiceSetting option \<Rightarrow> queued_kanban" where
  "queued_remote as k a v = (let ns = the v in
     \<lparr>qd_DeviceName = target_device k ns, qd_DeviceAddr = dv_Addr (the (the (map_of (as_Devices as) (target_device k ns)))),
      qd_NextService = nss_NextServiceName ns, qd_NextNumber = to_int32 (next_number k ns), qd_AfterKanban = a\<rparr>)"

definition started_local :: "StatusKanban \<Rightarrow> NextServiceSetting option \<Rightarrow> Container" where
  "started_local k v = NewContainer (nss_NextServiceName (the v)) (next_number k (the v))"

lemma marshalled_queued: "marshalled ks (queued_remote as k a v) = (sent_remote as k v)\<lparr>sd_AfterKanban := Some (ks ! a)\<rparr>"
  by (simp add: marshalled_def queued_remote_def sent_remote_def Let_def)

text \<open>The kanban with the name of the own device.\<close>

definition own_name :: "AionSetting \<Rightarrow> StatusKanban \<Rightarrow> StatusKanban" where
  "own_name as k = k\<lparr>sk_NextDeviceName := GetDeviceName as\<rparr>"

lemma same_route [simp]:
  "started_local (own_name as k) = started_local k" "next_number (own_name as k) = next_number k"
  "own_name as (own_name as' k) = own_name as k" "sk_ConnectionKey (own_name as k) = sk_ConnectionKey k"
  by (simp_all add: own_name_def fun_eq_iff started_local_def next_number_def)

text \<open>The writes of a list of local deliveries.\<close>

definition deliver_all :: "'r redis_api \<Rightarrow> json_codec \<Rightarrow> StatusKanban \<Rightarrow> NextServiceSetting option list \<Rightarrow> 'r \<Rightarrow> 'r" where
  "deliver_all api jc k vs r = foldl (\<lambda>r v. snd (WriteKanban api jc
     (GetStreamKeyByStatusType (nss_NextServiceName (the v)) (next_number k (the v)) StatusType_Before) (Some k) r)) r vs"

lemma find_hop_cases:
  "(case find_hop as ns k of Inl e \<Rightarrow> map_of (as_Devices as) (target_device k ns) = Some None
    | Inr (ToDevice d dv) \<Rightarrow> d = target_device k ns \<and> map_of (as_Devices as) d = Some (Some dv)
    | Inr ToLocal \<Rightarrow> map_of (as_Devices as) (target_device k ns) = None)"
  by (simp add: find_hop_def GetDeviceList_def Let_def split: option.splits)

text \<open>The two branches, over the specification.\<close>

lemma send_remote_queued:
  assumes "map_of (as_Devices as) (target_device (wt_kanbans w ! a) ns) = Some (Some dv)"
  shows "send_remote ns (target_device (wt_kanbans w ! a) ns) dv a w =
    w\<lparr>wt_sendCh := wt_sendCh w @ [queued_remote as (wt_kanbans w ! a) a (Some ns)]\<rparr>"
  by (simp add: send_remote_def SendFileToDevice_def queued_remote_def assms)

lemma local_delivered:
  assumes "a < length (wt_kanbans w)"
  shows "ask_start ns a (write_local api jc as ns a w) =
    w\<lparr>wt_kanbans := (wt_kanbans w)[a := own_name as (wt_kanbans w ! a)],
      wt_redis := deliver_all api jc (own_name as (wt_kanbans w ! a)) [Some ns] (wt_redis w),
      wt_startCh := wt_startCh w @ [started_local (wt_kanbans w ! a) (Some ns)]\<rparr>"
proof -
  have "next_number ((wt_kanbans w ! a)\<lparr>sk_NextDeviceName := GetDeviceName as\<rparr>) ns = next_number (wt_kanbans w ! a) ns"
    by (simp add: next_number_def)
  then show ?thesis
    using assms by (simp add: ask_start_def write_local_def Let_def own_name_def deliver_all_def started_local_def)
qed

lemma route_remote:
  assumes "wf_setting as" "k = wt_kanbans w ! a" "\<forall>v \<in> set vs. remote as k v"
  shows "route_loop api jc as (vs @ us) a w =
    route_loop api jc as us a (w\<lparr>wt_sendCh := wt_sendCh w @ map (queued_remote as k a) vs\<rparr>)"
  using assms(2,3)
proof (induction vs arbitrary: w)
  case (Cons v vs)
  then obtain ns d where v: "v = Some ns" "map_of (as_Devices as) (target_device k ns) = Some d"
    by (auto simp: remote_def split: option.splits)
  from wf_setting_device [OF assms(1) v(2)] obtain dev where d: "d = Some dev" by blast
  have hop: "find_hop as ns k = Inr (ToDevice (target_device k ns) dev)"
    using v(2) by (simp add: find_hop_def d GetDeviceList_def)
  have "route_loop api jc as ((v # vs) @ us) a w =
      route_loop api jc as (vs @ us) a (w\<lparr>wt_sendCh := wt_sendCh w @ [queued_remote as k a v]\<rparr>)"
    using send_remote_queued [of as w a ns dev] v(2) hop by (simp add: v(1) d Cons.prems(1))
  with Cons show ?case by simp
qed simp

text \<open>From the first local delivery on the kanban carries the name of the own device.\<close>

lemma route_local:
  assumes "map_of (as_Devices as) (GetDeviceName as) = None" "GetDeviceName as \<noteq> ''''"
    and "None \<notin> set vs" "a < length (wt_kanbans w)" "wt_kanbans w ! a = k" "sk_NextDeviceName k = GetDeviceName as"
  shows "route_loop api jc as vs a w = (None,
    w\<lparr>wt_redis := deliver_all api jc k vs (wt_redis w), wt_startCh := wt_startCh w @ map (started_local k) vs\<rparr>)"
  using assms(3-5)
proof (induction vs arbitrary: w)
  case Nil
  then show ?case by (simp add: deliver_all_def)
next
  case (Cons v vs)
  then obtain ns where v: "v = Some ns" by (cases v) auto
  have same: "own_name as k = k" using assms(6) by (simp add: own_name_def)
  have upd: "(wt_kanbans w)[a := k] = wt_kanbans w" using Cons.prems(3) by auto
  have "find_hop as ns k = Inr ToLocal"
    using assms(1,2,6) by (simp add: find_hop_def target_device_def GetDeviceList_def)
  then show ?case
    using Cons.prems Cons.IH
    by (simp add: v local_delivered same upd) (simp add: deliver_all_def)
qed

lemma route_local_from:
  assumes "map_of (as_Devices as) (GetDeviceName as) = None" "GetDeviceName as \<noteq> ''''"
    and "None \<notin> set (v # vs)" "\<not> remote as k v" "a < length (wt_kanbans w)" "wt_kanbans w ! a = k"
  shows "route_loop api jc as (v # vs) a w = (None,
    w\<lparr>wt_kanbans := (wt_kanbans w)[a := own_name as k],
      wt_redis := deliver_all api jc (own_name as k) (v # vs) (wt_redis w),
      wt_startCh := wt_startCh w @ map (started_local k) (v # vs)\<rparr>)"
proof -
  let ?k = "own_name as k"
  let ?w = "w\<lparr>wt_kanbans := (wt_kanbans w)[a := ?k],
      wt_redis := deliver_all api jc ?k [v] (wt_redis w), wt_startCh := wt_startCh w @ [started_local k v]\<rparr>"
  obtain ns where v: "v = Some ns" using assms(3) by (cases v) auto
  have none: "map_of (as_Devices as) (target_device k ns) = None" using assms(4) by (simp add: remote_def v)
  have "route_loop api jc as (v # vs) a w = route_loop api jc as vs a ?w"
    using none assms(5,6) by (simp add: v find_hop_def GetDeviceList_def local_delivered)
  also have "\<dots> = (None, ?w\<lparr>wt_redis := deliver_all api jc ?k vs (wt_redis ?w),
      wt_startCh := wt_startCh ?w @ map (started_local ?k) vs\<rparr>)"
    using assms(3,5) by (intro route_local [OF assms(1,2)]) (simp_all add: own_name_def)
  finally show ?thesis by (simp add: deliver_all_def)
qed

text \<open>
  C10. On a loaded project, when the next services on other devices are listed before those on
  the own device and nothing interferes, a kanban is handed to exactly its next services, in
  the order of the project: one message with its address is queued for each service on another
  device, and one entry in the before stream and one start request made for each local one,
  each for the process number that the service's number pattern selects. What is written to a
  local stream carries the own device's name and is otherwise the kanban. A queued message
  takes the kanban when it is marshalled: before the first local delivery it is the kanban as it
  was, with the same next device; after a local delivery it has the own device's name.
\<close>

theorem routed_to_next_services:
  assumes as: "wf_setting as" "map_of (as_Devices as) (GetDeviceName as) = None" "GetDeviceName as \<noteq> ''''"
    and nx: "GetNextServiceList as msName (sk_ConnectionKey k) = Inr (vs @ us)"
    and vs: "\<forall>v \<in> set vs. remote as k v" and us: "\<forall>v \<in> set us. v \<noteq> None \<and> \<not> remote as k v"
  shows "route api jc as msName k w = (Continue,
    w\<lparr>wt_kanbans := wt_kanbans w @ [if us = [] then k else own_name as k],
      wt_sendCh := wt_sendCh w @ map (queued_remote as k (length (wt_kanbans w))) vs,
      wt_startCh := wt_startCh w @ map (started_local k) us,
      wt_redis := deliver_all api jc (own_name as k) us (wt_redis w)\<rparr>) \<and>
    map (marshalled (wt_kanbans w @ [k])) (map (queued_remote as k (length (wt_kanbans w))) vs) = map (sent_remote as k) vs \<and>
    map (marshalled (wt_kanbans (snd (route api jc as msName k w)))) (map (queued_remote as k (length (wt_kanbans w))) vs) =
      map (\<lambda>v. (sent_remote as k v)\<lparr>sd_AfterKanban := Some (if us = [] then k else own_name as k)\<rparr>) vs"
proof -
  let ?a = "length (wt_kanbans w)"
  let ?w = "new_kanban k w\<lparr>wt_sendCh := wt_sendCh w @ map (queued_remote as k ?a) vs\<rparr>"
  have k: "k = wt_kanbans (new_kanban k w) ! ?a" by simp
  have "route_loop api jc as (vs @ us) ?a (new_kanban k w) = route_loop api jc as us ?a ?w"
    using route_remote [OF as(1) k vs] by (simp add: new_kanban_def)
  moreover have "route_loop api jc as us ?a ?w = (None,
    w\<lparr>wt_kanbans := wt_kanbans w @ [if us = [] then k else own_name as k],
      wt_sendCh := wt_sendCh w @ map (queued_remote as k ?a) vs,
      wt_startCh := wt_startCh w @ map (started_local k) us,
      wt_redis := deliver_all api jc (own_name as k) us (wt_redis w)\<rparr>)"
  proof (cases us)
    case Nil
    then show ?thesis by (simp add: new_kanban_def deliver_all_def)
  next
    case (Cons u us')
    from us have "None \<notin> set (u # us')" "\<not> remote as k u" by (auto simp: Cons)
    from route_local_from [OF as(2,3) this, of ?a ?w] show ?thesis
      by (simp add: Cons new_kanban_def del: route_loop.simps)
  qed
  ultimately have r: "route api jc as msName k w = (Continue,
    w\<lparr>wt_kanbans := wt_kanbans w @ [if us = [] then k else own_name as k],
      wt_sendCh := wt_sendCh w @ map (queued_remote as k ?a) vs,
      wt_startCh := wt_startCh w @ map (started_local k) us,
      wt_redis := deliver_all api jc (own_name as k) us (wt_redis w)\<rparr>)"
    by (simp add: route_def nx)
  have "(sent_remote as k v)\<lparr>sd_AfterKanban := Some k\<rparr> = sent_remote as k v" for v
    by (simp add: sent_remote_def Let_def)
  then show ?thesis unfolding r by (simp add: marshalled_queued)
qed


section \<open>Terminate kanbans\<close>

text \<open>What JSON makes of a value: a number becomes a float64, whatever it was before.\<close>

fun json_iface :: "pb_value \<Rightarrow> iface" where
  "json_iface NullValue = INil"
| "json_iface (NumberValue x) = IFloat64 x"
| "json_iface (StringValue s) = IString s"
| "json_iface (BoolValue b) = IBool b"
| "json_iface (StructValue m) = IMap (map (\<lambda>(k, v). (k, json_iface v)) m)"
| "json_iface (ListValue vs) = ISlice (map json_iface vs)"
| "json_iface NoKind = INil"

definition struct_codec_documented :: "struct_codec \<Rightarrow> bool" where
  "struct_codec_documented sc \<longleftrightarrow> (\<forall>m b. protojson_marshal sc m = Inr b \<longrightarrow>
     json_unmarshal sc b = Inr (map_vals json_iface (case m of None \<Rightarrow> [] | Some s \<Rightarrow> s)))"

lemma json_iface_string [simp]: "json_iface v = IString s \<longleftrightarrow> v = StringValue s"
  by (cases v) auto

lemma json_iface_int [simp]: "json_iface v \<noteq> IInt i"
  by (cases v) auto

lemma as_int_json: "as_int (map_option json_iface v) = None"
proof (cases v)
  case (Some x)
  then show ?thesis by (cases x) auto
qed simp

text \<open>
  What a terminate kanban is taken for: it names the microservice in its metadata, its
  type must be terminate, and the number is -1 whatever the metadata says, because JSON has
  no integers and the code asks for an \<open>int\<close>.
\<close>

theorem terminate_number_ignored:
  assumes "struct_codec_documented sc" "protojson_marshal sc (GetMetadata k) = Inr b"
  shows "terminateServiceParser sc k = Inr (name, n) \<longleftrightarrow>
    n = - 1 \<and> (\<exists>m. GetMetadata k = Some m \<and> map_of m ''type'' = Some (StringValue ''terminate'') \<and>
      map_of m ''name'' = Some (StringValue name))"
proof -
  let ?m = "case GetMetadata k of None \<Rightarrow> [] | Some s \<Rightarrow> s"
  from assms have "json_unmarshal sc b = Inr (map_vals json_iface ?m)" by (simp add: struct_codec_documented_def)
  then have "terminateServiceParser sc k = Inr (name, n) \<longleftrightarrow>
      n = - 1 \<and> map_of ?m ''type'' = Some (StringValue ''terminate'') \<and> map_of ?m ''name'' = Some (StringValue name)"
    by (auto simp: terminateServiceParser_def assms(2) as_int_json split: option.splits)
  then show ?thesis by (auto split: option.splits)
qed

definition ex_meta :: pb_struct where
  "ex_meta = [(''type'', StringValue ''terminate''), (''name'', StringValue ''a''), (''number'', NumberValue 2)]"

text \<open>A codec that knows one message.\<close>

definition ex_struct_codec :: struct_codec where
  "ex_struct_codec = \<lparr>protojson_marshal = (\<lambda>m. if m = Some ex_meta then Inr ''{}'' else Inl (Error ''unknown'')),
     json_unmarshal = (\<lambda>b. Inr (map_vals json_iface ex_meta))\<rparr>"

lemma ex_struct_codec_documented: "struct_codec_documented ex_struct_codec"
  by (simp add: struct_codec_documented_def ex_struct_codec_def)

theorem terminate_number_ignored_witness:
  "terminateServiceParser ex_struct_codec (Some (ex_kanban\<lparr>sk_Metadata := Some ex_meta\<rparr>)) = Inr (''a'', - 1)"
proof -
  have "protojson_marshal ex_struct_codec (GetMetadata (Some (ex_kanban\<lparr>sk_Metadata := Some ex_meta\<rparr>))) = Inr ''{}''"
    by (simp add: ex_struct_codec_def GetMetadata_def)
  from terminate_number_ignored [OF ex_struct_codec_documented this] show ?thesis
    by (simp add: GetMetadata_def ex_meta_def)
qed

text \<open>
  When a watching goroutine ends: exactly when a kanban announces, under the broker's
  connection key, the termination of a microservice of the project that is not marked always.
  A terminate kanban that names a microservice marked always is routed like any other, and so,
  as the broker's key is rarely a key of the project, to the services under the default key.
\<close>

theorem watch_ends_iff:
  assumes "wf_setting as" "wt_aionSetting w = Some as"
  shows "(fst (WatchMicroservice api jc sc msName \<lparr>ak_ID = i, ak_Kanban = Some k\<rparr> w) = ReturnWatch \<longleftrightarrow>
      sk_ConnectionKey k = serviceBrokerName \<and>
      (\<exists>name n m. terminateServiceParser sc (Some k) = Inr (name, n) \<and>
        map_of (as_Microservices as) name = Some (Some m) \<and> \<not> ms_Always m)) \<and>
    (\<forall>name n m. sk_ConnectionKey k = serviceBrokerName \<and> terminateServiceParser sc (Some k) = Inr (name, n) \<and>
      map_of (as_Microservices as) name = Some (Some m) \<and> ms_Always m \<longrightarrow>
      WatchMicroservice api jc sc msName \<lparr>ak_ID = i, ak_Kanban = Some k\<rparr> w = route api jc as msName k w)"
proof -
  have u: "unwind_or_continue e \<noteq> ReturnWatch" for e by (cases e) simp_all
  have r: "fst (route api jc as msName k w) \<noteq> ReturnWatch"
    using u by (auto simp: route_def split: sum.splits option.splits prod.splits)
  let ?r = "WatchMicroservice api jc sc msName \<lparr>ak_ID = i, ak_Kanban = Some k\<rparr> w"
  have "fst ?r = ReturnWatch \<longleftrightarrow> sk_ConnectionKey k = serviceBrokerName \<and>
      (\<exists>name n m. terminateServiceParser sc (Some k) = Inr (name, n) \<and>
        map_of (as_Microservices as) name = Some (Some m) \<and> \<not> ms_Always m)"
    using u r by (auto simp: WatchMicroservice_def assms(2) GetMicroserviceList_def split: sum.splits option.splits)
  moreover have "?r = route api jc as msName k w"
    if "sk_ConnectionKey k = serviceBrokerName" "terminateServiceParser sc (Some k) = Inr (name, n)"
      "map_of (as_Microservices as) name = Some (Some m)" "ms_Always m" for name n m
    using that by (simp add: WatchMicroservice_def assms(2) GetMicroserviceList_def)
  ultimately show ?thesis by blast
qed

definition ex_routed :: AionSetting where
  "ex_routed = the (snd (LoadConfigFromGRPC (Some (ex_setting\<lparr>as_Microservices := [(''a'', Some (ex_ms\<lparr>ms_NextService :=
     Some [(''default'', Some \<lparr>nx_Settings = [Some (ex_next\<lparr>nss_NextDevice := ''dev''\<rparr>), Some ex_next]\<rparr>)]\<rparr>))]\<rparr>))))"

definition ex_watcher :: "ref_redis watcher" where
  "ex_watcher = (NewWatcher (\<lambda>_. []))\<lparr>wt_aionSetting := Some ex_routed\<rparr>"

lemma ex_routed_facts:
  "wf_setting ex_routed" "map_of (as_Devices ex_routed) (GetDeviceName ex_routed) = None" "GetDeviceName ex_routed \<noteq> ''''"
  by code_simp+

theorem watch_ends_iff_witness:
  "fst (WatchMicroservice ref_api ex_codec ex_struct_codec ''a'' \<lparr>ak_ID = ''1'', ak_Kanban =
     Some (ex_kanban\<lparr>sk_ConnectionKey := ''service-broker'', sk_Metadata := Some ex_meta\<rparr>)\<rparr> ex_watcher) = ReturnWatch"
proof -
  let ?k = "ex_kanban\<lparr>sk_ConnectionKey := ''service-broker'', sk_Metadata := Some ex_meta\<rparr>"
  have "wt_aionSetting ex_watcher = Some ex_routed" by (simp add: ex_watcher_def NewWatcher_def)
  note iff = watch_ends_iff [OF ex_routed_facts(1) this, of ref_api ex_codec ex_struct_codec "''a''" "''1''" ?k]
  have "terminateServiceParser ex_struct_codec (Some ?k) = Inr (''a'', - 1)" by code_simp
  moreover have "sk_ConnectionKey ?k = serviceBrokerName" by (simp add: serviceBrokerName_def)
  moreover have "map_option (map_option ms_Always) (map_of (as_Microservices ex_routed) ''a'') = Some (Some False)" by code_simp
  then obtain m where "map_of (as_Microservices ex_routed) ''a'' = Some (Some m)" "\<not> ms_Always m" by auto
  ultimately show ?thesis using iff by blast
qed

lemma ex_routed_next:
  "GetNextServiceList ex_routed ''a'' (sk_ConnectionKey (ex_kanban\<lparr>sk_NextDeviceName := ''''\<rparr>)) =
    Inr ([Some (init_next_setting (ex_next\<lparr>nss_NextDevice := ''dev''\<rparr>))] @ [Some (init_next_setting ex_next)])"
  by code_simp

theorem routed_to_next_services_witness:
  "\<exists>w'. route ref_api ex_codec ex_routed ''a'' (ex_kanban\<lparr>sk_NextDeviceName := ''''\<rparr>) ex_watcher = (Continue, w') \<and>
    length (wt_sendCh w') = 1 \<and> length (wt_startCh w') = 1 \<and>
    map (map_option sk_NextDeviceName \<circ> sd_AfterKanban \<circ> marshalled (wt_kanbans w')) (wt_sendCh w') = [Some ''here'']"
proof -
  let ?k = "ex_kanban\<lparr>sk_NextDeviceName := ''''\<rparr>"
  have v: "\<forall>v \<in> set [Some (init_next_setting (ex_next\<lparr>nss_NextDevice := ''dev''\<rparr>))]. remote ex_routed ?k v" by code_simp
  have u: "\<forall>v \<in> set [Some (init_next_setting ex_next)]. v \<noteq> None \<and> \<not> remote ex_routed ?k v" by code_simp
  have "GetDeviceName ex_routed = ''here''" by code_simp
  with routed_to_next_services [OF ex_routed_facts ex_routed_next v u, of ref_api ex_codec ex_watcher]
  show ?thesis by (auto simp: ex_watcher_def NewWatcher_def own_name_def)
qed



section \<open>Between two devices\<close>

text \<open>
  A kanban that one device sends for a next service arrives on the other device as if it
  had been delivered locally there: into the same before stream, with a start request for the
  same microservice and number; and no message is lost or reordered between the streams of
  the connection, however often it is lost and made again.
\<close>

theorem remote_delivery:
  "WatchReceiveKanban api jc w (ReceivedKanban (sent_remote as k (Some ns))) =
     w\<lparr>wt_redis := snd (WriteKanban api jc (GetStreamKeyByStatusType (nss_NextServiceName ns) (next_number k ns) StatusType_Before)
         (Some k) (wt_redis w)),
       wt_startCh := wt_startCh w @ [started_local k (Some ns)]\<rparr> \<and>
   fst (connectToServer atts) = concat (map (\<lambda>a. case a of Connection data \<Rightarrow> data | _ \<Rightarrow> [])
     (takeWhile (\<lambda>a. a \<noteq> ContextDone) atts))"
proof -
  have "to_int (to_int32 (next_number k ns)) = next_number k ns"
    by (rule to_int_to_int32) (simp add: next_number_def GetNextNumber_def fits_int32_def [of 1])
  moreover have "fst (connectToServer atts) = concat (map (\<lambda>a. case a of Connection data \<Rightarrow> data | _ \<Rightarrow> [])
     (takeWhile (\<lambda>a. a \<noteq> ContextDone) atts))"
    by (induction atts rule: connectToServer.induct) (simp_all add: split_beta)
  ultimately show ?thesis by (simp add: sent_remote_def started_local_def Let_def)
qed

lemma find_hop_ok:
  assumes "wf_setting as"
  obtains d dv where "find_hop as ns k = Inr (ToDevice d dv)" | "find_hop as ns k = Inr ToLocal"
proof -
  have "map_of (as_Devices as) (target_device k ns) \<noteq> Some None"
    using wf_setting_device [OF assms] by auto
  then consider "map_of (as_Devices as) (target_device k ns) = None"
    | dv where "map_of (as_Devices as) (target_device k ns) = Some (Some dv)"
    by (metis option.exhaust)
  then show ?thesis by cases (auto simp: find_hop_def GetDeviceList_def intro: that)
qed

lemma route_loop_ok:
  assumes "wf_setting as" "None \<notin> set vs"
  shows "fst (route_loop api jc as vs a w) = None"
  using assms(2)
proof (induction vs arbitrary: w)
  case (Cons v vs)
  then obtain ns where v: "v = Some ns" by (cases v) auto
  show ?case
    by (rule find_hop_ok [OF assms(1), of ns "wt_kanbans w ! a"]) (use Cons in \<open>auto simp: v\<close>)
qed simp

lemma next_services_ok:
  assumes "wf_setting as" "GetNextServiceList as name key = r"
  shows "(\<exists>e. r = Inl (Error e)) \<or> (\<exists>vs. r = Inr vs \<and> None \<notin> set vs)"
proof (cases "map_of (as_Microservices as) name")
  case None
  with assms(2) show ?thesis by (auto simp: GetNextServiceList_def no_microservice_def)
next
  case (Some v)
  from wf_setting_ms [OF assms(1) Some] obtain m ns where m: "v = Some m" "ms_NextService m = Some ns"
    "\<forall>(k, nx) \<in> set ns. filled_next nx" by blast
  have "\<exists>c. nx = Some c \<and> None \<notin> set (nx_Settings c)" if "map_of ns k = Some nx" for k nx
    using ball_pairD [OF m(3) map_of_SomeD [OF that]] by (fastforce simp: filled_next_def split: option.splits)
  with assms(2) Some m(1,2) show ?thesis
    by (fastforce simp: GetNextServiceList_def Let_def split: option.splits)
qed

lemma WatchMicroservice_ok:
  assumes "wf_setting as" "wt_aionSetting w = Some as"
  shows "fst (WatchMicroservice api jc sc msName \<lparr>ak_ID = i, ak_Kanban = Some k\<rparr> w) \<in> {Continue, ReturnWatch}"
proof -
  have r: "fst (route api jc as msName k w) = Continue"
    using next_services_ok [OF assms(1) refl, of msName "sk_ConnectionKey k"] route_loop_ok [OF assms(1), of _ api jc "length (wt_kanbans w)" "new_kanban k w"]
    by (auto simp: route_def split: prod.splits option.splits) (metis fst_conv option.distinct(1))
  have t: "e = Error (err_text e)" if "terminateServiceParser sc (Some k) = Inl e" for e
    using that by (auto simp: terminateServiceParser_def split: sum.splits if_splits option.splits)
  have m: "v \<noteq> None" if "map_of (as_Microservices as) name = Some v" for name v
    using wf_setting_ms [OF assms(1) that] by auto
  show ?thesis
    using r m by (auto simp: WatchMicroservice_def assms(2) GetMicroserviceList_def split: sum.splits option.splits)
      (metis t unwind_or_continue.simps(2))+
qed

text \<open>Nor does a step panic, whichever loaded project the watcher has by then.\<close>

lemma take_kanban_ok:
  assumes "wf_setting as" "wt_aionSetting w = Some as" "ak_Kanban ak = Some k"
  shows "\<not> unwinds (fst (take_kanban sc ak w))"
proof -
  have t: "unwind_or_continue e = Continue" if "terminateServiceParser sc (Some k) = Inl e" for e
    using that by (auto simp: terminateServiceParser_def split: sum.splits if_splits option.splits)
  have m: "v \<noteq> None" if "map_of (as_Microservices as) name = Some v" for name v
    using wf_setting_ms [OF assms(1) that] by auto
  show ?thesis
    using m by (auto simp: take_kanban_def assms(2,3) GetMicroserviceList_def t split: sum.splits option.splits)
qed

lemma pass_step_ok:
  assumes "wf_setting as" "wt_aionSetting w = Some as" "None \<notin> set (pass_list p)"
  shows "\<not> unwinds (fst (pass_step api jc name p w))"
proof (cases p)
  case (Choosing a)
  then show ?thesis
    using next_services_ok [OF assms(1) refl, of name "sk_ConnectionKey (wt_kanbans w ! a)"] assms(2) by auto
next
  case (Looping a vs)
  show ?thesis
  proof (cases vs)
    case (Cons v us)
    with assms(3) Looping obtain ns where v: "v = Some ns" by (cases v) auto
    show ?thesis
      by (rule find_hop_ok [OF assms(1), of ns "wt_kanbans w ! a"]) (simp_all add: Looping Cons v assms(2))
  qed (simp add: Looping)
qed (simp_all add: assms(2))

text \<open>
  The watcher does not panic on a loaded project: a kanban that is not nil either ends the
  watch or is skipped or routed.
\<close>

theorem routing_no_panic:
  assumes "wf_setting as" "wt_aionSetting w = Some as"
  shows "fst (WatchMicroservice api jc sc msName \<lparr>ak_ID = i, ak_Kanban = Some k\<rparr> w) \<in> {Continue, ReturnWatch}"
  using assms by (rule WatchMicroservice_ok)

theorem routing_no_panic_witness:
  "fst (WatchMicroservice ref_api ex_codec ex_struct_codec ''unknown'' \<lparr>ak_ID = ''1'', ak_Kanban = Some ex_kanban\<rparr> ex_watcher)
    \<in> {Continue, ReturnWatch}"
  by (rule routing_no_panic [OF ex_routed_facts(1)]) (simp add: ex_watcher_def NewWatcher_def)

end
