(* ===== verification/BrokerSync.thy ===== *)
theory BrokerSync
  imports Watcher
begin

text \<open>
  The goroutines of the service broker and the channels between them: the controller
  (\<open>WatchKanbanForMicroservice\<close>), the receiver of kanbans from other devices
  (\<open>WatchReceiveKanban\<close>), the goroutines that watch instances and the reader of the status
  reports. \<open>startCh\<close> and \<open>aionChForWatcher\<close> have no buffer, so a send and a receive are one step
  of both sides; \<open>aionCh\<close>, the receive channel of the device controller and \<open>updateTrigger\<close> buffer
  one element.
\<close>

text \<open>
  Where the controller is: in its \<open>select\<close>; stopping the old microservices for a new project,
  with a number of status reports to go; handing the project to the receiver; or building and
  starting microservices, again with a number of reports to go. Only a worker reports, and how
  often depends on the project, so any number is possible.
\<close>

datatype controller_pc = CSelect | CStopping AionSetting nat | CForward AionSetting | CBusy nat

text \<open>The receiver has received a project before it assigns it.\<close>

datatype receiver_pc = RSelect | RAssign AionSetting | RStart Container

record sync_state =
  ss_controller :: controller_pc
  ss_receiver :: receiver_pc
  ss_watchers :: "Container list"
  ss_aionCh :: "AionSetting list"
  ss_deviceCh :: "SendKanban list"
  ss_updateTrigger :: nat
  ss_setting :: "AionSetting option"
  ss_watcher_setting :: "AionSetting option"
  ss_taken :: "AionSetting list"
  ss_started :: "Container list"

text \<open>
  \<open>ss_watchers\<close> are the start requests that watching goroutines are blocked on, \<open>ss_updateTrigger\<close>
  is the number of reports in the channel, \<open>ss_taken\<close> are the projects that the controller has
  had, the newest first, and \<open>ss_started\<close> the start requests that it has taken.
\<close>

definition kanban_container :: "SendKanban \<Rightarrow> Container" where
  "kanban_container k = NewContainer (sd_NextService k) (to_int (sd_NextNumber k))"

inductive sync_step :: "sync_state \<Rightarrow> sync_state \<Rightarrow> bool" where
  push_project: "length (ss_aionCh s) < 1 \<Longrightarrow> sync_step s (s\<lparr>ss_aionCh := ss_aionCh s @ [a]\<rparr>)"
| push_kanban: "length (ss_deviceCh s) < 1 \<Longrightarrow> sync_step s (s\<lparr>ss_deviceCh := ss_deviceCh s @ [k]\<rparr>)"
| watcher_routes: "sync_step s (s\<lparr>ss_watchers := ss_watchers s @ [c]\<rparr>)"
| read_report: "0 < ss_updateTrigger s \<Longrightarrow> sync_step s (s\<lparr>ss_updateTrigger := ss_updateTrigger s - 1\<rparr>)"
| take_project: "ss_controller s = CSelect \<Longrightarrow> ss_aionCh s = a # as \<Longrightarrow>
    sync_step s (s\<lparr>ss_controller := CStopping a n, ss_aionCh := as\<rparr>)"
| report_stopped: "ss_controller s = CStopping a (Suc n) \<Longrightarrow> ss_updateTrigger s < 1 \<Longrightarrow>
    sync_step s (s\<lparr>ss_controller := CStopping a n, ss_updateTrigger := ss_updateTrigger s + 1\<rparr>)"
| set_project: "ss_controller s = CStopping a 0 \<Longrightarrow>
    sync_step s (s\<lparr>ss_controller := CForward a, ss_setting := Some a, ss_taken := a # ss_taken s\<rparr>)"
| hand_over: "ss_controller s = CForward a \<Longrightarrow> ss_receiver s = RSelect \<Longrightarrow>
    sync_step s (s\<lparr>ss_controller := CBusy n, ss_receiver := RAssign a\<rparr>)"
| assign_project: "ss_receiver s = RAssign a \<Longrightarrow>
    sync_step s (s\<lparr>ss_receiver := RSelect, ss_watcher_setting := Some a\<rparr>)"
| report_started: "ss_controller s = CBusy (Suc n) \<Longrightarrow> ss_updateTrigger s < 1 \<Longrightarrow>
    sync_step s (s\<lparr>ss_controller := CBusy n, ss_updateTrigger := ss_updateTrigger s + 1\<rparr>)"
| back_to_select: "ss_controller s = CBusy 0 \<Longrightarrow> sync_step s (s\<lparr>ss_controller := CSelect\<rparr>)"
| take_kanban: "ss_receiver s = RSelect \<Longrightarrow> ss_deviceCh s = k # ks \<Longrightarrow>
    sync_step s (s\<lparr>ss_receiver := RStart (kanban_container k), ss_deviceCh := ks\<rparr>)"
| receiver_starts: "ss_receiver s = RStart c \<Longrightarrow> ss_controller s = CSelect \<Longrightarrow>
    sync_step s (s\<lparr>ss_controller := CBusy n, ss_receiver := RSelect, ss_started := ss_started s @ [c]\<rparr>)"
| watcher_starts: "c \<in> set (ss_watchers s) \<Longrightarrow> ss_controller s = CSelect \<Longrightarrow>
    sync_step s (s\<lparr>ss_controller := CBusy n, ss_watchers := remove1 c (ss_watchers s), ss_started := ss_started s @ [c]\<rparr>)"

inductive_cases sync_stepE: "sync_step s s'"

definition sync_init :: sync_state where
  "sync_init = \<lparr>ss_controller = CSelect, ss_receiver = RSelect, ss_watchers = [], ss_aionCh = [], ss_deviceCh = [],
     ss_updateTrigger = 0, ss_setting = None, ss_watcher_setting = None, ss_taken = [], ss_started = []\<rparr>"

abbreviation sync_reach :: "sync_state \<Rightarrow> bool" where
  "sync_reach s \<equiv> sync_step\<^sup>*\<^sup>* sync_init s"

lemmas sync_run = converse_rtranclp_into_rtranclp [of sync_step]

section \<open>The two copies of the setting\<close>

text \<open>A project that was taken, counted back from the newest.\<close>

definition taken_before :: "nat \<Rightarrow> sync_state \<Rightarrow> AionSetting option" where
  "taken_before n s = (if n < length (ss_taken s) then Some (ss_taken s ! n) else None)"

text \<open>How many projects the watchers are behind the controller.\<close>

definition behind :: "sync_state \<Rightarrow> nat" where
  "behind s = (case ss_controller s of CForward a \<Rightarrow> 1 | _ \<Rightarrow> 0) + (case ss_receiver s of RAssign a \<Rightarrow> 1 | _ \<Rightarrow> 0)"

definition settings_agree :: "sync_state \<Rightarrow> bool" where
  "settings_agree s \<longleftrightarrow> ss_setting s = taken_before 0 s \<and> ss_watcher_setting s = taken_before (behind s) s \<and>
     (\<forall>a. ss_controller s = CForward a \<longrightarrow> taken_before 0 s = Some a) \<and>
     (\<forall>a. ss_receiver s = RAssign a \<longrightarrow> taken_before (behind s - 1) s = Some a)"

lemma settings_agree_step: "sync_step s s' \<Longrightarrow> settings_agree s \<Longrightarrow> settings_agree s'"
  by (induction rule: sync_step.induct)
    (auto simp: settings_agree_def behind_def taken_before_def split: receiver_pc.splits if_splits)

lemma settings_agree_init: "settings_agree sync_init"
  by (simp add: settings_agree_def sync_init_def behind_def taken_before_def)

lemma settings_agree_reach: "sync_reach s \<Longrightarrow> settings_agree s"
  by (induction rule: rtranclp_induct) (blast intro: settings_agree_step settings_agree_init)+

text \<open>
  C35. The two copies of the project, whenever a start request is served: the controller starts
  from the project that it has taken last, and the watchers route by the same, except in one
  place: the receiver has received exactly this project and is about to assign it, and then the
  watchers still have the project before it. So the watchers are never behind by more than the
  one project whose assignment is under way.
\<close>

theorem settings_in_step:
  assumes "sync_reach s" "sync_step s s'" "ss_started s' \<noteq> ss_started s"
  shows "ss_controller s = CSelect \<and> ss_setting s = taken_before 0 s \<and> ss_setting s' = ss_setting s \<and>
    (case ss_receiver s of
       RAssign a \<Rightarrow> ss_setting s = Some a \<and> ss_watcher_setting s = taken_before 1 s
     | _ \<Rightarrow> ss_watcher_setting s = ss_setting s)"
  using assms(2,3) settings_agree_reach [OF assms(1)]
  by (auto elim!: sync_stepE simp: settings_agree_def behind_def split: receiver_pc.splits)

text \<open>
  The exception does occur: a request that was made under one project is served under the
  next while the watchers still have the first.
\<close>

lemma start_before_assignment:
  "\<exists>s s'. sync_reach s \<and> sync_step s s' \<and> ss_started s' \<noteq> ss_started s \<and> ss_setting s = Some ex_local_first \<and>
    ss_watcher_setting s = Some ex_routed"
proof -
  let ?c = "NewContainer ''b'' 1"
  define s1 where "s1 = sync_init\<lparr>ss_aionCh := [ex_routed]\<rparr>"
  define s2 where "s2 = sync_init\<lparr>ss_controller := CStopping ex_routed 0\<rparr>"
  define s3 where "s3 = sync_init\<lparr>ss_controller := CForward ex_routed, ss_setting := Some ex_routed, ss_taken := [ex_routed]\<rparr>"
  define s4 where "s4 = s3\<lparr>ss_controller := CBusy 0, ss_receiver := RAssign ex_routed\<rparr>"
  define s5 where "s5 = s4\<lparr>ss_receiver := RSelect, ss_watcher_setting := Some ex_routed\<rparr>"
  define s6 where "s6 = s5\<lparr>ss_controller := CSelect\<rparr>"
  define s7 where "s7 = s6\<lparr>ss_watchers := [?c]\<rparr>"
  define s8 where "s8 = s7\<lparr>ss_aionCh := [ex_local_first]\<rparr>"
  define s9 where "s9 = s7\<lparr>ss_controller := CStopping ex_local_first 0\<rparr>"
  define s10 where "s10 = s7\<lparr>ss_controller := CForward ex_local_first, ss_setting := Some ex_local_first,
    ss_taken := [ex_local_first, ex_routed]\<rparr>"
  define s11 where "s11 = s10\<lparr>ss_controller := CBusy 0, ss_receiver := RAssign ex_local_first\<rparr>"
  define s12 where "s12 = s11\<lparr>ss_controller := CSelect\<rparr>"
  note defs = s1_def s2_def s3_def s4_def s5_def s6_def s7_def s8_def s9_def s10_def s11_def s12_def sync_init_def
  have steps: "sync_step sync_init s1" "sync_step s1 s2" "sync_step s2 s3" "sync_step s3 s4" "sync_step s4 s5" "sync_step s5 s6"
    "sync_step s6 s7" "sync_step s7 s8" "sync_step s8 s9" "sync_step s9 s10" "sync_step s10 s11" "sync_step s11 s12"
    using push_project [of sync_init ex_routed] take_project [of s1 ex_routed "[]" 0] set_project [of s2 ex_routed]
      hand_over [of s3 ex_routed 0] assign_project [of s4 ex_routed] back_to_select [of s5] watcher_routes [of s6 ?c]
      push_project [of s7 ex_local_first] take_project [of s8 ex_local_first "[]" 0] set_project [of s9 ex_local_first]
      hand_over [of s10 ex_local_first 0] back_to_select [of s11]
    by (simp_all add: defs)
  have "sync_reach s12"
    by (rule sync_run, rule steps, rule sync_run, rule steps, rule sync_run, rule steps, rule sync_run, rule steps,
        rule sync_run, rule steps, rule sync_run, rule steps, rule sync_run, rule steps, rule sync_run, rule steps,
        rule sync_run, rule steps, rule sync_run, rule steps, rule sync_run, rule steps, rule r_into_rtranclp, rule steps)
  moreover have "sync_step s12 (s12\<lparr>ss_controller := CBusy 0, ss_watchers := [], ss_started := [?c]\<rparr>)"
    using watcher_starts [of ?c s12 0] by (simp add: defs)
  ultimately show ?thesis
    by (intro exI [of _ s12] exI [of _ "s12\<lparr>ss_controller := CBusy 0, ss_watchers := [], ss_started := [?c]\<rparr>"])
      (simp add: defs)
qed

section \<open>Progress and deadlock\<close>

definition stuck :: "sync_state \<Rightarrow> bool" where
  "stuck s \<longleftrightarrow> (\<exists>a c. ss_controller s = CForward a \<and> ss_receiver s = RStart c)"

text \<open>
  A step of the controller or of the receiver, when the reports that wait have been read as
  far as necessary. The reader of the reports does nothing else but pass them on, and its
  failure ends the process.
\<close>

definition broker_moves :: "sync_state \<Rightarrow> sync_state \<Rightarrow> bool" where
  "broker_moves s s' \<longleftrightarrow> (\<exists>n \<le> ss_updateTrigger s. sync_step (s\<lparr>ss_updateTrigger := n\<rparr>) s' \<and>
     (ss_controller s' \<noteq> ss_controller s \<or> ss_receiver s' \<noteq> ss_receiver s \<or> ss_started s' \<noteq> ss_started s))"

lemma broker_movesI:
  "sync_step s s' \<Longrightarrow> ss_controller s' \<noteq> ss_controller s \<or> ss_receiver s' \<noteq> ss_receiver s \<or> ss_started s' \<noteq> ss_started s \<Longrightarrow>
    broker_moves s s'"
  unfolding broker_moves_def by (intro exI [of _ "ss_updateTrigger s"]) simp

definition has_work :: "sync_state \<Rightarrow> bool" where
  "has_work s \<longleftrightarrow> ss_aionCh s \<noteq> [] \<or> ss_deviceCh s \<noteq> [] \<or> ss_watchers s \<noteq> [] \<or>
     ss_controller s \<noteq> CSelect \<or> ss_receiver s \<noteq> RSelect"

lemma reporting_moves:
  "ss_controller s = CStopping a (Suc n) \<Longrightarrow> \<exists>s'. broker_moves s s'"
  "ss_controller s = CBusy (Suc n) \<Longrightarrow> \<exists>s'. broker_moves s s'"
  using report_stopped [of "s\<lparr>ss_updateTrigger := 0\<rparr>" a n] report_started [of "s\<lparr>ss_updateTrigger := 0\<rparr>" n]
  unfolding broker_moves_def by fastforce+

text \<open>
  C36. The broker can always go on with the work it has, except in one kind of state: the
  controller is handing a new project to the receiver while the receiver is handing a start
  request to the controller. In every other state with a project, a kanban
  or a start request pending, the controller or the receiver has a step, at most after the
  status reports that wait have been read.
\<close>

theorem broker_progress:
  assumes "has_work s"
  shows "(\<exists>s'. broker_moves s s') \<longleftrightarrow> \<not> stuck s"
proof -
  have step: "\<exists>s'. broker_moves s s'" if "\<not> stuck s"
  proof (cases "ss_receiver s")
    case (RAssign a)
    from broker_movesI [OF assign_project [OF RAssign]] show ?thesis by (auto simp: RAssign)
  next
    case (RStart x)
    with that consider "ss_controller s = CSelect" | a n where "ss_controller s = CStopping a n" | n where "ss_controller s = CBusy n"
      by (cases "ss_controller s") (auto simp: stuck_def)
    then show ?thesis
    proof cases
      case 1
      from broker_movesI [OF receiver_starts [OF RStart 1, of 0]] show ?thesis by (auto simp: RStart)
    next
      case (2 a n)
      then show ?thesis
        using reporting_moves [of s] broker_movesI [OF set_project [of s a]] by (cases n) auto
    next
      case (3 n)
      then show ?thesis
        using reporting_moves [of s] broker_movesI [OF back_to_select [of s]] by (cases n) auto
    qed
  next
    case r: RSelect
    show ?thesis
    proof (cases "ss_controller s")
      case (CForward a)
      from broker_movesI [OF hand_over [OF CForward r, of 0]] show ?thesis by (auto simp: CForward)
    next
      case (CStopping a n)
      then show ?thesis
        using reporting_moves [of s] broker_movesI [OF set_project [of s a]] by (cases n) auto
    next
      case (CBusy n)
      then show ?thesis
        using reporting_moves [of s] broker_movesI [OF back_to_select [of s]] by (cases n) auto
    next
      case c: CSelect
      consider a as where "ss_aionCh s = a # as" | k ks where "ss_deviceCh s = k # ks" | x xs where "ss_watchers s = x # xs"
        using assms by (auto simp: has_work_def c r neq_Nil_conv)
      then show ?thesis
      proof cases
        case 1
        from broker_movesI [OF take_project [OF c 1, of 0]] show ?thesis by (auto simp: c)
      next
        case 2
        from broker_movesI [OF take_kanban [OF r 2]] show ?thesis by (auto simp: r)
      next
        case 3
        then have "x \<in> set (ss_watchers s)" by simp
        from broker_movesI [OF watcher_starts [OF this c, of 0]] show ?thesis by auto
      qed
    qed
  qed
  have "\<not> broker_moves s s'" if "stuck s" for s'
    using that by (auto simp: stuck_def broker_moves_def elim!: sync_stepE)
  with step show ?thesis by blast
qed

theorem broker_progress_witness: "\<exists>s'. broker_moves (sync_init\<lparr>ss_aionCh := [ex_routed]\<rparr>) s'"
proof -
  have "has_work (sync_init\<lparr>ss_aionCh := [ex_routed]\<rparr>)" by (simp add: has_work_def)
  from broker_progress [OF this] show ?thesis by (simp add: stuck_def sync_init_def)
qed

lemma stuck_step:
  "sync_step s s' \<Longrightarrow> stuck s \<Longrightarrow>
    stuck s' \<and> ss_started s' = ss_started s \<and> ss_setting s' = ss_setting s \<and> ss_watcher_setting s' = ss_watcher_setting s"
  by (induction rule: sync_step.induct) (auto simp: stuck_def)

text \<open>
  C27. The broker can deadlock: when a new project and a kanban from another device are pending
  at once, the controller can take the project and the receiver the kanban, and from then on
  no project is handed over and no microservice is started any more, whatever else happens.
\<close>

theorem broker_deadlock:
  "\<exists>s. sync_reach s \<and> stuck s \<and> {s'. sync_step\<^sup>*\<^sup>* s s'} \<subseteq> {s'. stuck s' \<and> ss_started s' = ss_started s \<and>
     ss_watcher_setting s' = ss_watcher_setting s}"
proof -
  let ?k = "\<lparr>sd_DeviceName = '''', sd_DeviceAddr = '''', sd_NextService = ''a'', sd_NextNumber = 1, sd_AfterKanban = None\<rparr>"
  let ?s1 = "sync_init\<lparr>ss_aionCh := [ex_routed]\<rparr>"
  let ?s2 = "?s1\<lparr>ss_deviceCh := [?k]\<rparr>"
  let ?s3 = "?s2\<lparr>ss_controller := CStopping ex_routed 0, ss_aionCh := []\<rparr>"
  let ?s4 = "?s3\<lparr>ss_controller := CForward ex_routed, ss_setting := Some ex_routed, ss_taken := [ex_routed]\<rparr>"
  let ?s5 = "?s4\<lparr>ss_receiver := RStart (kanban_container ?k), ss_deviceCh := []\<rparr>"
  have "sync_step sync_init ?s1" using push_project [of sync_init ex_routed] by (simp add: sync_init_def)
  moreover have "sync_step ?s1 ?s2" using push_kanban [of ?s1 ?k] by (simp add: sync_init_def)
  moreover have "sync_step ?s2 ?s3" using take_project [of ?s2 ex_routed "[]" 0] by (simp add: sync_init_def)
  moreover have "sync_step ?s3 ?s4" using set_project [of ?s3 ex_routed] by (simp add: sync_init_def)
  moreover have "sync_step ?s4 ?s5" using take_kanban [of ?s4 ?k "[]"] by (simp add: sync_init_def)
  ultimately have "sync_reach ?s5" by (meson rtranclp.rtrancl_into_rtrancl rtranclp.rtrancl_refl)
  moreover have st: "stuck ?s5" by (simp add: stuck_def)
  moreover have "stuck s' \<and> ss_started s' = ss_started ?s5 \<and> ss_watcher_setting s' = ss_watcher_setting ?s5"
    if "sync_step\<^sup>*\<^sup>* ?s5 s'" for s'
    using that by (induction rule: rtranclp_induct) (use st stuck_step in \<open>auto simp del: sync_state.simps\<close>)
  ultimately show ?thesis by blast
qed

theorem settings_in_step_witness:
  "\<exists>s s'. sync_step s s' \<and> ss_started s' \<noteq> ss_started s \<and> ss_controller s = CSelect \<and> ss_watcher_setting s = ss_setting s"
proof -
  let ?c = "NewContainer ''a'' 1"
  let ?s = "sync_init\<lparr>ss_watchers := [?c]\<rparr>"
  have r: "sync_reach ?s" using watcher_routes [of sync_init ?c] by (auto simp: sync_init_def)
  have s: "sync_step ?s (?s\<lparr>ss_controller := CBusy 0, ss_watchers := remove1 ?c (ss_watchers ?s), ss_started := ss_started ?s @ [?c]\<rparr>)"
    by (rule watcher_starts) (simp_all add: sync_init_def)
  have "ss_started (?s\<lparr>ss_controller := CBusy 0, ss_watchers := remove1 ?c (ss_watchers ?s), ss_started := ss_started ?s @ [?c]\<rparr>) \<noteq> ss_started ?s"
    by simp
  from settings_in_step [OF r s this] s this show ?thesis
    by (intro exI conjI) (assumption, assumption, simp, simp add: sync_init_def)
qed

end
