(* ===== verification/K8s.thy ===== *)
theory K8s
  imports Config
begin

text \<open>
  The Kubernetes resources of a microservice (pkg/k8s): names and labels, the pod template,
  the job, deployment, service and config-map objects, and their Apply and Delete. The API
  server is an arbitrary function from the calls made so far to the error, if any, of the
  last one, so what is proved holds for every behaviour of the cluster; the state the
  operations thread is that list of calls. \<open>resource.MustParse\<close>, the embedded file system
  and \<open>retry.Do\<close> are parameters.
\<close>

section \<open>Names and labels\<close>

record K8sEnv =
  ke_AionDataPath :: string
  ke_RepositoryPrefix :: string
  ke_Namespace :: string
  ke_RegistrySecret :: string

definition NewK8sEnv :: "string \<Rightarrow> string \<Rightarrow> string \<Rightarrow> string \<Rightarrow> K8sEnv" where
  "NewK8sEnv aionDataPath repositoryPrefix namespace registrySecret =
     \<lparr>ke_AionDataPath = aionDataPath, ke_RepositoryPrefix = repositoryPrefix,
      ke_Namespace = namespace, ke_RegistrySecret = registrySecret\<rparr>"

text \<open>The part of a service name after the last slash and before the first colon of that part.\<close>

definition base_name :: "string \<Rightarrow> string" where
  "base_name serviceName = hd (split_on (CHR '':'') (last (split_on (CHR ''/'') serviceName)))"

definition getLabelName :: "string \<Rightarrow> int \<Rightarrow> string" where
  "getLabelName serviceName number = base_name serviceName @ ''-'' @ pad0 3 number"

definition getLabelNameWithoutTargetNode :: "string \<Rightarrow> int \<Rightarrow> string" where
  "getLabelNameWithoutTargetNode serviceName number = base_name serviceName @ ''-'' @ pad0 3 number"

definition getLabelMap :: "string \<Rightarrow> int \<Rightarrow> (string, string) gomap" where
  "getLabelMap serviceName number = [(''run'', getLabelNameWithoutTargetNode serviceName number)]"

record ObjectMeta =
  om_Labels :: "(string, string) gomap"
  om_Name :: string
  om_Namespace :: string

definition getObjectMeta :: "string \<Rightarrow> string \<Rightarrow> int \<Rightarrow> string \<Rightarrow> ObjectMeta" where
  "getObjectMeta namespace serviceName number targetNode =
     \<lparr>om_Labels = getLabelMap serviceName number, om_Name = getLabelName serviceName number,
      om_Namespace = namespace\<rparr>"

section \<open>Pods\<close>

record ContainerPort =
  cp_Name :: string
  cp_ContainerPort :: int32
  cp_Protocol :: string

record EnvVar =
  ev_Name :: string
  ev_Value :: string

record VolumeMount =
  vm_Name :: string
  vm_MountPath :: string
  vm_MountPropagation :: "string option"

datatype VolumeSource = HostPath string | ConfigMapVolume string

record Volume =
  vo_Name :: string
  vo_Source :: VolumeSource

record 'q ResourceRequirements =
  rr_Limits :: "(string, 'q) gomap option"
  rr_Requests :: "(string, 'q) gomap option"

record 'q Container =
  ct_Name :: string
  ct_Image :: string
  ct_Command :: "string list"
  ct_Args :: "string list"
  ct_ImagePullPolicy :: string
  ct_Privileged :: "bool option"
  ct_Ports :: "ContainerPort list"
  ct_Env :: "EnvVar list"
  ct_VolumeMounts :: "VolumeMount list"
  ct_Resources :: "'q ResourceRequirements"

record 'q PodTemplate =
  pt_Labels :: "(string, string) gomap"
  pt_Hostname :: string
  pt_ShareProcessNamespace :: bool
  pt_ServiceAccountName :: string
  pt_ImagePullSecrets :: "string list"
  pt_Containers :: "'q Container list"
  pt_Volumes :: "Volume list"
  pt_NodeSelector :: "(string, string) gomap option"
  pt_RestartPolicy :: string

record Pod =
  pd_name :: string
  pd_serviceName :: string
  pd_tag :: string
  pd_number :: int
  pd_command :: "string list"
  pd_ports :: "PortConfig option list"
  pd_env :: "(string, string) gomap"
  pd_volumeMountPathList :: "string list"
  pd_serviceAccount :: string
  pd_privileged :: bool
  pd_k8sEnv :: K8sEnv
  pd_TargetNode :: string
  pd_Resources :: "Resources option"

definition NewPod :: "string \<Rightarrow> string \<Rightarrow> int \<Rightarrow> string list \<Rightarrow> PortConfig option list \<Rightarrow> (string, string) gomap \<Rightarrow>
    string list \<Rightarrow> string \<Rightarrow> bool \<Rightarrow> K8sEnv \<Rightarrow> string \<Rightarrow> Resources option \<Rightarrow> Pod" where
  "NewPod serviceName tag number command ports env volumeMountPathList serviceAccount privileged
     k8sEnv targetNode resources =
     \<lparr>pd_name = getLabelName serviceName number, pd_serviceName = serviceName, pd_tag = tag,
      pd_number = number, pd_command = command, pd_ports = ports, pd_env = env,
      pd_volumeMountPathList = volumeMountPathList, pd_serviceAccount = serviceAccount,
      pd_privileged = privileged, pd_k8sEnv = k8sEnv, pd_TargetNode = targetNode,
      pd_Resources = resources\<rparr>"

definition pod_port :: "PortConfig option \<Rightarrow> ContainerPort result" where
  "pod_port port = (case port of None \<Rightarrow> Inl nil_deref
     | Some p \<Rightarrow> Inr \<lparr>cp_Name = pc_Name p, cp_ContainerPort = pc_Port p, cp_Protocol = pc_Protocol p\<rparr>)"

definition getPortList :: "Pod \<Rightarrow> ContainerPort list result" where
  "getPortList p = rmap pod_port (pd_ports p)"

definition getEnvList :: "Pod \<Rightarrow> EnvVar list" where
  "getEnvList p = \<lparr>ev_Name = ''SERVICE_NAME'', ev_Value = pd_serviceName p\<rparr>
     # map (\<lambda>(key, value). \<lparr>ev_Name = key, ev_Value = value\<rparr>) (pd_env p)"

definition volume_mount :: "nat \<times> string \<Rightarrow> VolumeMount" where
  "volume_mount kv = (case kv of (key, value) \<Rightarrow>
     (let sValue = split_on (CHR '':'') value;
          hostPath = hd sValue;
          mountPropagationType =
            (if 2 < length sValue \<and> sValue ! 2 = ''Bidirectional'' then ''Bidirectional'' else ''None'')
      in \<lparr>vm_Name = ''data-'' @ itoa (int key), vm_MountPath = hostPath,
          vm_MountPropagation = Some mountPropagationType\<rparr>))"

definition getVolumeMountList :: "Pod \<Rightarrow> VolumeMount list" where
  "getVolumeMountList p =
     \<lparr>vm_Name = ''aion-data'', vm_MountPath = ke_AionDataPath (pd_k8sEnv p), vm_MountPropagation = None\<rparr>
     # map volume_mount (enumerate 0 (pd_volumeMountPathList p))"

fun host_path_parts :: "string \<Rightarrow> string list \<Rightarrow> string" where
  "host_path_parts ns [] = ''''"
| "host_path_parts ns [p] = ns @ ''/'' @ p @ ''/''"
| "host_path_parts ns (p # q # ps) = p @ ''/'' @ host_path_parts ns (q # ps)"

definition getHostAionDataPath :: "Pod \<Rightarrow> string" where
  "getHostAionDataPath p =
     host_path_parts (ke_Namespace (pd_k8sEnv p)) (split_on (CHR ''/'') (ke_AionDataPath (pd_k8sEnv p)))"

definition volume :: "nat \<times> string \<Rightarrow> Volume result" where
  "volume kv = (case kv of (key, value) \<Rightarrow>
     (case index (split_on (CHR '':'') value) 1 of
        Inl e \<Rightarrow> Inl e
      | Inr containerPath \<Rightarrow> Inr \<lparr>vo_Name = ''data-'' @ itoa (int key), vo_Source = HostPath containerPath\<rparr>))"

definition getVolumeList :: "Pod \<Rightarrow> Volume list result" where
  "getVolumeList p =
     (case rmap volume (enumerate 0 (pd_volumeMountPathList p)) of
        Inl e \<Rightarrow> Inl e
      | Inr vs \<Rightarrow> Inr (\<lparr>vo_Name = ''aion-data'', vo_Source = HostPath (getHostAionDataPath p)\<rparr>
          # \<lparr>vo_Name = ''envoy'',
             vo_Source = ConfigMapVolume (''envoy-config-'' @ getLabelName (pd_serviceName p) (pd_number p))\<rparr>
          # vs))"

definition getNodeSelector :: "Pod \<Rightarrow> (string, string) gomap option" where
  "getNodeSelector p =
     (if pd_TargetNode p \<noteq> '''' then Some [(''kubernetes.io/hostname'', pd_TargetNode p)] else None)"

text \<open>One of the two resource lists; \<open>parse\<close> is \<open>resource.MustParse\<close>, which may panic.\<close>

definition resource_list :: "(string \<Rightarrow> 'q result) \<Rightarrow> ResourceConfig option \<Rightarrow> (string, 'q) gomap option result" where
  "resource_list parse c = (case c of None \<Rightarrow> Inr None
     | Some rc \<Rightarrow>
        (case (if rc_Memory rc = '''' then Inr [] else
                 (case parse (rc_Memory rc) of Inl e \<Rightarrow> Inl e | Inr q \<Rightarrow> Inr [(''memory'', q)])) of
           Inl e \<Rightarrow> Inl e
         | Inr l \<Rightarrow>
            (if rc_Cpu rc = '''' then Inr (Some l) else
               (case parse (rc_Cpu rc) of Inl e \<Rightarrow> Inl e | Inr q \<Rightarrow> Inr (Some (put ''cpu'' q l))))))"

definition getResources :: "(string \<Rightarrow> 'q result) \<Rightarrow> Pod \<Rightarrow> 'q ResourceRequirements result" where
  "getResources parse p = (case pd_Resources p of
       None \<Rightarrow> Inr \<lparr>rr_Limits = None, rr_Requests = None\<rparr>
     | Some rs \<Rightarrow>
        (case resource_list parse (rs_Limits rs) of
           Inl e \<Rightarrow> Inl e
         | Inr l \<Rightarrow> (case resource_list parse (rs_Requests rs) of
             Inl e \<Rightarrow> Inl e
           | Inr r \<Rightarrow> Inr \<lparr>rr_Limits = l, rr_Requests = r\<rparr>)))"

definition getContainer :: "(string \<Rightarrow> 'q result) \<Rightarrow> Pod \<Rightarrow> 'q Container result" where
  "getContainer parse p = (case getPortList p of Inl e \<Rightarrow> Inl e | Inr ports \<Rightarrow>
     (case getResources parse p of Inl e \<Rightarrow> Inl e | Inr res \<Rightarrow>
       Inr \<lparr>ct_Name = pd_name p,
            ct_Image = ke_RepositoryPrefix (pd_k8sEnv p) @ ''/'' @ pd_serviceName p @ '':'' @ pd_tag p,
            ct_Command = pd_command p, ct_Args = [], ct_ImagePullPolicy = ''IfNotPresent'',
            ct_Privileged = Some (pd_privileged p), ct_Ports = ports, ct_Env = getEnvList p,
            ct_VolumeMounts = getVolumeMountList p, ct_Resources = res\<rparr>))"

definition getEnvoyContainer :: "(string \<Rightarrow> 'q result) \<Rightarrow> Pod \<Rightarrow> 'q Container result" where
  "getEnvoyContainer parse p = (case parse ''512Mi'' of Inl e \<Rightarrow> Inl e | Inr lim \<Rightarrow>
     (case parse ''64Mi'' of Inl e \<Rightarrow> Inl e | Inr req \<Rightarrow>
       Inr \<lparr>ct_Name = ''envoy'', ct_Image = ''envoyproxy/envoy:v1.16-latest'',
            ct_Command = [''/usr/local/bin/envoy''],
            ct_Args = [''--config-path'', ''/etc/envoy/envoy.yaml'', ''-l'', ''debug''],
            ct_ImagePullPolicy = ''IfNotPresent'', ct_Privileged = None,
            ct_Ports = [\<lparr>cp_Name = ''envoy-admin'', cp_ContainerPort = 10001, cp_Protocol = ''''\<rparr>],
            ct_Env = [],
            ct_VolumeMounts = [\<lparr>vm_Name = ''envoy'', vm_MountPath = ''/etc/envoy'', vm_MountPropagation = None\<rparr>],
            ct_Resources = \<lparr>rr_Limits = Some [(''memory'', lim)], rr_Requests = Some [(''memory'', req)]\<rparr>\<rparr>))"

definition pod_config :: "(string \<Rightarrow> 'q result) \<Rightarrow> Pod \<Rightarrow> 'q PodTemplate result" where
  "pod_config parse p = (case getContainer parse p of Inl e \<Rightarrow> Inl e | Inr c \<Rightarrow>
     (case getEnvoyContainer parse p of Inl e \<Rightarrow> Inl e | Inr envoy \<Rightarrow>
       (case getVolumeList p of Inl e \<Rightarrow> Inl e | Inr vs \<Rightarrow>
         Inr \<lparr>pt_Labels = getLabelMap (pd_serviceName p) (pd_number p), pt_Hostname = pd_name p,
              pt_ShareProcessNamespace = True, pt_ServiceAccountName = pd_serviceAccount p,
              pt_ImagePullSecrets = [ke_RegistrySecret (pd_k8sEnv p)],
              pt_Containers = [c, envoy], pt_Volumes = vs, pt_NodeSelector = getNodeSelector p,
              pt_RestartPolicy = ''''\<rparr>)))"


section \<open>Objects and calls\<close>

record 'q DeploymentObject =
  dp_Meta :: ObjectMeta
  dp_Replicas :: int32
  dp_MatchLabels :: "(string, string) gomap"
  dp_Template :: "'q PodTemplate"

record 'q JobObject =
  jb_Meta :: ObjectMeta
  jb_Completions :: int32
  jb_Parallelism :: int32
  jb_BackoffLimit :: int32
  jb_TTLSecondsAfterFinished :: int32
  jb_Template :: "'q PodTemplate"

record ServicePort =
  sp_Name :: string
  sp_Protocol :: string
  sp_Port :: int32
  sp_TargetPort :: "int option"
  sp_NodePort :: int32

record ServiceObject =
  so_Meta :: ObjectMeta
  so_Type :: string
  so_Ports :: "ServicePort list"
  so_Selector :: "(string, string) gomap"
  so_TopologyKeys :: "string list"

record ConfigMapObject =
  co_Name :: string
  co_Namespace :: string
  co_Data :: "(string, string) gomap"

datatype kind = KConfigMap | KDeployment | KJob | KService

datatype 'q k8s_obj =
    ODeployment "'q DeploymentObject"
  | OJob "'q JobObject"
  | OService ServiceObject
  | OConfigMap ConfigMapObject

datatype 'q k8s_call =
    Get kind string
  | Create kind "'q k8s_obj"
  | Update kind "'q k8s_obj"
  | DeleteObj kind string

text \<open>The API server: the error of the last of the calls made so far.\<close>

type_synonym 'q server = "'q k8s_call list \<Rightarrow> string option"
type_synonym 'q calls = "'q k8s_call list"

definition api_call :: "'q server \<Rightarrow> 'q k8s_call \<Rightarrow> 'q calls \<Rightarrow> string option \<times> 'q calls" where
  "api_call srv c h = (srv (h @ [c]), h @ [c])"

lemma api_call_simps [simp]:
  "fst (api_call srv c h) = srv (h @ [c])" "snd (api_call srv c h) = h @ [c]"
  by (simp_all add: api_call_def)

definition connRetryCount :: nat where "connRetryCount = 30"

text \<open>The function that the four Delete operations retry: it succeeds when Get fails.\<close>

definition check_gone :: "'q server \<Rightarrow> kind \<Rightarrow> string \<Rightarrow> string \<Rightarrow> 'q calls \<Rightarrow> go_error option \<times> 'q calls" where
  "check_gone srv kd name msg h = (case api_call srv (Get kd name) h of
     (Some e, h') \<Rightarrow> (None, h') | (None, h') \<Rightarrow> (Some (Error msg), h'))"

definition delete_and_wait :: "'q server \<Rightarrow> 'q calls retrier \<Rightarrow> kind \<Rightarrow> string \<Rightarrow> string \<Rightarrow> string \<Rightarrow> string \<Rightarrow>
    'q calls \<Rightarrow> go_error option \<times> 'q calls" where
  "delete_and_wait srv retry kd delName getName failed still h =
     (case api_call srv (DeleteObj kd delName) h of
        (Some e, h') \<Rightarrow> (Some (Error (failed @ e)), h')
      | (None, h') \<Rightarrow> retry connRetryCount (check_gone srv kd getName still) h')"

section \<open>Config maps\<close>

record ConfigMap =
  cm_serviceName :: string
  cm_name :: string
  cm_number :: int
  cm_k8sEnv :: K8sEnv

definition NewConfigMap :: "string \<Rightarrow> int \<Rightarrow> K8sEnv \<Rightarrow> string \<Rightarrow> ConfigMap" where
  "NewConfigMap serviceName number k8sEnv targetNode =
     \<lparr>cm_serviceName = serviceName, cm_name = ''envoy-config-'' @ getLabelName serviceName number,
      cm_number = number, cm_k8sEnv = k8sEnv\<rparr>"

text \<open>\<open>statik\<close> reads a file of the embedded file system.\<close>

definition ConfigMap_config :: "(string \<Rightarrow> string result) \<Rightarrow> ConfigMap \<Rightarrow> ConfigMapObject result" where
  "ConfigMap_config statik c = (case statik ''/envoy.yaml'' of Inl e \<Rightarrow> Inl e | Inr conf \<Rightarrow>
     Inr \<lparr>co_Name = cm_name c, co_Namespace = ke_Namespace (cm_k8sEnv c),
          co_Data = [(''envoy.yaml'', replace_all ''{MICROSERVICE_NAME}'' (cm_serviceName c) conf)]\<rparr>)"

definition ConfigMap_Apply :: "(string \<Rightarrow> string result) \<Rightarrow> 'q server \<Rightarrow> ConfigMap \<Rightarrow> 'q calls \<Rightarrow> go_error option \<times> 'q calls" where
  "ConfigMap_Apply statik srv c h =
     (case ConfigMap_config statik c of
        Inl (Panic p) \<Rightarrow> (Some (Panic p), h)
      | Inl e \<Rightarrow> (Some (Error (''[k8s] create confg is failed: '' @ err_text e)), h)
      | Inr config \<Rightarrow>
         (case api_call srv (Get KConfigMap (cm_name c)) h of
            (Some _, h1) \<Rightarrow>
              (case api_call srv (Create KConfigMap (OConfigMap config)) h1 of
                 (Some e, h2) \<Rightarrow> (Some (Error (''[k8s] create confg map is failed: '' @ e)), h2)
               | (None, h2) \<Rightarrow> (None, h2))
          | (None, h1) \<Rightarrow>
              (case api_call srv (Update KConfigMap (OConfigMap config)) h1 of
                 (Some e, h2) \<Rightarrow> (Some (Error (''[k8s] update config map is failed: '' @ e)), h2)
               | (None, h2) \<Rightarrow> (None, h2))))"

definition ConfigMap_Delete :: "'q server \<Rightarrow> 'q calls retrier \<Rightarrow> ConfigMap \<Rightarrow> 'q calls \<Rightarrow> go_error option \<times> 'q calls" where
  "ConfigMap_Delete srv retry c h =
     delete_and_wait srv retry KConfigMap (''envoy-config-'' @ getLabelName (cm_serviceName c) (cm_number c))
       (cm_name c) ''[k8s] Delete config map is failed: '' ''[k8s] Config map is not deleted'' h"

section \<open>Deployments\<close>

record Deployment =
  de_name :: string
  de_serviceName :: string
  de_pod :: Pod
  de_k8sEnv :: K8sEnv

definition NewDeployment :: "string \<Rightarrow> string \<Rightarrow> int \<Rightarrow> string list \<Rightarrow> PortConfig option list \<Rightarrow> (string, string) gomap \<Rightarrow>
    string list \<Rightarrow> string \<Rightarrow> bool \<Rightarrow> K8sEnv \<Rightarrow> string \<Rightarrow> Resources option \<Rightarrow> Deployment" where
  "NewDeployment serviceName tag number command ports env volumeMountPathList serviceAccount privileged
     k8sEnv targetNode resources =
     \<lparr>de_name = getLabelName serviceName number, de_serviceName = serviceName,
      de_pod = NewPod serviceName tag number command ports env volumeMountPathList serviceAccount
        privileged k8sEnv targetNode resources,
      de_k8sEnv = k8sEnv\<rparr>"

definition Deployment_config :: "(string \<Rightarrow> 'q result) \<Rightarrow> Deployment \<Rightarrow> 'q DeploymentObject result" where
  "Deployment_config parse d = (case pod_config parse (de_pod d) of Inl e \<Rightarrow> Inl e | Inr t \<Rightarrow>
     Inr \<lparr>dp_Meta = getObjectMeta (ke_Namespace (de_k8sEnv d)) (de_serviceName d) (pd_number (de_pod d))
            (pd_TargetNode (de_pod d)),
          dp_Replicas = 1, dp_MatchLabels = getLabelMap (de_serviceName d) (pd_number (de_pod d)),
          dp_Template = t\<rparr>)"

definition Deployment_Apply :: "(string \<Rightarrow> 'q result) \<Rightarrow> 'q server \<Rightarrow> Deployment \<Rightarrow> 'q calls \<Rightarrow> go_error option \<times> 'q calls" where
  "Deployment_Apply parse srv d h =
     (case Deployment_config parse d of
        Inl e \<Rightarrow> (Some e, h)
      | Inr dplConfig \<Rightarrow>
         (case api_call srv (Get KDeployment (de_name d)) h of
            (Some _, h1) \<Rightarrow>
              (case api_call srv (Create KDeployment (ODeployment dplConfig)) h1 of
                 (Some e, h2) \<Rightarrow> (Some (Error (''[k8s] apply deployment is failed: '' @ e)), h2)
               | (None, h2) \<Rightarrow> (None, h2))
          | (None, h1) \<Rightarrow>
              (case api_call srv (Update KDeployment (ODeployment dplConfig)) h1 of
                 (Some e, h2) \<Rightarrow> (Some (Error (''[k8s] apply deployment is failed: '' @ e)), h2)
               | (None, h2) \<Rightarrow> (None, h2))))"

definition Deployment_Delete :: "'q server \<Rightarrow> 'q calls retrier \<Rightarrow> Deployment \<Rightarrow> 'q calls \<Rightarrow> go_error option \<times> 'q calls" where
  "Deployment_Delete srv retry d h =
     delete_and_wait srv retry KDeployment (de_name d) (de_name d)
       ''[k8s] Delete deployment is failed: '' ''[k8s] Deployment is not deleted'' h"

section \<open>Jobs\<close>

record Job =
  jo_name :: string
  jo_serviceName :: string
  jo_pod :: Pod
  jo_k8sEnv :: K8sEnv

definition NewJob :: "string \<Rightarrow> string \<Rightarrow> int \<Rightarrow> string list \<Rightarrow> PortConfig option list \<Rightarrow> (string, string) gomap \<Rightarrow>
    string list \<Rightarrow> string \<Rightarrow> bool \<Rightarrow> K8sEnv \<Rightarrow> string \<Rightarrow> Resources option \<Rightarrow> Job" where
  "NewJob serviceName tag number command ports env volumeMountPathList serviceAccount privileged
     k8sEnv targetNode resources =
     \<lparr>jo_name = getLabelName serviceName number, jo_serviceName = serviceName,
      jo_pod = NewPod serviceName tag number command ports env volumeMountPathList serviceAccount
        privileged k8sEnv targetNode resources,
      jo_k8sEnv = k8sEnv\<rparr>"

definition Job_config :: "(string \<Rightarrow> 'q result) \<Rightarrow> Job \<Rightarrow> 'q JobObject result" where
  "Job_config parse j = (case pod_config parse (jo_pod j) of Inl e \<Rightarrow> Inl e | Inr t \<Rightarrow>
     Inr \<lparr>jb_Meta = getObjectMeta (ke_Namespace (jo_k8sEnv j)) (jo_serviceName j) (pd_number (jo_pod j))
            (pd_TargetNode (jo_pod j)),
          jb_Completions = 1, jb_Parallelism = 1, jb_BackoffLimit = 1, jb_TTLSecondsAfterFinished = 2,
          jb_Template = t\<lparr>pt_RestartPolicy := ''OnFailure''\<rparr>\<rparr>)"

definition Job_Delete :: "'q server \<Rightarrow> 'q calls retrier \<Rightarrow> Job \<Rightarrow> 'q calls \<Rightarrow> go_error option \<times> 'q calls" where
  "Job_Delete srv retry j h =
     delete_and_wait srv retry KJob (jo_name j) (jo_name j)
       ''[k8s] Delete job is failed: '' ''[k8s] Job is not deleted'' h"

definition Job_Apply :: "(string \<Rightarrow> 'q result) \<Rightarrow> 'q server \<Rightarrow> 'q calls retrier \<Rightarrow> Job \<Rightarrow> 'q calls \<Rightarrow> go_error option \<times> 'q calls" where
  "Job_Apply parse srv retry j h =
     (case Job_config parse j of
        Inl e \<Rightarrow> (Some e, h)
      | Inr jobConfig \<Rightarrow>
         (case api_call srv (Get KJob (jo_name j)) h of
            (Some _, h1) \<Rightarrow>
              (case api_call srv (Create KJob (OJob jobConfig)) h1 of
                 (Some e, h2) \<Rightarrow> (Some (Error (''[k8s] apply job is failed: '' @ e)), h2)
               | (None, h2) \<Rightarrow> (None, h2))
          | (None, h1) \<Rightarrow>
              (case Job_Delete srv retry j h1 of
                 (Some e, h2) \<Rightarrow> (Some e, h2)
               | (None, h2) \<Rightarrow>
                  (case api_call srv (Create KJob (OJob jobConfig)) h2 of
                     (Some e, h3) \<Rightarrow> (Some (Error (''[k8s] apply job is failed: '' @ e)), h3)
                   | (None, h3) \<Rightarrow> (None, h3)))))"

section \<open>Services\<close>

record Service =
  sv_serviceName :: string
  sv_name :: string
  sv_number :: int
  sv_ports :: "PortConfig option list"
  sv_network :: string
  sv_k8sEnv :: K8sEnv

definition srv_label :: "string \<Rightarrow> int \<Rightarrow> string" where
  "srv_label serviceName number = getLabelName serviceName number @ ''-srv''"

definition NewService :: "string \<Rightarrow> int \<Rightarrow> PortConfig option list \<Rightarrow> string \<Rightarrow> K8sEnv \<Rightarrow> Service" where
  "NewService serviceName number ports network k8sEnv =
     \<lparr>sv_serviceName = serviceName, sv_name = getLabelName serviceName number @ ''-srv'',
      sv_number = number, sv_ports = ports, sv_network = network, sv_k8sEnv = k8sEnv\<rparr>"

definition service_port :: "string \<Rightarrow> PortConfig option \<Rightarrow> ServicePort result" where
  "service_port network port = (case port of None \<Rightarrow> Inl nil_deref | Some p \<Rightarrow>
     (if network = ''NodePort''
      then Inr \<lparr>sp_Name = pc_Name p, sp_Protocol = pc_Protocol p, sp_Port = pc_Port p,
             sp_TargetPort = Some (to_int (pc_Port p)), sp_NodePort = pc_NodePort p\<rparr>
      else Inr \<lparr>sp_Name = pc_Name p, sp_Protocol = pc_Protocol p, sp_Port = pc_Port p,
             sp_TargetPort = Some (to_int (pc_Port p)), sp_NodePort = 0\<rparr>))"

definition envoy_admin_port :: ServicePort where
  "envoy_admin_port = \<lparr>sp_Name = ''envoy-admin'', sp_Protocol = ''TCP'', sp_Port = 10001,
     sp_TargetPort = None, sp_NodePort = 0\<rparr>"

definition getPortConfigList :: "Service \<Rightarrow> ServicePort list result" where
  "getPortConfigList s = (case rmap (service_port (sv_network s)) (sv_ports s) of
     Inl e \<Rightarrow> Inl e | Inr ps \<Rightarrow> Inr (envoy_admin_port # ps))"

definition getServiceType :: "Service \<Rightarrow> string" where
  "getServiceType s = (if sv_network s = ''NodePort'' then ''NodePort'' else ''ClusterIP'')"

definition getTopologyKeys :: "string list" where
  "getTopologyKeys = [''kubernetes.io/hostname'']"

definition Service_config :: "Service \<Rightarrow> ServiceObject result" where
  "Service_config s = (case getPortConfigList s of Inl e \<Rightarrow> Inl e | Inr ps \<Rightarrow>
     Inr \<lparr>so_Meta = \<lparr>om_Labels = getLabelMap (sv_serviceName s) (sv_number s), om_Name = sv_name s,
            om_Namespace = ke_Namespace (sv_k8sEnv s)\<rparr>,
          so_Type = getServiceType s, so_Ports = ps,
          so_Selector = getLabelMap (sv_serviceName s) (sv_number s),
          so_TopologyKeys = getTopologyKeys\<rparr>)"

definition Service_Delete :: "'q server \<Rightarrow> 'q calls retrier \<Rightarrow> Service \<Rightarrow> 'q calls \<Rightarrow> go_error option \<times> 'q calls" where
  "Service_Delete srv retry s h =
     delete_and_wait srv retry KService (srv_label (sv_serviceName s) (sv_number s)) (sv_name s)
       ''[k8s] Delete Service is failed: '' ''[k8s] Service is not deleted'' h"

definition Service_Apply :: "'q server \<Rightarrow> 'q calls retrier \<Rightarrow> Service \<Rightarrow> 'q calls \<Rightarrow> go_error option \<times> 'q calls" where
  "Service_Apply srv retry s h =
     (case Service_config s of
        Inl e \<Rightarrow> (Some e, h)
      | Inr svConfig \<Rightarrow>
         (case api_call srv (Get KService (sv_name s)) h of
            (Some _, h1) \<Rightarrow>
              (case api_call srv (Create KService (OService svConfig)) h1 of
                 (Some e, h2) \<Rightarrow> (Some (Error (''[k8s] Created service is failed: '' @ e)), h2)
               | (None, h2) \<Rightarrow> (None, h2))
          | (None, h1) \<Rightarrow>
              (case Service_Delete srv retry s h1 of
                 (Some e, h2) \<Rightarrow> (Some e, h2)
               | (None, h2) \<Rightarrow>
                  (case api_call srv (Create KService (OService svConfig)) h2 of
                     (Some e, h3) \<Rightarrow> (Some (Error (''[k8s] Created service is failed: '' @ e)), h3)
                   | (None, h3) \<Rightarrow> (None, h3)))))"


section \<open>The interface of a resource\<close>

fun obj_name :: "'q k8s_obj \<Rightarrow> string" where
  "obj_name (ODeployment d) = om_Name (dp_Meta d)"
| "obj_name (OJob j) = om_Name (jb_Meta j)"
| "obj_name (OService s) = om_Name (so_Meta s)"
| "obj_name (OConfigMap c) = co_Name c"

fun call_on :: "'q k8s_call \<Rightarrow> kind \<times> string" where
  "call_on (Get kd n) = (kd, n)"
| "call_on (Create kd ob) = (kd, obj_name ob)"
| "call_on (Update kd ob) = (kd, obj_name ob)"
| "call_on (DeleteObj kd n) = (kd, n)"

fun is_store :: "'q k8s_call \<Rightarrow> bool" where
  "is_store (Create kd ob) = True"
| "is_store (Update kd ob) = True"
| "is_store _ = False"

text \<open>\<open>h'\<close> extends \<open>h\<close> with calls on the resource \<open>res\<close> only, \<open>n\<close> at most.\<close>

definition extends :: "kind \<times> string \<Rightarrow> nat \<Rightarrow> 'q calls \<Rightarrow> 'q calls \<Rightarrow> bool" where
  "extends res n h h' \<longleftrightarrow> (\<exists>cs. h' = h @ cs \<and> (\<forall>c \<in> set cs. call_on c = res) \<and> length cs \<le> n)"

text \<open>The last call stored the object and the server accepted it.\<close>

definition stored :: "'q server \<Rightarrow> kind \<times> string \<Rightarrow> 'q calls \<Rightarrow> bool" where
  "stored srv res h \<longleftrightarrow> (\<exists>h0 c. h = h0 @ [c] \<and> is_store c \<and> call_on c = res \<and> srv h = None)"

text \<open>The last call was a Get that failed, after a delete the server accepted.\<close>

definition gone :: "'q server \<Rightarrow> kind \<times> string \<Rightarrow> 'q calls \<Rightarrow> 'q calls \<Rightarrow> bool" where
  "gone srv res h h' \<longleftrightarrow> (\<exists>h0. h' = h0 @ [Get (fst res) (snd res)] \<and> srv h' \<noteq> None) \<and>
     srv (h @ [DeleteObj (fst res) (snd res)]) = None"

lemma extends_trans: "extends res m h h' \<Longrightarrow> extends res n h' h'' \<Longrightarrow> extends res (m + n) h h''"
  by (force simp: extends_def)

lemma extends_mono: "extends res m h h' \<Longrightarrow> m \<le> n \<Longrightarrow> extends res n h h'"
  by (force simp: extends_def)

lemma extends_call: "call_on c = res \<Longrightarrow> 0 < n \<Longrightarrow> extends res n h (h @ [c])"
  by (force simp: extends_def)

lemma extends_refl: "extends res n h h"
  by (simp add: extends_def)

text \<open>
  Go's interface \<open>K8sResource\<close>: Apply and Delete only make calls on their own resource, a
  bounded number of them, and report success only when the resource has been stored, or is
  gone.
\<close>

locale k8s_resource =
  fixes apply_op :: "'q server \<Rightarrow> 'q calls retrier \<Rightarrow> 'q calls \<Rightarrow> go_error option \<times> 'q calls"
    and delete_op :: "'q server \<Rightarrow> 'q calls retrier \<Rightarrow> 'q calls \<Rightarrow> go_error option \<times> 'q calls"
    and res :: "kind \<times> string"
  assumes apply_extends: "retry_documented rt \<Longrightarrow> extends res 33 h (snd (apply_op srv rt h))"
    and apply_stored: "retry_documented rt \<Longrightarrow> fst (apply_op srv rt h) = None \<Longrightarrow>
        stored srv res (snd (apply_op srv rt h))"
    and delete_extends: "retry_documented rt \<Longrightarrow> extends res 31 h (snd (delete_op srv rt h))"
    and delete_gone: "retry_documented rt \<Longrightarrow> fst (delete_op srv rt h) = None \<Longrightarrow>
        gone srv res h (snd (delete_op srv rt h))"
begin

lemma delete_rejected:
  assumes "retry_documented rt" "srv (h @ [DeleteObj (fst res) (snd res)]) \<noteq> None"
  shows "fst (delete_op srv rt h) \<noteq> None"
  using delete_gone [OF assms(1), of srv h] assms(2) by (auto simp: gone_def)

lemma apply_then_delete_extends:
  assumes "retry_documented rt"
  shows "extends res 64 h (snd (delete_op srv rt (snd (apply_op srv rt h))))"
  using extends_trans [OF apply_extends [OF assms] delete_extends [OF assms]] by simp

end

lemma check_gone_eq:
  "check_gone srv kd name msg h =
     ((case srv (h @ [Get kd name]) of None \<Rightarrow> Some (Error msg) | Some e \<Rightarrow> None), h @ [Get kd name])"
  by (simp add: check_gone_def api_call_def split: option.splits)

lemma attempts_check_gone:
  "attempts n (check_gone srv kd name msg) h = (ok, h') \<Longrightarrow>
    \<exists>k. k \<le> n \<and> h' = h @ replicate k (Get kd name) \<and> (ok \<longrightarrow> 0 < k \<and> srv h' \<noteq> None)"
proof (induction n arbitrary: h)
  case 0
  then show ?case by simp
next
  case (Suc n)
  show ?case
  proof (cases "srv (h @ [Get kd name])")
    case None
    then have cg: "check_gone srv kd name msg h = (Some (Error msg), h @ [Get kd name])"
      by (simp only: check_gone_eq option.case)
    from Suc.prems have "attempts n (check_gone srv kd name msg) (h @ [Get kd name]) = (ok, h')"
      by (simp add: cg)
    from Suc.IH [OF this] obtain k where "k \<le> n" "h' = h @ replicate (Suc k) (Get kd name)"
      "ok \<longrightarrow> srv h' \<noteq> None" by (auto simp: replicate_append_same [symmetric])
    then show ?thesis by (intro exI [of _ "Suc k"]) simp
  next
    case (Some e)
    then have cg: "check_gone srv kd name msg h = (None, h @ [Get kd name])"
      by (simp only: check_gone_eq option.case)
    with Suc.prems have "ok" "h' = h @ replicate 1 (Get kd name)"
      by (simp_all add: cg)
    with Some show ?thesis by (intro exI [of _ 1]) simp
  qed
qed

lemma delete_and_wait_props:
  assumes rt: "retry_documented rt"
  shows "extends (kd, n) 31 h (snd (delete_and_wait srv rt kd n n failed still h))"
    and "fst (delete_and_wait srv rt kd n n failed still h) = None \<Longrightarrow>
      gone srv (kd, n) h (snd (delete_and_wait srv rt kd n n failed still h))"
proof -
  let ?f = "check_gone srv kd n still" and ?h = "h @ [DeleteObj kd n]"
  obtain ok h' where at: "attempts connRetryCount ?f ?h = (ok, h')" by fastforce
  from attempts_check_gone [OF at] obtain k where k: "k \<le> 30" "h' = ?h @ replicate k (Get kd n)"
    "ok \<longrightarrow> 0 < k \<and> srv h' \<noteq> None" by (auto simp: connRetryCount_def)
  have r: "fst (rt connRetryCount ?f ?h) = None \<longleftrightarrow> ok" "snd (rt connRetryCount ?f ?h) = h'"
    using retry_documentedD [OF rt, of connRetryCount ?f ?h] at by (simp_all add: connRetryCount_def)
  have dw: "delete_and_wait srv rt kd n n failed still h =
      (case srv ?h of Some e \<Rightarrow> (Some (Error (failed @ e)), ?h) | None \<Rightarrow> rt connRetryCount ?f ?h)"
    by (simp add: delete_and_wait_def api_call_def split: option.splits)
  show "extends (kd, n) 31 h (snd (delete_and_wait srv rt kd n n failed still h))"
  proof (cases "srv ?h")
    case None
    have "\<forall>c \<in> set (DeleteObj kd n # replicate k (Get kd n)). call_on c = (kd, n)" by auto
    with None k show ?thesis
      by (auto simp: dw r extends_def intro!: exI [of _ "DeleteObj kd n # replicate k (Get kd n)"])
  next
    case (Some e)
    then show ?thesis by (simp add: dw extends_call)
  qed
  show "gone srv (kd, n) h (snd (delete_and_wait srv rt kd n n failed still h))"
    if "fst (delete_and_wait srv rt kd n n failed still h) = None"
  proof (cases "srv ?h")
    case None
    with that have ok: "ok" using r by (simp add: dw)
    with k obtain j where "k = Suc j" by (cases k) auto
    with k ok None show ?thesis
      by (auto simp: dw r gone_def replicate_append_same [symmetric] intro!: exI [of _ "?h @ replicate j (Get kd n)"])
  next
    case (Some e)
    with that show ?thesis by (simp add: dw)
  qed
qed

text \<open>
  The two shapes of Apply: create or update in place, and create or delete and create again.
\<close>

lemma upsert_props:
  assumes "call_on cr = (kd, n)" "call_on up = (kd, n)" "is_store cr" "is_store up"
    and f: "f = (case api_call srv (Get kd n) h of
        (Some _, h1) \<Rightarrow> (case api_call srv cr h1 of (Some e, h2) \<Rightarrow> (Some (Error (fcreate @ e)), h2) | (None, h2) \<Rightarrow> (None, h2))
      | (None, h1) \<Rightarrow> (case api_call srv up h1 of (Some e, h2) \<Rightarrow> (Some (Error (fupdate @ e)), h2) | (None, h2) \<Rightarrow> (None, h2)))"
  shows "extends (kd, n) 2 h (snd f) \<and> (fst f = None \<longrightarrow> stored srv (kd, n) (snd f))"
proof -
  have two: "extends (kd, n) 2 h (h @ [Get kd n, c])" if "call_on c = (kd, n)" for c
    using that by (auto simp: extends_def)
  have st: "stored srv (kd, n) (h @ [Get kd n, c])"
    if "call_on c = (kd, n)" "is_store c" "srv (h @ [Get kd n, c]) = None" for c
    using that by (auto simp: stored_def intro!: exI [of _ "h @ [Get kd n]"])
  show ?thesis
    using assms(1-4) two st unfolding f by (auto simp: api_call_def split: option.splits)
qed

lemma recreate_props:
  assumes rt: "retry_documented rt"
    and cr: "call_on cr = (kd, n)" "is_store cr"
    and del: "dl = delete_and_wait srv rt kd n n failed still"
    and f: "f = (case api_call srv (Get kd n) h of
        (Some _, h1) \<Rightarrow> (case api_call srv cr h1 of (Some e, h2) \<Rightarrow> (Some (Error (fcreate @ e)), h2) | (None, h2) \<Rightarrow> (None, h2))
      | (None, h1) \<Rightarrow> (case dl h1 of
            (Some e, h2) \<Rightarrow> (Some e, h2)
          | (None, h2) \<Rightarrow> (case api_call srv cr h2 of (Some e, h3) \<Rightarrow> (Some (Error (fcreate @ e)), h3) | (None, h3) \<Rightarrow> (None, h3))))"
  shows "extends (kd, n) 33 h (snd f) \<and> (fst f = None \<longrightarrow> stored srv (kd, n) (snd f))"
proof -
  have g: "extends (kd, n) 1 h (h @ [Get kd n])" by (rule extends_call) simp_all
  have c: "extends (kd, n) 1 h' (h' @ [cr])" for h' by (rule extends_call) (simp_all add: cr)
  have st: "stored srv (kd, n) (h' @ [cr])" if "srv (h' @ [cr]) = None" for h'
    using that cr by (auto simp: stored_def)
  let ?d = "delete_and_wait srv rt kd n n failed still (h @ [Get kd n])"
  have d: "extends (kd, n) 32 h (snd ?d)"
    using extends_trans [OF g delete_and_wait_props(1) [OF rt]] by simp
  have dc: "extends (kd, n) 33 h (snd ?d @ [cr])"
    using extends_trans [OF d c] by simp
  have gc: "extends (kd, n) 33 h ((h @ [Get kd n]) @ [cr])"
    using extends_mono [OF extends_trans [OF g c], of 33] by simp
  show ?thesis
  proof (cases "srv (h @ [Get kd n])")
    case (Some e)
    then show ?thesis
      using gc st [of "h @ [Get kd n]"] unfolding f del by (auto simp: api_call_def split: option.splits)
  next
    case None
    then show ?thesis
      using d dc st [of "snd ?d"] extends_mono [OF d, of 33] unfolding f del
      by (auto simp: api_call_def split_beta split: option.splits)
  qed
qed


interpretation config_map: k8s_resource
  "\<lambda>srv rt. ConfigMap_Apply statik srv (NewConfigMap s n env t)"
  "\<lambda>srv rt. ConfigMap_Delete srv rt (NewConfigMap s n env t)"
  "(KConfigMap, ''envoy-config-'' @ getLabelName s n)"
  for statik s n env t
proof unfold_locales
  fix rt :: "'a calls retrier" and srv :: "'a server" and h
  assume rt: "retry_documented rt"
  let ?c = "NewConfigMap s n env t" and ?nm = "''envoy-config-'' @ getLabelName s n"
  have up: "extends (KConfigMap, ?nm) 2 h (snd (ConfigMap_Apply statik srv ?c h)) \<and>
      (fst (ConfigMap_Apply statik srv ?c h) = None \<longrightarrow>
        stored srv (KConfigMap, ?nm) (snd (ConfigMap_Apply statik srv ?c h)))"
  proof (cases "ConfigMap_config statik ?c")
    case (Inl e)
    then show ?thesis by (cases e) (simp_all add: ConfigMap_Apply_def extends_refl)
  next
    case (Inr cfg)
    then have nm: "co_Name cfg = ?nm" by (auto simp: ConfigMap_config_def NewConfigMap_def split: sum.splits)
    have "cm_name ?c = ?nm" by (simp add: NewConfigMap_def)
    then show ?thesis
      by (intro upsert_props [where cr = "Create KConfigMap (OConfigMap cfg)" and up = "Update KConfigMap (OConfigMap cfg)"])
        (simp_all add: nm ConfigMap_Apply_def Inr)
  qed
  then show "extends (KConfigMap, ?nm) 33 h (snd (ConfigMap_Apply statik srv ?c h))"
    by (auto intro: extends_mono)
  show "fst (ConfigMap_Apply statik srv ?c h) = None \<Longrightarrow>
      stored srv (KConfigMap, ?nm) (snd (ConfigMap_Apply statik srv ?c h))"
    using up by simp
  show "extends (KConfigMap, ?nm) 31 h (snd (ConfigMap_Delete srv rt ?c h))"
    using delete_and_wait_props(1) [OF rt] by (simp add: ConfigMap_Delete_def NewConfigMap_def)
  show "fst (ConfigMap_Delete srv rt ?c h) = None \<Longrightarrow>
      gone srv (KConfigMap, ?nm) h (snd (ConfigMap_Delete srv rt ?c h))"
    using delete_and_wait_props(2) [OF rt] by (simp add: ConfigMap_Delete_def NewConfigMap_def)
qed

interpretation deployment: k8s_resource
  "\<lambda>srv rt. Deployment_Apply parse srv (NewDeployment s tag n cmd ports env vols sa priv ke tn rs)"
  "\<lambda>srv rt. Deployment_Delete srv rt (NewDeployment s tag n cmd ports env vols sa priv ke tn rs)"
  "(KDeployment, getLabelName s n)"
  for parse s tag n cmd ports env vols sa priv ke tn rs
proof unfold_locales
  fix rt :: "'a calls retrier" and srv :: "'a server" and h
  assume rt: "retry_documented rt"
  let ?d = "NewDeployment s tag n cmd ports env vols sa priv ke tn rs"
  have up: "extends (KDeployment, getLabelName s n) 2 h (snd (Deployment_Apply parse srv ?d h)) \<and>
      (fst (Deployment_Apply parse srv ?d h) = None \<longrightarrow>
        stored srv (KDeployment, getLabelName s n) (snd (Deployment_Apply parse srv ?d h)))"
  proof (cases "Deployment_config parse ?d")
    case (Inl e)
    then show ?thesis by (simp add: Deployment_Apply_def extends_refl)
  next
    case (Inr cfg)
    then have nm: "om_Name (dp_Meta cfg) = getLabelName s n"
      by (auto simp: Deployment_config_def NewDeployment_def NewPod_def getObjectMeta_def split: sum.splits)
    have "de_name ?d = getLabelName s n" by (simp add: NewDeployment_def)
    then show ?thesis
      by (intro upsert_props [where cr = "Create KDeployment (ODeployment cfg)" and up = "Update KDeployment (ODeployment cfg)"])
        (simp_all add: nm Deployment_Apply_def Inr)
  qed
  then show "extends (KDeployment, getLabelName s n) 33 h (snd (Deployment_Apply parse srv ?d h))"
    by (auto intro: extends_mono)
  show "fst (Deployment_Apply parse srv ?d h) = None \<Longrightarrow>
      stored srv (KDeployment, getLabelName s n) (snd (Deployment_Apply parse srv ?d h))"
    using up by simp
  show "extends (KDeployment, getLabelName s n) 31 h (snd (Deployment_Delete srv rt ?d h))"
    using delete_and_wait_props(1) [OF rt] by (simp add: Deployment_Delete_def NewDeployment_def)
  show "fst (Deployment_Delete srv rt ?d h) = None \<Longrightarrow>
      gone srv (KDeployment, getLabelName s n) h (snd (Deployment_Delete srv rt ?d h))"
    using delete_and_wait_props(2) [OF rt] by (simp add: Deployment_Delete_def NewDeployment_def)
qed

interpretation job: k8s_resource
  "\<lambda>srv rt. Job_Apply parse srv rt (NewJob s tag n cmd ports env vols sa priv ke tn rs)"
  "\<lambda>srv rt. Job_Delete srv rt (NewJob s tag n cmd ports env vols sa priv ke tn rs)"
  "(KJob, getLabelName s n)"
  for parse s tag n cmd ports env vols sa priv ke tn rs
proof unfold_locales
  fix rt :: "'a calls retrier" and srv :: "'a server" and h
  assume rt: "retry_documented rt"
  let ?j = "NewJob s tag n cmd ports env vols sa priv ke tn rs"
  have name: "jo_name ?j = getLabelName s n" by (simp add: NewJob_def)
  have up: "extends (KJob, getLabelName s n) 33 h (snd (Job_Apply parse srv rt ?j h)) \<and>
      (fst (Job_Apply parse srv rt ?j h) = None \<longrightarrow>
        stored srv (KJob, getLabelName s n) (snd (Job_Apply parse srv rt ?j h)))"
  proof (cases "Job_config parse ?j")
    case (Inl e)
    then show ?thesis by (simp add: Job_Apply_def extends_refl)
  next
    case (Inr cfg)
    then have nm: "om_Name (jb_Meta cfg) = getLabelName s n"
      by (auto simp: Job_config_def NewJob_def NewPod_def getObjectMeta_def split: sum.splits)
    have del: "Job_Delete srv rt ?j = delete_and_wait srv rt KJob (getLabelName s n) (getLabelName s n)
        ''[k8s] Delete job is failed: '' ''[k8s] Job is not deleted''"
      by (simp add: fun_eq_iff Job_Delete_def name)
    show ?thesis
      by (rule recreate_props [OF rt _ _ del, where cr = "Create KJob (OJob cfg)" and fcreate = "''[k8s] apply job is failed: ''"])
        (simp_all add: nm Job_Apply_def Inr name)
  qed
  then show "extends (KJob, getLabelName s n) 33 h (snd (Job_Apply parse srv rt ?j h))" by simp
  show "fst (Job_Apply parse srv rt ?j h) = None \<Longrightarrow>
      stored srv (KJob, getLabelName s n) (snd (Job_Apply parse srv rt ?j h))"
    using up by simp
  show "extends (KJob, getLabelName s n) 31 h (snd (Job_Delete srv rt ?j h))"
    using delete_and_wait_props(1) [OF rt] by (simp add: Job_Delete_def NewJob_def)
  show "fst (Job_Delete srv rt ?j h) = None \<Longrightarrow>
      gone srv (KJob, getLabelName s n) h (snd (Job_Delete srv rt ?j h))"
    using delete_and_wait_props(2) [OF rt] by (simp add: Job_Delete_def NewJob_def)
qed

interpretation service: k8s_resource
  "\<lambda>srv rt. Service_Apply srv rt (NewService s n ports net env)"
  "\<lambda>srv rt. Service_Delete srv rt (NewService s n ports net env)"
  "(KService, getLabelName s n @ ''-srv'')"
  for s n ports net env
proof unfold_locales
  fix rt :: "'a calls retrier" and srv :: "'a server" and h
  assume rt: "retry_documented rt"
  let ?s = "NewService s n ports net env" and ?nm = "getLabelName s n @ ''-srv''"
  have name: "sv_name ?s = ?nm" "srv_label (sv_serviceName ?s) (sv_number ?s) = ?nm"
    by (simp_all add: NewService_def srv_label_def)
  have up: "extends (KService, ?nm) 33 h (snd (Service_Apply srv rt ?s h)) \<and>
      (fst (Service_Apply srv rt ?s h) = None \<longrightarrow>
        stored srv (KService, ?nm) (snd (Service_Apply srv rt ?s h)))"
  proof (cases "Service_config ?s")
    case (Inl e)
    then show ?thesis by (simp add: Service_Apply_def extends_refl)
  next
    case (Inr cfg)
    then have nm: "om_Name (so_Meta cfg) = ?nm"
      by (auto simp: Service_config_def NewService_def split: sum.splits)
    have del: "Service_Delete srv rt ?s = delete_and_wait srv rt KService ?nm ?nm
        ''[k8s] Delete Service is failed: '' ''[k8s] Service is not deleted''"
      by (simp add: fun_eq_iff Service_Delete_def name)
    show ?thesis
      by (rule recreate_props [OF rt _ _ del, where cr = "Create KService (OService cfg)" and fcreate = "''[k8s] Created service is failed: ''"])
        (simp_all add: nm Service_Apply_def Inr name)
  qed
  then show "extends (KService, ?nm) 33 h (snd (Service_Apply srv rt ?s h))" by simp
  show "fst (Service_Apply srv rt ?s h) = None \<Longrightarrow>
      stored srv (KService, ?nm) (snd (Service_Apply srv rt ?s h))"
    using up by simp
  show "extends (KService, ?nm) 31 h (snd (Service_Delete srv rt ?s h))"
    using delete_and_wait_props(1) [OF rt] by (simp add: Service_Delete_def name)
  show "fst (Service_Delete srv rt ?s h) = None \<Longrightarrow>
      gone srv (KService, ?nm) h (snd (Service_Delete srv rt ?s h))"
    using delete_and_wait_props(2) [OF rt] by (simp add: Service_Delete_def name)
qed

end
