(* ===== verification/PodSpec.thy ===== *)
theory PodSpec
  imports K8s
begin

text \<open>
  What the API server has to be given: the names of the resources are unique, a pod template
  is consistent (each mount has its volume, no volume name occurs twice), when building one
  succeeds, and the service selects exactly the pods of its microservice and forwards to
  ports they open.
\<close>

section \<open>Names\<close>

lemma base_name_plain: "CHR ''/'' \<notin> set s \<Longrightarrow> CHR '':'' \<notin> set s \<Longrightarrow> base_name s = s"
  by (simp add: base_name_def)

lemma base_name_path: "CHR ''/'' \<notin> set t \<Longrightarrow> base_name (s @ CHR ''/'' # t) = base_name t"
  by (simp add: base_name_def last_split_append)

lemma pad0_nat_no_minus: "0 \<le> i \<Longrightarrow> CHR ''-'' \<notin> set (pad0 w i)"
  using nat_str_digits [of "CHR ''-''" "nat i"] by (auto simp: pad0_def)

lemma getLabelName_inj:
  assumes "0 \<le> i" "0 \<le> j" and eq: "getLabelName s i = getLabelName t j"
  shows "base_name s = base_name t \<and> i = j"
proof -
  have "last (split_on (CHR ''-'') (getLabelName u k)) = pad0 3 k" if "0 \<le> k" for u k
    using last_split_append [OF pad0_nat_no_minus [OF that]] by (simp add: getLabelName_def)
  with assms have "pad0 3 i = pad0 3 j" by metis
  with eq show ?thesis by (simp add: getLabelName_def pad0_inj)
qed

text \<open>
  C30. The names of the Kubernetes resources of two instances of two microservices are
  different whenever the microservices have different names without a slash or a colon, or
  the instances have different numbers.
\<close>

theorem resource_names_unique:
  assumes "CHR ''/'' \<notin> set s" "CHR '':'' \<notin> set s" "CHR ''/'' \<notin> set t" "CHR '':'' \<notin> set t"
    and "0 \<le> i" "0 \<le> j" and "getLabelName s i = getLabelName t j"
  shows "s = t \<and> i = j"
  using getLabelName_inj [OF assms(5-7)] assms(1-4) by (simp add: base_name_plain)

theorem resource_names_unique_witness: "getLabelName ''camera'' 1 \<noteq> getLabelName ''camera-001'' 2"
  using resource_names_unique [of "''camera''" "''camera-001''" 1 2] by auto

text \<open>
  A registry path in front of a name does not change the names of the resources: the
  images \<open>a/x\<close> and \<open>b/x\<close> get the same deployment, job, service and config map names and the
  same labels.
\<close>

theorem paths_share_resources:
  "CHR ''/'' \<notin> set x \<Longrightarrow>
    de_name (NewDeployment (a @ ''/'' @ x) tag n cmd ports env vols sa priv ke tn rs) =
      de_name (NewDeployment (b @ ''/'' @ x) tag' n cmd' ports' env' vols' sa' priv' ke tn' rs') \<and>
    jo_name (NewJob (a @ ''/'' @ x) tag n cmd ports env vols sa priv ke tn rs) =
      jo_name (NewJob (b @ ''/'' @ x) tag' n cmd' ports' env' vols' sa' priv' ke tn' rs') \<and>
    sv_name (NewService (a @ ''/'' @ x) n ports net ke) = sv_name (NewService (b @ ''/'' @ x) n ports' net' ke) \<and>
    cm_name (NewConfigMap (a @ ''/'' @ x) n ke tn) = cm_name (NewConfigMap (b @ ''/'' @ x) n ke tn') \<and>
    getLabelMap (a @ ''/'' @ x) n = getLabelMap (b @ ''/'' @ x) n"
  by (simp add: NewDeployment_def NewJob_def NewService_def NewConfigMap_def getLabelName_def
      getLabelMap_def getLabelNameWithoutTargetNode_def base_name_path)

theorem paths_share_resources_witness:
  "sv_name (NewService ''aion/camera'' 1 [] '''' (NewK8sEnv '''' '''' '''' '''')) =
   sv_name (NewService ''test/camera'' 1 [] '''' (NewK8sEnv '''' '''' '''' ''''))"
  using paths_share_resources [of "''camera''" "''aion''" _ 1 _ "[]" _ _ _ _ "NewK8sEnv '''' '''' '''' ''''" _ _ "''test''" _ _ "[]"]
  by simp

section \<open>The pod template\<close>

lemma volume_ok_iff: "(\<exists>v. volume kv = Inr v) \<longleftrightarrow> CHR '':'' \<in> set (snd kv)"
proof -
  have "1 < length (split_on c s) \<longleftrightarrow> c \<in> set s" for c s
  proof (induction s)
    case (Cons x xs)
    then show ?case by (cases "split_on c xs") auto
  qed simp
  then show ?thesis by (auto simp: volume_def index_def split: prod.splits)
qed

lemma volume_name: "volume kv = Inr v \<Longrightarrow> vo_Name v = ''data-'' @ itoa (int (fst kv))"
  by (auto simp: volume_def split: prod.splits sum.splits)

lemma volumes_ok_iff: "(\<exists>vs. getVolumeList p = Inr vs) \<longleftrightarrow> (\<forall>v \<in> set (pd_volumeMountPathList p). CHR '':'' \<in> set v)"
proof -
  have "(\<exists>vs. getVolumeList p = Inr vs) \<longleftrightarrow> (\<exists>vs. rmap volume (enumerate 0 (pd_volumeMountPathList p)) = Inr vs)"
    by (auto simp: getVolumeList_def split: sum.splits)
  also have "\<dots> \<longleftrightarrow> (\<forall>kv \<in> set (enumerate 0 (pd_volumeMountPathList p)). CHR '':'' \<in> set (snd kv))"
    by (simp add: rmap_ok_iff volume_ok_iff)
  also have "\<dots> \<longleftrightarrow> (\<forall>v \<in> snd ` set (enumerate 0 (pd_volumeMountPathList p)). CHR '':'' \<in> set v)"
    by simp
  also have "snd ` set (enumerate 0 (pd_volumeMountPathList p)) = set (pd_volumeMountPathList p)"
    by (metis list.set_map map_snd_enumerate)
  finally show ?thesis .
qed

definition data_names :: "nat \<Rightarrow> string list" where
  "data_names n = map (\<lambda>i. ''data-'' @ itoa (int i)) [0..<n]"

lemma data_names_enumerate:
  "map (\<lambda>kv. ''data-'' @ itoa (int (fst kv))) (enumerate 0 xs) = data_names (length xs)"
proof -
  have "map (\<lambda>kv. ''data-'' @ itoa (int (fst kv))) (enumerate 0 xs) =
      map (\<lambda>i. ''data-'' @ itoa (int i)) (map fst (enumerate 0 xs))"
    by (simp only: map_map comp_def)
  then show ?thesis by (simp only: map_fst_enumerate data_names_def add_0)
qed

lemma volume_names:
  assumes "getVolumeList p = Inr vs"
  shows "map vo_Name vs = ''aion-data'' # ''envoy'' # data_names (length (pd_volumeMountPathList p))"
proof -
  from assms obtain us where us: "rmap volume (enumerate 0 (pd_volumeMountPathList p)) = Inr us"
    "map vo_Name vs = ''aion-data'' # ''envoy'' # map vo_Name us"
    by (auto simp: getVolumeList_def split: sum.splits)
  from us(2) show ?thesis
    by (simp only: rmap_image [OF us(1) volume_name] data_names_enumerate)
qed

lemma mount_names:
  "map vm_Name (getVolumeMountList p) = ''aion-data'' # data_names (length (pd_volumeMountPathList p))"
proof -
  have "map vm_Name (map volume_mount kvs) = map (\<lambda>kv. ''data-'' @ itoa (int (fst kv))) kvs" for kvs
    by (auto simp: volume_mount_def Let_def)
  then show ?thesis
    by (simp only: getVolumeMountList_def list.map VolumeMount.simps data_names_enumerate)
qed

lemma data_names_distinct: "distinct (''aion-data'' # ''envoy'' # data_names n)"
  by (auto simp: data_names_def distinct_map inj_on_def)

lemma pod_config_parts:
  assumes "pod_config parse p = Inr t"
  obtains c envoy where "getContainer parse p = Inr c" "getEnvoyContainer parse p = Inr envoy"
    "getVolumeList p = Inr (pt_Volumes t)" "pt_Containers t = [c, envoy]"
    "pt_Labels t = getLabelMap (pd_serviceName p) (pd_number p)" "pt_NodeSelector t = getNodeSelector p"
  using assms by (auto simp: pod_config_def split: sum.splits)

lemma container_mounts: "getContainer parse p = Inr c \<Longrightarrow> ct_VolumeMounts c = getVolumeMountList p"
  by (auto simp: getContainer_def split: sum.splits)

lemma envoy_mounts: "getEnvoyContainer parse p = Inr c \<Longrightarrow> map vm_Name (ct_VolumeMounts c) = [''envoy'']"
  by (auto simp: getEnvoyContainer_def split: sum.splits)

text \<open>
  C31. A pod template that \<open>Pod.config\<close> builds is consistent: no volume name occurs twice, and
  every volume mount of the microservice's container and of the envoy side car names a
  volume of the template.
\<close>

theorem pod_template_consistent:
  assumes "pod_config parse p = Inr t"
  shows "distinct (map vo_Name (pt_Volumes t)) \<and>
    (\<forall>c \<in> set (pt_Containers t). set (map vm_Name (ct_VolumeMounts c)) \<subseteq> set (map vo_Name (pt_Volumes t)))"
proof -
  from assms obtain c envoy where p: "getContainer parse p = Inr c" "getEnvoyContainer parse p = Inr envoy"
    "getVolumeList p = Inr (pt_Volumes t)" "pt_Containers t = [c, envoy]"
    by (rule pod_config_parts)
  show ?thesis
    unfolding p(4) volume_names [OF p(3)]
    using data_names_distinct
    by (auto simp: container_mounts [OF p(1)] envoy_mounts [OF p(2)] mount_names simp del: set_map)
qed

definition ex_pod :: Pod where
  "ex_pod = NewPod ''aion/camera'' ''latest'' 2 [] [Some \<lparr>pc_Name = ''grpc'', pc_Protocol = ''TCP'', pc_Port = 50051, pc_NodePort = 30000\<rparr>]
     [(''MS_NUMBER'', ''2'')] [''/dev:/dev'', ''/data:/mnt/data:Bidirectional''] ''default'' False
     (NewK8sEnv ''/var/lib/aion/Data'' ''repo'' ''prj'' ''secret'') ''''
     (Some \<lparr>rs_Requests = None, rs_Limits = Some \<lparr>rc_Memory = ''1Gi'', rc_Cpu = ''''\<rparr>\<rparr>)"

theorem pod_template_consistent_witness:
  "\<exists>t. pod_config Inr ex_pod = Inr t \<and> length (pt_Volumes t) = 4 \<and>
    (\<forall>c \<in> set (pt_Containers t). set (map vm_Name (ct_VolumeMounts c)) \<subseteq> set (map vo_Name (pt_Volumes t)))"
proof -
  have "case pod_config Inr ex_pod of Inl e \<Rightarrow> False | Inr t \<Rightarrow> length (pt_Volumes t) = 4"
    by code_simp
  then have "\<exists>t. pod_config Inr ex_pod = Inr t \<and> length (pt_Volumes t) = 4"
    by (auto split: sum.splits)
  then obtain t where t: "pod_config Inr ex_pod = Inr t" "length (pt_Volumes t) = 4" by blast
  from pod_template_consistent [OF t(1)] t show ?thesis by (intro exI [of _ t]) simp
qed

section \<open>When building a pod template panics\<close>

fun quantities :: "Resources option \<Rightarrow> string list" where
  "quantities None = []"
| "quantities (Some rs) = filter (\<lambda>q. q \<noteq> '''')
     (concat (map (\<lambda>c. case c of None \<Rightarrow> [] | Some rc \<Rightarrow> [rc_Memory rc, rc_Cpu rc]) [rs_Limits rs, rs_Requests rs]))"

lemma resource_list_ok_iff:
  "(\<exists>l. resource_list parse c = Inr l) \<longleftrightarrow>
    (\<forall>rc. c = Some rc \<longrightarrow> (rc_Memory rc \<noteq> '''' \<longrightarrow> (\<exists>v. parse (rc_Memory rc) = Inr v)) \<and>
      (rc_Cpu rc \<noteq> '''' \<longrightarrow> (\<exists>v. parse (rc_Cpu rc) = Inr v)))"
  by (cases c) (auto simp: resource_list_def split: sum.splits)

lemma resources_ok_iff:
  "(\<exists>r. getResources parse p = Inr r) \<longleftrightarrow> (\<forall>q \<in> set (quantities (pd_Resources p)). \<exists>v. parse q = Inr v)"
proof (cases "pd_Resources p")
  case None
  then show ?thesis by (simp add: getResources_def)
next
  case (Some rs)
  have "(\<exists>r. getResources parse p = Inr r) \<longleftrightarrow>
      (\<exists>l. resource_list parse (rs_Limits rs) = Inr l) \<and> (\<exists>l. resource_list parse (rs_Requests rs) = Inr l)"
    by (auto simp: getResources_def Some split: sum.splits)
  also have "\<dots> \<longleftrightarrow> (\<forall>q \<in> set (quantities (pd_Resources p)). \<exists>v. parse q = Inr v)"
    unfolding resource_list_ok_iff Some by (cases "rs_Limits rs"; cases "rs_Requests rs") auto
  finally show ?thesis .
qed

lemma ports_ok_iff: "(\<exists>l. getPortList p = Inr l) \<longleftrightarrow> None \<notin> set (pd_ports p)"
proof -
  have port: "(\<exists>y. pod_port x = Inr y) \<longleftrightarrow> x \<noteq> None" for x
    by (cases x) (simp_all add: pod_port_def)
  show ?thesis unfolding getPortList_def rmap_ok_iff port by (metis (full_types))
qed

lemma container_ok_iff:
  "(\<exists>c. getContainer parse p = Inr c) \<longleftrightarrow> (\<exists>l. getPortList p = Inr l) \<and> (\<exists>r. getResources parse p = Inr r)"
  by (auto simp: getContainer_def split: sum.splits)

lemma pod_config_succeeds:
  "(\<exists>t. pod_config parse p = Inr t) \<longleftrightarrow>
    None \<notin> set (pd_ports p) \<and> (\<forall>v \<in> set (pd_volumeMountPathList p). CHR '':'' \<in> set v) \<and>
    (\<forall>q \<in> set ([''512Mi'', ''64Mi''] @ quantities (pd_Resources p)). \<exists>v. parse q = Inr v)"
proof -
  have "(\<exists>t. pod_config parse p = Inr t) \<longleftrightarrow> (\<exists>c. getContainer parse p = Inr c) \<and>
      (\<exists>c. getEnvoyContainer parse p = Inr c) \<and> (\<exists>vs. getVolumeList p = Inr vs)"
    by (auto simp: pod_config_def split: sum.splits)
  moreover have "(\<exists>c. getEnvoyContainer parse p = Inr c) \<longleftrightarrow> (\<forall>q \<in> set [''512Mi'', ''64Mi'']. \<exists>v. parse q = Inr v)"
    by (auto simp: getEnvoyContainer_def split: sum.splits)
  ultimately show ?thesis
    by (auto simp: container_ok_iff resources_ok_iff ports_ok_iff volumes_ok_iff)
qed

text \<open>
  C32. Building the pod template of a microservice succeeds exactly when no port is nil, every
  entry of the volume list has a colon, and every quantity of the resources (and the two of
  the envoy side car) parses; in every other case the code panics, there is no other check.
\<close>

theorem pod_config_ok_iff:
  "(\<exists>t. pod_config parse p = Inr t) \<longleftrightarrow>
    None \<notin> set (pd_ports p) \<and> (\<forall>v \<in> set (pd_volumeMountPathList p). CHR '':'' \<in> set v) \<and>
    (\<forall>q \<in> set ([''512Mi'', ''64Mi''] @ quantities (pd_Resources p)). \<exists>v. parse q = Inr v)"
  by (rule pod_config_succeeds)

theorem pod_config_ok_iff_witness:
  "\<not> (\<exists>t. pod_config Inr (ex_pod\<lparr>pd_volumeMountPathList := [''/dev'']\<rparr>) = Inr t)"
  unfolding pod_config_ok_iff by (simp add: ex_pod_def NewPod_def)

section \<open>Services and pods\<close>

text \<open>
  The service of a microservice reaches its pods: its selector is the label set of the
  pod template that the deployment of the same name and number creates (and that the
  deployment manages), and every configured port is forwarded to a port the container opens.
\<close>

theorem service_reaches_pods:
  assumes "Service_config (NewService s n ports net ke) = Inr so"
    and "Deployment_config parse (NewDeployment s tag n cmd ports env vols sa priv ke tn rs) = Inr d"
  shows "so_Selector so = pt_Labels (dp_Template d) \<and> dp_MatchLabels d = pt_Labels (dp_Template d) \<and>
    (\<exists>c \<in> set (pt_Containers (dp_Template d)).
       map Some (map (to_int \<circ> cp_ContainerPort) (ct_Ports c)) = map sp_TargetPort (tl (so_Ports so)))"
proof -
  let ?p = "NewPod s tag n cmd ports env vols sa priv ke tn rs"
  from assms(2) have t: "pod_config parse ?p = Inr (dp_Template d)" "dp_MatchLabels d = getLabelMap s n"
    by (auto simp: Deployment_config_def NewDeployment_def NewPod_def split: sum.splits)
  from t(1) obtain c envoy where p: "getContainer parse ?p = Inr c" "pt_Containers (dp_Template d) = [c, envoy]"
    "pt_Labels (dp_Template d) = getLabelMap s n"
    by (rule pod_config_parts) (simp add: NewPod_def)
  from p(1) have cp: "rmap pod_port ports = Inr (ct_Ports c)"
    by (auto simp: getContainer_def getPortList_def NewPod_def split: sum.splits)
  from assms(1) have so: "so_Selector so = getLabelMap s n" "rmap (service_port net) ports = Inr (tl (so_Ports so))"
    by (auto simp: Service_config_def getPortConfigList_def NewService_def split: sum.splits)
  have "map (Some \<circ> to_int \<circ> cp_ContainerPort) (ct_Ports c) = map (\<lambda>q. Some (to_int (pc_Port (the q)))) ports"
    by (rule rmap_image [OF cp]) (auto simp: pod_port_def split: option.splits)
  moreover have "map sp_TargetPort (tl (so_Ports so)) = map (\<lambda>q. Some (to_int (pc_Port (the q)))) ports"
    by (rule rmap_image [OF so(2)]) (auto simp: service_port_def split: option.splits if_splits)
  ultimately have "map Some (map (to_int \<circ> cp_ContainerPort) (ct_Ports c)) = map sp_TargetPort (tl (so_Ports so))"
    by (simp add: comp_def)
  then show ?thesis using p(2,3) t(2) so(1) by simp
qed

theorem service_reaches_pods_witness:
  "case (Service_config (NewService ''camera'' 1 (pd_ports ex_pod) ''NodePort'' (pd_k8sEnv ex_pod)),
      Deployment_config Inr (NewDeployment ''camera'' ''1'' 1 [] (pd_ports ex_pod) [] [] '''' False (pd_k8sEnv ex_pod) '''' None))
   of (Inr so, Inr d) \<Rightarrow> so_Selector so = pt_Labels (dp_Template d) | _ \<Rightarrow> False"
proof -
  have "isl (Service_config (NewService ''camera'' 1 (pd_ports ex_pod) ''NodePort'' (pd_k8sEnv ex_pod))) = False"
    by code_simp
  then obtain so where so: "Service_config (NewService ''camera'' 1 (pd_ports ex_pod) ''NodePort'' (pd_k8sEnv ex_pod)) = Inr so"
    by (cases "Service_config (NewService ''camera'' 1 (pd_ports ex_pod) ''NodePort'' (pd_k8sEnv ex_pod))") auto
  let ?d = "Deployment_config Inr (NewDeployment ''camera'' ''1'' 1 [] (pd_ports ex_pod) [] [] '''' False
      (pd_k8sEnv ex_pod) '''' None)"
  have "isl ?d = False" by code_simp
  then obtain d where d: "?d = Inr d" by (cases ?d) auto
  from service_reaches_pods [OF so d] show ?thesis by (simp only: so d prod.case sum.case)
qed

end
