(* ===== verification/Microservice.thy ===== *)
theory Microservice
  imports PodSpec
begin

text \<open>
  One microservice on the cluster (internal/microservice): the three resources of an
  instance, started and stopped together, and the scale container that numbers the instances
  and counts how often each was started. The state of the cluster is the list of API calls
  made so far, as in the theory of the resources.
\<close>

section \<open>An instance\<close>

datatype K8sResource = JobResource Job | DeploymentResource Deployment

record ContainerMicroservice =
  cm_K8s :: K8sResource
  cm_ConfigMap :: ConfigMap
  cm_Service :: Service

text \<open>The parameters of the package k8s: quantities, embedded files, the API server, retries.\<close>

record 'q k8s_world =
  kw_parse :: "string \<Rightarrow> 'q result"
  kw_statik :: "string \<Rightarrow> string result"
  kw_server :: "'q server"
  kw_retry :: "'q calls retrier"

fun K8sResource_Apply :: "'q k8s_world \<Rightarrow> K8sResource \<Rightarrow> 'q calls \<Rightarrow> go_error option \<times> 'q calls" where
  "K8sResource_Apply w (JobResource j) h = Job_Apply (kw_parse w) (kw_server w) (kw_retry w) j h"
| "K8sResource_Apply w (DeploymentResource d) h = Deployment_Apply (kw_parse w) (kw_server w) d h"

fun K8sResource_Delete :: "'q k8s_world \<Rightarrow> K8sResource \<Rightarrow> 'q calls \<Rightarrow> go_error option \<times> 'q calls" where
  "K8sResource_Delete w (JobResource j) h = Job_Delete (kw_server w) (kw_retry w) j h"
| "K8sResource_Delete w (DeploymentResource d) h = Deployment_Delete (kw_server w) (kw_retry w) d h"

definition NewContainerMicroservice :: "K8sEnv \<Rightarrow> string \<Rightarrow> Microservice \<Rightarrow> int \<Rightarrow> ContainerMicroservice" where
  "NewContainerMicroservice k8sEnv msName data msNum =
     (let env = (case ms_Env data of None \<Rightarrow> [] | Some e \<Rightarrow> e);
          k = (if \<not> ms_Always data
            then JobResource (NewJob msName (ms_Tag data) msNum (ms_Command data) (ms_Ports data) env
              (ms_VolumeMountPathList data) (ms_ServiceAccount data) (ms_Privileged data) k8sEnv
              (ms_TargetNode data) (ms_Resources data))
            else DeploymentResource (NewDeployment msName (ms_Tag data) msNum (ms_Command data) (ms_Ports data) env
              (ms_VolumeMountPathList data) (ms_ServiceAccount data) (ms_Privileged data) k8sEnv
              (ms_TargetNode data) (ms_Resources data)))
      in \<lparr>cm_K8s = k, cm_ConfigMap = NewConfigMap msName msNum k8sEnv (ms_TargetNode data),
          cm_Service = NewService msName msNum (ms_Ports data) (ms_Network data) k8sEnv\<rparr>)"

text \<open>\<open>fmt.Errorf\<close> around an error; a panic goes through.\<close>

fun wrap_err :: "string \<Rightarrow> go_error \<Rightarrow> go_error" where
  "wrap_err pre (Error s) = Error (pre @ s)"
| "wrap_err pre (Panic s) = Panic s"

definition StartProcess :: "'q k8s_world \<Rightarrow> ContainerMicroservice \<Rightarrow> 'q calls \<Rightarrow> go_error option \<times> 'q calls" where
  "StartProcess w ms h =
     (case ConfigMap_Apply (kw_statik w) (kw_server w) (cm_ConfigMap ms) h of
        (Some e, h1) \<Rightarrow> (Some (wrap_err ''[start service] failed :'' e), h1)
      | (None, h1) \<Rightarrow>
         (case K8sResource_Apply w (cm_K8s ms) h1 of
            (Some e, h2) \<Rightarrow> (Some (wrap_err ''[start service] failed :'' e), h2)
          | (None, h2) \<Rightarrow>
             (case Service_Apply (kw_server w) (kw_retry w) (cm_Service ms) h2 of
                (Some e, h3) \<Rightarrow> (Some (wrap_err ''[start service] failed :'' e), h3)
              | (None, h3) \<Rightarrow> (None, h3))))"

fun err_list :: "go_error option \<Rightarrow> string list" where
  "err_list None = []"
| "err_list (Some e) = [err_text e]"

lemma err_list_Nil [simp]: "err_list e = [] \<longleftrightarrow> e = None" "[] = err_list e \<longleftrightarrow> e = None"
  by (cases e; simp)+

text \<open>The three Deletes return errors and do not panic, so their texts are collected.\<close>

definition StopAllProcess :: "'q k8s_world \<Rightarrow> ContainerMicroservice \<Rightarrow> 'q calls \<Rightarrow> go_error option \<times> 'q calls" where
  "StopAllProcess w ms h =
     (case Service_Delete (kw_server w) (kw_retry w) (cm_Service ms) h of (e1, h1) \<Rightarrow>
     (case K8sResource_Delete w (cm_K8s ms) h1 of (e2, h2) \<Rightarrow>
     (case ConfigMap_Delete (kw_server w) (kw_retry w) (cm_ConfigMap ms) h2 of (e3, h3) \<Rightarrow>
       (let errStr = err_list e1 @ err_list e2 @ err_list e3 in
        if errStr \<noteq> []
        then (Some (Error (''[Stop job service] failed: '' @ CHR 0x0A # join [CHR 0x0A] errStr)), h3)
        else (None, h3)))))"

section \<open>The instances of a microservice\<close>

record ContainerStatus =
  cs_Container :: ContainerMicroservice
  NumOfUpState :: int

record ScaleContainer =
  sc_name :: string
  sc_containerList :: "(int, ContainerStatus) gomap"
  sc_multiple :: bool

text \<open>
  The loop of \<open>NewScaleContainer\<close> for the remaining numbers. It writes the number of the
  instance into the environment of the project's own microservice.
\<close>

fun scale_loop :: "K8sEnv \<Rightarrow> string \<Rightarrow> int list \<Rightarrow> Microservice \<Rightarrow> (int, ContainerStatus) gomap \<Rightarrow>
    ((int, ContainerStatus) gomap \<times> Microservice) result" where
  "scale_loop k8sEnv msName [] msData containerList = Inr (containerList, msData)"
| "scale_loop k8sEnv msName (i # ns) msData containerList =
     (case ms_Env msData of
        None \<Rightarrow> Inl nil_map_write
      | Some env \<Rightarrow>
         (let msData' = msData\<lparr>ms_Env := Some (put ''MS_NUMBER'' (itoa i) env)\<rparr> in
          scale_loop k8sEnv msName ns msData'
            (put i \<lparr>cs_Container = NewContainerMicroservice k8sEnv msName msData' i, NumOfUpState = 0\<rparr> containerList)))"

definition NewScaleContainer :: "K8sEnv \<Rightarrow> string \<Rightarrow> string \<Rightarrow> Microservice option \<Rightarrow>
    (ScaleContainer \<times> Microservice) result" where
  "NewScaleContainer k8sEnv aionHome msName msData =
     (case msData of
        None \<Rightarrow> Inl nil_deref
      | Some m \<Rightarrow>
         (case scale_loop k8sEnv msName [1..to_int (ms_Scale m)] m [] of
            Inl e \<Rightarrow> Inl e
          | Inr (containerList, m') \<Rightarrow>
              Inr (\<lparr>sc_name = msName, sc_containerList = containerList, sc_multiple = ms_Multiple m'\<rparr>, m')))"

definition GetScale :: "ScaleContainer \<Rightarrow> nat" where
  "GetScale sc = length (sc_containerList sc)"

text \<open>The error texts name the service, its scale and the request.\<close>

definition over_scale :: "ScaleContainer \<Rightarrow> int \<Rightarrow> go_error" where
  "over_scale sc mNum = Error (''microservice number is over of scale (name: '' @ sc_name sc @ '', scale: '' @
     itoa (int (GetScale sc)) @ '', request: '' @ itoa mNum @ '')'')"

definition not_exists :: "ScaleContainer \<Rightarrow> int \<Rightarrow> go_error" where
  "not_exists sc mNum = Error (''microservice does not exists (name: '' @ sc_name sc @ '', number:'' @ itoa mNum @ '')'')"

definition already_started :: "ScaleContainer \<Rightarrow> int \<Rightarrow> go_error" where
  "already_started sc mNum =
     Error (''microservice already started, multiple service is not allowed (name: '' @ sc_name sc @ '', scale: '' @
       itoa (int (GetScale sc)) @ '', request: '' @ itoa mNum @ '')'')"

definition already_finished :: "ScaleContainer \<Rightarrow> int \<Rightarrow> go_error" where
  "already_finished sc mNum = Error (''microservice is already finished (name: '' @ sc_name sc @ '', scale: '' @
     itoa (int (GetScale sc)) @ '', request: '' @ itoa mNum @ '')'')"

definition set_up :: "int \<Rightarrow> ContainerStatus \<Rightarrow> int \<Rightarrow> ScaleContainer \<Rightarrow> ScaleContainer" where
  "set_up mNum c n sc = sc\<lparr>sc_containerList := put mNum (c\<lparr>NumOfUpState := n\<rparr>) (sc_containerList sc)\<rparr>"

definition StartMicroservice :: "'q k8s_world \<Rightarrow> int \<Rightarrow> ScaleContainer \<times> 'q calls \<Rightarrow>
    go_error option \<times> ScaleContainer \<times> 'q calls" where
  "StartMicroservice w mNum st = (case st of (sc, h) \<Rightarrow>
     (if int (length (sc_containerList sc)) < mNum then (Some (over_scale sc mNum), sc, h)
      else (case map_of (sc_containerList sc) mNum of
         None \<Rightarrow> (Some (not_exists sc mNum), sc, h)
       | Some c \<Rightarrow>
          (if 0 < NumOfUpState c \<and> \<not> sc_multiple sc then (Some (already_started sc mNum), sc, h)
           else (case StartProcess w (cs_Container c) h of
              (Some e, h') \<Rightarrow> (Some e, sc, h')
            | (None, h') \<Rightarrow> (None, set_up mNum c (NumOfUpState c + 1) sc, h'))))))"

definition StopMicroservice :: "'q k8s_world \<Rightarrow> int \<Rightarrow> ScaleContainer \<times> 'q calls \<Rightarrow>
    go_error option \<times> ScaleContainer \<times> 'q calls" where
  "StopMicroservice w mNum st = (case st of (sc, h) \<Rightarrow>
     (if int (length (sc_containerList sc)) < mNum then (Some (over_scale sc mNum), sc, h)
      else (case map_of (sc_containerList sc) mNum of
         None \<Rightarrow> (Some (not_exists sc mNum), sc, h)
       | Some c \<Rightarrow>
          (if NumOfUpState c = 0 then (Some (already_finished sc mNum), sc, h)
           else (case StopAllProcess w (cs_Container c) h of
              (Some e, h') \<Rightarrow> (Some e, sc, h')
            | (None, h') \<Rightarrow> (None, set_up mNum c 0 sc, h'))))))"

section \<open>Starting and stopping an instance\<close>

lemma world_same [simp]: "w\<lparr>kw_server := kw_server w, kw_retry := kw_retry w\<rparr> = w"
  by (cases w) simp

definition workload :: "string \<Rightarrow> Microservice \<Rightarrow> int \<Rightarrow> kind \<times> string" where
  "workload s m i = (if ms_Always m then KDeployment else KJob, getLabelName s i)"

interpretation workload: k8s_resource
  "\<lambda>srv rt. K8sResource_Apply (w\<lparr>kw_server := srv, kw_retry := rt\<rparr>) (cm_K8s (NewContainerMicroservice ke s m i))"
  "\<lambda>srv rt. K8sResource_Delete (w\<lparr>kw_server := srv, kw_retry := rt\<rparr>) (cm_K8s (NewContainerMicroservice ke s m i))"
  "workload s m i"
  for w ke s m i
  by (unfold_locales; cases "ms_Always m";
    simp add: NewContainerMicroservice_def Let_def workload_def job.apply_extends job.apply_stored
      job.delete_extends job.delete_gone deployment.apply_extends deployment.apply_stored
      deployment.delete_extends deployment.delete_gone)

lemmas workload_facts =
  workload.apply_extends [where w = w and srv = "kw_server w" and rt = "kw_retry w", unfolded world_same]
  workload.apply_stored [where w = w and srv = "kw_server w" and rt = "kw_retry w", unfolded world_same]
  workload.delete_extends [where w = w and srv = "kw_server w" and rt = "kw_retry w", unfolded world_same]
  workload.delete_gone [where w = w and srv = "kw_server w" and rt = "kw_retry w", unfolded world_same]
  for w

lemma instance_parts:
  "cm_ConfigMap (NewContainerMicroservice ke s m i) = NewConfigMap s i ke (ms_TargetNode m)"
  "cm_Service (NewContainerMicroservice ke s m i) = NewService s i (ms_Ports m) (ms_Network m) ke"
  by (simp_all add: NewContainerMicroservice_def Let_def)

definition config_res :: "string \<Rightarrow> int \<Rightarrow> kind \<times> string" where
  "config_res s i = (KConfigMap, ''envoy-config-'' @ getLabelName s i)"

definition service_res :: "string \<Rightarrow> int \<Rightarrow> kind \<times> string" where
  "service_res s i = (KService, getLabelName s i @ ''-srv'')"

lemmas config_facts = config_map.apply_extends [folded config_res_def] config_map.apply_stored [folded config_res_def]
  config_map.delete_extends [folded config_res_def] config_map.delete_gone [folded config_res_def]

lemmas service_facts = service.apply_extends [folded service_res_def] service.apply_stored [folded service_res_def]
  service.delete_extends [folded service_res_def] service.delete_gone [folded service_res_def]

text \<open>
  C26. Starting an instance works on its three resources in the order config map, workload,
  service, with at most 33 API calls on each. When it reports success the last call on each
  of the three stored the object and was accepted; when it reports an error the resources
  after the failing one have not been touched.
\<close>

theorem start_in_order:
  assumes rt: "retry_documented (kw_retry w)"
    and run: "StartProcess w (NewContainerMicroservice ke s m i) h = (e, h3)"
  shows "\<exists>h1 h2. extends (config_res s i) 33 h h1 \<and> extends (workload s m i) 33 h1 h2 \<and>
      extends (service_res s i) 33 h2 h3 \<and>
      (e = None \<longrightarrow> stored (kw_server w) (config_res s i) h1 \<and> stored (kw_server w) (workload s m i) h2 \<and>
        stored (kw_server w) (service_res s i) h3) \<and>
      (h1 \<noteq> h2 \<longrightarrow> stored (kw_server w) (config_res s i) h1) \<and>
      (h2 \<noteq> h3 \<longrightarrow> stored (kw_server w) (workload s m i) h2)"
proof -
  let ?ms = "NewContainerMicroservice ke s m i"
  obtain ec h1 where c: "ConfigMap_Apply (kw_statik w) (kw_server w) (cm_ConfigMap ?ms) h = (ec, h1)" by fastforce
  obtain ek h2 where k: "K8sResource_Apply w (cm_K8s ?ms) h1 = (ek, h2)" by fastforce
  obtain es h' where s: "Service_Apply (kw_server w) (kw_retry w) (cm_Service ?ms) h2 = (es, h')" by fastforce
  have cf: "extends (config_res s i) 33 h h1" "ec = None \<longrightarrow> stored (kw_server w) (config_res s i) h1"
    using config_facts(1,2) [where s = s and n = i and env = ke and t = "ms_TargetNode m" and statik = "kw_statik w" and h = h and srv = "kw_server w", OF rt] c
    by (simp_all add: instance_parts)
  have kf: "extends (workload s m i) 33 h1 h2" "ek = None \<longrightarrow> stored (kw_server w) (workload s m i) h2"
    using workload_facts(1,2) [where s = s and m = m and i = i and ke = ke and h = h1, OF rt] k by simp_all
  have sf: "extends (service_res s i) 33 h2 h'" "es = None \<longrightarrow> stored (kw_server w) (service_res s i) h'"
    using service_facts(1,2) [where s = s and n = i and env = ke and ports = "ms_Ports m" and net = "ms_Network m" and h = h2 and srv = "kw_server w", OF rt] s
    by (simp_all add: instance_parts)
  have r: "(e, h3) = (if ec \<noteq> None then (map_option (wrap_err ''[start service] failed :'') ec, h1)
      else if ek \<noteq> None then (map_option (wrap_err ''[start service] failed :'') ek, h2)
      else (map_option (wrap_err ''[start service] failed :'') es, h'))"
    using run by (cases ec; cases ek; cases es) (simp_all add: StartProcess_def c k s)
  show ?thesis
  proof (cases "ec = None")
    case False
    with r cf show ?thesis by (intro exI [of _ h1]) (auto simp: extends_refl)
  next
    case c: True
    show ?thesis
      using r c cf kf sf by (intro exI [of _ h1] exI [of _ h2]) (cases "ek = None"; auto simp: extends_refl)
  qed
qed

text \<open>
  Stopping an instance always tries to delete all three resources, service, workload and
  config map, whatever fails on the way, with at most 31 calls on each, and reports success
  exactly when all three deletes do; then each of the three is gone: the server accepted its
  delete and a Get failed afterwards.
\<close>

theorem stop_tries_all:
  assumes rt: "retry_documented (kw_retry w)"
    and run: "StopAllProcess w (NewContainerMicroservice ke s m i) h = (e, h3)"
  shows "\<exists>h1 h2. extends (service_res s i) 31 h h1 \<and> extends (workload s m i) 31 h1 h2 \<and>
      extends (config_res s i) 31 h2 h3 \<and>
      h1 = snd (Service_Delete (kw_server w) (kw_retry w) (cm_Service (NewContainerMicroservice ke s m i)) h) \<and>
      h2 = snd (K8sResource_Delete w (cm_K8s (NewContainerMicroservice ke s m i)) h1) \<and>
      h3 = snd (ConfigMap_Delete (kw_server w) (kw_retry w) (cm_ConfigMap (NewContainerMicroservice ke s m i)) h2) \<and>
      (e = None \<longrightarrow> gone (kw_server w) (service_res s i) h h1 \<and> gone (kw_server w) (workload s m i) h1 h2 \<and>
        gone (kw_server w) (config_res s i) h2 h3)"
proof -
  let ?ms = "NewContainerMicroservice ke s m i"
  obtain es h1 where s: "Service_Delete (kw_server w) (kw_retry w) (cm_Service ?ms) h = (es, h1)" by fastforce
  obtain ek h2 where k: "K8sResource_Delete w (cm_K8s ?ms) h1 = (ek, h2)" by fastforce
  obtain ec h' where c: "ConfigMap_Delete (kw_server w) (kw_retry w) (cm_ConfigMap ?ms) h2 = (ec, h')" by fastforce
  have sf: "extends (service_res s i) 31 h h1" "es = None \<longrightarrow> gone (kw_server w) (service_res s i) h h1"
    using service_facts(3,4) [where s = s and n = i and env = ke and ports = "ms_Ports m" and net = "ms_Network m" and h = h and srv = "kw_server w", OF rt] s
    by (simp_all add: instance_parts)
  have kf: "extends (workload s m i) 31 h1 h2" "ek = None \<longrightarrow> gone (kw_server w) (workload s m i) h1 h2"
    using workload_facts(3,4) [where s = s and m = m and i = i and ke = ke and h = h1, OF rt] k by simp_all
  have cf: "extends (config_res s i) 31 h2 h'" "ec = None \<longrightarrow> gone (kw_server w) (config_res s i) h2 h'"
    using config_facts(3,4) [where s = s and n = i and env = ke and t = "ms_TargetNode m" and h = h2 and srv = "kw_server w", OF rt] c
    by (simp_all add: instance_parts)
  have "StopAllProcess w ?ms h = (let errStr = err_list es @ err_list ek @ err_list ec in
      if errStr \<noteq> [] then (Some (Error (''[Stop job service] failed: '' @ CHR 0x0A # join [CHR 0x0A] errStr)), h')
      else (None, h'))"
    by (simp only: StopAllProcess_def s k c prod.case)
  with run have r: "h3 = h'" "e = None \<Longrightarrow> es = None \<and> ek = None \<and> ec = None"
    by (auto simp: Let_def split: if_splits)
  have "h1 = snd (Service_Delete (kw_server w) (kw_retry w) (cm_Service ?ms) h)"
    "h2 = snd (K8sResource_Delete w (cm_K8s ?ms) h1)"
    "h3 = snd (ConfigMap_Delete (kw_server w) (kw_retry w) (cm_ConfigMap ?ms) h2)"
    by (simp_all only: s k c r(1) snd_conv)
  with sf kf cf r show ?thesis by blast
qed

section \<open>Starting without a panic\<close>

text \<open>A microservice whose objects can be built: what the configuration does not check.\<close>

definition buildable :: "'q k8s_world \<Rightarrow> Microservice \<Rightarrow> bool" where
  "buildable w m \<longleftrightarrow> None \<notin> set (ms_Ports m) \<and> (\<forall>v \<in> set (ms_VolumeMountPathList m). CHR '':'' \<in> set v) \<and>
     (\<forall>q \<in> set ([''512Mi'', ''64Mi''] @ quantities (ms_Resources m)). \<exists>v. kw_parse w q = Inr v)"

definition world_ok :: "'q k8s_world \<Rightarrow> bool" where
  "world_ok w \<longleftrightarrow> retry_documented (kw_retry w) \<and> (\<forall>f. \<not> is_panic (kw_statik w f))"

lemma delete_no_panic:
  assumes "retry_documented rt"
  shows "\<not> panicking (fst (delete_and_wait srv rt kd n n' failed still h))"
proof -
  have "\<not> panicking (fst (check_gone srv kd n' still h'))" for h'
    by (simp add: check_gone_eq split: option.splits)
  from retry_documentedD(3) [OF assms _ this, of connRetryCount] show ?thesis
    by (auto simp: delete_and_wait_def api_call_def connRetryCount_def split: option.splits)
qed

lemma wrap_no_panic [simp]: "panicking (Some (wrap_err s e)) = panicking (Some e)"
  by (cases e) simp_all

lemma config_no_panic: "\<not> is_panic (statik ''/envoy.yaml'') \<Longrightarrow> \<not> panicking (fst (ConfigMap_Apply statik srv c h))"
  by (auto simp: ConfigMap_Apply_def ConfigMap_config_def api_call_def split: option.splits sum.splits go_error.splits)

lemma service_no_panic:
  assumes "retry_documented rt" "None \<notin> set ports"
  shows "\<not> panicking (fst (Service_Apply srv rt (NewService s i ports net ke) h))"
proof -
  have "\<exists>y. service_port net x = Inr y" if "x \<in> set ports" for x
  proof -
    from that assms(2) have "x \<noteq> None" by metis
    then obtain p where "x = Some p" by blast
    then show ?thesis by (simp add: service_port_def)
  qed
  then have "\<exists>ps. rmap (service_port net) ports = Inr ps" by (simp only: rmap_ok_iff) blast
  then obtain c where c: "Service_config (NewService s i ports net ke) = Inr c"
    by (auto simp: Service_config_def getPortConfigList_def NewService_def)
  let ?s = "NewService s i ports net ke"
  obtain r h2 where r: "Service_Delete srv rt ?s (h @ [Get KService (sv_name ?s)]) = (r, h2)" by fastforce
  moreover have "\<not> panicking (fst (Service_Delete srv rt ?s (h @ [Get KService (sv_name ?s)])))"
    unfolding Service_Delete_def by (rule delete_no_panic [OF assms(1)])
  ultimately show ?thesis
    by (cases r) (auto simp: c Service_Apply_def api_call_def split: option.splits)
qed

lemma pod_no_panic:
  assumes "buildable w m"
  shows "\<exists>t. pod_config (kw_parse w) (NewPod s tag i cmd (ms_Ports m) env (ms_VolumeMountPathList m) sa priv ke tn (ms_Resources m)) = Inr t"
  using assms by (simp add: pod_config_succeeds buildable_def NewPod_def)

lemma workload_no_panic:
  assumes "world_ok w" "buildable w m"
  shows "\<not> panicking (fst (K8sResource_Apply w (cm_K8s (NewContainerMicroservice ke s m i)) h))"
proof (cases "cm_K8s (NewContainerMicroservice ke s m i)")
  case (DeploymentResource d)
  then have "\<exists>t. pod_config (kw_parse w) (de_pod d) = Inr t"
    using pod_no_panic [OF assms(2)]
    by (auto simp: NewContainerMicroservice_def Let_def NewDeployment_def split: if_splits)
  then obtain cfg where "Deployment_config (kw_parse w) d = Inr cfg" by (auto simp: Deployment_config_def)
  then show ?thesis
    by (auto simp: DeploymentResource Deployment_Apply_def api_call_def split: option.splits)
next
  case (JobResource j)
  then have "\<exists>t. pod_config (kw_parse w) (jo_pod j) = Inr t"
    using pod_no_panic [OF assms(2)]
    by (auto simp: NewContainerMicroservice_def Let_def NewJob_def split: if_splits)
  then obtain cfg where "Job_config (kw_parse w) j = Inr cfg" by (auto simp: Job_config_def)
  moreover obtain r h2 where r: "Job_Delete (kw_server w) (kw_retry w) j (h @ [Get KJob (jo_name j)]) = (r, h2)"
    by fastforce
  moreover have "\<not> panicking (fst (Job_Delete (kw_server w) (kw_retry w) j (h @ [Get KJob (jo_name j)])))"
    using assms(1) unfolding Job_Delete_def by (intro delete_no_panic) (simp add: world_ok_def)
  ultimately show ?thesis
    by (cases r) (auto simp: JobResource Job_Apply_def api_call_def split: option.splits)
qed

lemma start_no_panic:
  assumes "world_ok w" "buildable w m"
  shows "\<not> panicking (fst (StartProcess w (NewContainerMicroservice ke s m i) h))"
proof -
  have "\<not> panicking (fst (ConfigMap_Apply (kw_statik w) (kw_server w) c h))" for c h
    using assms(1) by (intro config_no_panic) (simp add: world_ok_def)
  moreover have "\<not> panicking (fst (Service_Apply (kw_server w) (kw_retry w) (cm_Service (NewContainerMicroservice ke s m i)) h))" for h
    using assms unfolding instance_parts by (intro service_no_panic) (simp_all add: world_ok_def buildable_def)
  ultimately show ?thesis
    using workload_no_panic [OF assms, of ke s i]
    by (auto simp: StartProcess_def split: option.splits prod.splits) (metis fst_conv)+
qed

section \<open>The instances of a loaded microservice\<close>

definition with_number :: "int \<Rightarrow> Microservice \<Rightarrow> Microservice" where
  "with_number i m = m\<lparr>ms_Env := Some (put ''MS_NUMBER'' (itoa i) (case ms_Env m of None \<Rightarrow> [] | Some e \<Rightarrow> e))\<rparr>"

definition fresh_instance :: "K8sEnv \<Rightarrow> string \<Rightarrow> Microservice \<Rightarrow> int \<Rightarrow> int \<times> ContainerStatus" where
  "fresh_instance ke s m i =
     (i, \<lparr>cs_Container = NewContainerMicroservice ke s (with_number i m) i, NumOfUpState = 0\<rparr>)"

lemma with_number_twice [simp]: "with_number j (with_number i m) = with_number j m"
  by (simp add: with_number_def)

lemma with_number_fields [simp]:
  "ms_Env (with_number i m) \<noteq> None" "ms_Multiple (with_number i m) = ms_Multiple m"
  "ms_Scale (with_number i m) = ms_Scale m"
  by (simp_all add: with_number_def)

lemma scale_loop_ok:
  assumes "ms_Env m \<noteq> None" "distinct (map fst cl @ ns)"
  shows "scale_loop ke s ns m cl =
    Inr (cl @ map (fresh_instance ke s m) ns, if ns = [] then m else with_number (last ns) m)"
  using assms
proof (induction ns arbitrary: m cl)
  case (Cons i ns)
  obtain env where env: "ms_Env m = Some env" using Cons.prems by auto
  let ?m = "with_number i m"
  have step: "scale_loop ke s (i # ns) m cl = scale_loop ke s ns ?m (cl @ [fresh_instance ke s m i])"
    using Cons.prems by (simp add: env with_number_def fresh_instance_def put_new Let_def)
  have same: "fresh_instance ke s ?m = fresh_instance ke s m"
    by (simp add: fun_eq_iff fresh_instance_def)
  have "distinct (map fst (cl @ [fresh_instance ke s m i]) @ ns)"
    using Cons.prems(2) by (auto simp: fresh_instance_def)
  from Cons.IH [OF with_number_fields(1) this] show ?case
    unfolding step by (simp del: scale_loop.simps add: same)
qed simp

text \<open>
  A loaded microservice gets one instance for each number from 1 to its scale, none of
  them started, each built from the microservice's data with the environment variable
  MS_NUMBER set to its own number; the project's data is left with the number of the last
  instance. Without a scale of at least 1 and an environment map the list would be empty or
  the write into the environment would panic.
\<close>

theorem new_scale_container:
  assumes "filled_ms (Some m)"
  shows "NewScaleContainer ke home s (Some m) =
    Inr (\<lparr>sc_name = s, sc_containerList = map (fresh_instance ke s m) [1..to_int (ms_Scale m)],
          sc_multiple = ms_Multiple m\<rparr>, with_number (to_int (ms_Scale m)) m)"
proof -
  have pos: "0 < to_int (ms_Scale m)" and env: "ms_Env m \<noteq> None"
    using assms by (simp_all add: filled_ms_def filled_fields_def)
  from pos have ne: "[1..to_int (ms_Scale m)] \<noteq> []" "last [1..to_int (ms_Scale m)] = to_int (ms_Scale m)"
    by (auto simp: upto_rec2)
  from scale_loop_ok [OF env, of "[]" "[1..to_int (ms_Scale m)]" ke s] ne show ?thesis
    by (simp add: NewScaleContainer_def)
qed

definition ex_loaded :: Microservice where
  "ex_loaded = the (snd (init_microservice_ptr (Some ex_ms)))"

theorem new_scale_container_witness:
  "NewScaleContainer (pd_k8sEnv ex_pod) ''/var/lib/aion'' ''camera'' (Some ex_loaded) =
    Inr (\<lparr>sc_name = ''camera'',
          sc_containerList = map (fresh_instance (pd_k8sEnv ex_pod) ''camera'' ex_loaded) [1..to_int (ms_Scale ex_loaded)],
          sc_multiple = ms_Multiple ex_loaded\<rparr>, with_number (to_int (ms_Scale ex_loaded)) ex_loaded)"
  by (rule new_scale_container) code_simp

section \<open>Requests\<close>

datatype sc_request = Start int | Stop int

text \<open>A request as an event: the error it reports is one of its effects.\<close>

fun sc_serve :: "'q k8s_world \<Rightarrow> sc_request \<Rightarrow> ScaleContainer \<times> 'q calls \<Rightarrow> go_error option \<times> ScaleContainer \<times> 'q calls" where
  "sc_serve w (Start i) st = StartMicroservice w i st"
| "sc_serve w (Stop i) st = StopMicroservice w i st"

definition sc_step :: "'q k8s_world \<Rightarrow> ScaleContainer \<times> 'q calls \<Rightarrow> sc_request \<Rightarrow> ScaleContainer \<times> 'q calls" where
  "sc_step w st e = snd (sc_serve w e st)"

definition sc_inv :: "ScaleContainer \<times> 'q calls \<Rightarrow> bool" where
  "sc_inv st \<longleftrightarrow> distinct (map fst (sc_containerList (fst st))) \<and>
     (\<forall>p \<in> set (sc_containerList (fst st)). 0 \<le> NumOfUpState (snd p) \<and>
       (sc_multiple (fst st) \<or> NumOfUpState (snd p) \<le> 1))"

lemma set_up_inv:
  assumes "sc_inv (sc, h)" "0 \<le> n" "sc_multiple sc \<or> n \<le> 1"
  shows "sc_inv (set_up i c n sc, h')"
proof -
  have "distinct (map fst (put i (c\<lparr>NumOfUpState := n\<rparr>) (sc_containerList sc)))"
    by (rule wf_map_put) (use assms(1) in \<open>simp add: sc_inv_def\<close>)
  moreover have "0 \<le> NumOfUpState (snd p) \<and> (sc_multiple sc \<or> NumOfUpState (snd p) \<le> 1)"
    if "p \<in> set (put i (c\<lparr>NumOfUpState := n\<rparr>) (sc_containerList sc))" for p
    using that assms put_subset [of i "c\<lparr>NumOfUpState := n\<rparr>" "sc_containerList sc"]
    by (force simp: sc_inv_def)
  ultimately show ?thesis by (simp add: sc_inv_def set_up_def)
qed

text \<open>What a request can do: nothing but calls, or set the count of its own instance.\<close>

lemma start_cases:
  "(\<exists>e h'. StartMicroservice w i (sc, h) = (Some e, sc, h')) \<or>
   (\<exists>c h'. StartMicroservice w i (sc, h) = (None, set_up i c (NumOfUpState c + 1) sc, h') \<and>
      map_of (sc_containerList sc) i = Some c \<and> (sc_multiple sc \<or> NumOfUpState c \<le> 0))"
  by (auto simp: StartMicroservice_def not_less split: option.splits prod.splits)

lemma stop_cases:
  "(\<exists>e h'. StopMicroservice w i (sc, h) = (Some e, sc, h')) \<or>
   (\<exists>c h'. StopMicroservice w i (sc, h) = (None, set_up i c 0 sc, h') \<and>
      map_of (sc_containerList sc) i = Some c \<and> NumOfUpState c \<noteq> 0)"
  by (auto simp: StopMicroservice_def split: option.splits prod.splits)

interpretation scale: stepper "sc_step w" sc_inv for w
proof unfold_locales
  fix st :: "ScaleContainer \<times> 'a calls" and e
  assume inv: "sc_inv st"
  obtain sc h where st: "st = (sc, h)" by fastforce
  have same: "sc_inv (sc, h')" for h' using inv by (simp add: sc_inv_def st)
  have up: "0 \<le> NumOfUpState c" if "map_of (sc_containerList sc) i = Some c" for c i
    using inv map_of_SomeD [OF that] by (force simp: sc_inv_def st)
  have set: "sc_inv (set_up i c n sc, h')" if "0 \<le> n" "sc_multiple sc \<or> n \<le> 1" for i c n h'
    using inv that set_up_inv [of sc h n] by (simp add: st)
  show "sc_inv (sc_step w st e)"
  proof (cases e)
    case (Start i)
    then show ?thesis
      using start_cases [of w i sc h] up [of i] same set [of "NumOfUpState _ + 1"] by (force simp: sc_step_def st)
  next
    case (Stop i)
    then show ?thesis
      using stop_cases [of w i sc h] same set [of 0] by (force simp: sc_step_def st)
  qed
qed

section \<open>What a history of requests leaves\<close>

text \<open>The requests of a history that reported success, and the count they leave for an instance.\<close>

fun served :: "'q k8s_world \<Rightarrow> ScaleContainer \<times> 'q calls \<Rightarrow> sc_request list \<Rightarrow> sc_request list" where
  "served w st [] = []"
| "served w st (e # es) = (case sc_serve w e st of
     (None, st') \<Rightarrow> e # served w st' es | (Some _, st') \<Rightarrow> served w st' es)"

fun up_count :: "int \<Rightarrow> int \<Rightarrow> sc_request list \<Rightarrow> int" where
  "up_count i n [] = n"
| "up_count i n (Start j # es) = up_count i (if i = j then n + 1 else n) es"
| "up_count i n (Stop j # es) = up_count i (if i = j then 0 else n) es"

definition count_of :: "ScaleContainer \<times> 'q calls \<Rightarrow> int \<Rightarrow> int" where
  "count_of st i = (case map_of (sc_containerList (fst st)) i of None \<Rightarrow> 0 | Some c \<Rightarrow> NumOfUpState c)"

lemma count_of_set_up:
  "map_of (sc_containerList sc) j = Some c \<Longrightarrow>
    count_of (set_up j c n sc, h') i = (if i = j then n else count_of (sc, h) i)"
  by (simp add: count_of_def set_up_def)

lemma keys_sc_step:
  "map fst (sc_containerList (fst (sc_step w st e))) = map fst (sc_containerList (fst st)) \<and>
   sc_multiple (fst (sc_step w st e)) = sc_multiple (fst st)"
proof -
  obtain sc h where st: "st = (sc, h)" by fastforce
  have k: "map fst (put i c' (sc_containerList sc)) = map fst (sc_containerList sc)"
    if "map_of (sc_containerList sc) i = Some c" for i c c'
    using map_of_SomeD [OF that] by (intro keys_put_mem) force
  show ?thesis
  proof (cases e)
    case (Start i)
    then show ?thesis
      using start_cases [of w i sc h] by (auto simp: sc_step_def st set_up_def k)
  next
    case (Stop i)
    then show ?thesis
      using stop_cases [of w i sc h] by (auto simp: sc_step_def st set_up_def k)
  qed
qed

lemma keys_run:
  "map fst (sc_containerList (fst (foldl (sc_step w) st es))) = map fst (sc_containerList (fst st)) \<and>
   sc_multiple (fst (foldl (sc_step w) st es)) = sc_multiple (fst st)"
  by (induction es arbitrary: st) (simp_all add: keys_sc_step)

lemma count_step:
  "count_of (sc_step w st e) i =
    (if fst (sc_serve w e st) = None then up_count i (count_of st i) [e] else count_of st i)"
proof -
  obtain sc h where st: "st = (sc, h)" by fastforce
  have same: "count_of (sc, h') i = count_of (sc, h) i" for h' by (simp add: count_of_def)
  have at: "map_of (sc_containerList sc) j = Some c \<Longrightarrow> NumOfUpState c = count_of (sc, h) j" for j c
    by (simp add: count_of_def)
  show ?thesis
  proof (cases e)
    case (Start j)
    then show ?thesis
      using start_cases [of w j sc h] same at [of j]
      by (auto simp: sc_step_def st count_of_set_up [where h = h])
  next
    case (Stop j)
    then show ?thesis
      using stop_cases [of w j sc h] same
      by (auto simp: sc_step_def st count_of_set_up [where h = h])
  qed
qed

lemma count_run: "count_of (foldl (sc_step w) st es) i = up_count i (count_of st i) (served w st es)"
proof (induction es arbitrary: st)
  case (Cons e es)
  have "sc_step w st e = snd (sc_serve w e st)" by (simp add: sc_step_def)
  with Cons.IH [of "sc_step w st e"] count_step [of w st e i] show ?case
    by (cases e) (auto split: prod.splits option.splits)
qed simp

lemma sc_inv_count: "sc_inv st \<Longrightarrow> 0 \<le> count_of st i \<and> (sc_multiple (fst st) \<or> count_of st i \<le> 1)"
  by (cases "map_of (sc_containerList (fst st)) i")
    (auto simp: count_of_def sc_inv_def dest!: map_of_SomeD)

lemma sc_inv_new: "sc_inv (\<lparr>sc_name = s, sc_containerList = map (fresh_instance ke s m) [1..n], sc_multiple = b\<rparr>, h)"
  by (auto simp: sc_inv_def fresh_instance_def comp_def)

lemma new_scale_list:
  assumes "NewScaleContainer ke home s (Some m) = Inr (sc, m')"
  shows "sc_containerList sc = map (fresh_instance ke s m) [1..to_int (ms_Scale m)]"
    "sc_multiple sc = ms_Multiple m" "sc_name sc = s"
proof -
  have "sc = \<lparr>sc_name = s, sc_containerList = map (fresh_instance ke s m) [1..to_int (ms_Scale m)],
      sc_multiple = ms_Multiple m\<rparr>"
  proof (cases "ms_Env m = None \<and> 1 \<le> to_int (ms_Scale m)")
    case True
    then have "\<exists>ns. [1..to_int (ms_Scale m)] = 1 # ns" by (simp add: upto.simps)
    with True assms show ?thesis by (auto simp: NewScaleContainer_def)
  next
    case env: False
    show ?thesis
    proof (cases "1 \<le> to_int (ms_Scale m)")
      case True
      with env assms scale_loop_ok [of m "[]" "[1..to_int (ms_Scale m)]" ke s] show ?thesis
        by (auto simp: NewScaleContainer_def split: if_splits)
    next
      case False
      with assms show ?thesis by (auto simp: NewScaleContainer_def)
    qed
  qed
  then show "sc_containerList sc = map (fresh_instance ke s m) [1..to_int (ms_Scale m)]"
    "sc_multiple sc = ms_Multiple m" "sc_name sc = s" by simp_all
qed

lemma new_scale_inv: "NewScaleContainer ke home s (Some m) = Inr (sc, m') \<Longrightarrow> sc_inv (sc, h)"
  using new_scale_list(1) [of ke home s m sc m'] by (auto simp: sc_inv_def fresh_instance_def comp_def)


text \<open>
  C25. After any history of start and stop requests on a new scale container, whatever the
  cluster answers, the instances are still those numbered 1 to the scale, the count of each
  is the number of its starts that succeeded since its last successful stop, no count is
  negative, and none is above 1 unless the microservice allows multiple starts.
\<close>

theorem instance_counts:
  assumes "NewScaleContainer ke home s (Some m) = Inr (sc, m')" and "filled_ms (Some m)"
  shows "map fst (sc_containerList (fst (foldl (sc_step w) (sc, h) es))) = [1..to_int (ms_Scale m)] \<and>
    count_of (foldl (sc_step w) (sc, h) es) i = up_count i 0 (served w (sc, h) es) \<and>
    0 \<le> up_count i 0 (served w (sc, h) es) \<and>
    (\<not> ms_Multiple m \<longrightarrow> up_count i 0 (served w (sc, h) es) \<le> 1)"
proof -
  have "0 < to_int (ms_Scale m)" "ms_Env m \<noteq> None"
    using assms(2) by (simp_all add: filled_ms_def filled_fields_def)
  with assms(1) have sc: "sc = \<lparr>sc_name = s, sc_containerList = map (fresh_instance ke s m) [1..to_int (ms_Scale m)],
      sc_multiple = ms_Multiple m\<rparr>"
    using scale_loop_ok [of m "[]" "[1..to_int (ms_Scale m)]" ke s]
    by (auto simp: NewScaleContainer_def split: if_splits)
  have keys: "map fst (sc_containerList sc) = [1..to_int (ms_Scale m)]"
    by (simp add: sc fresh_instance_def comp_def)
  have zero: "count_of (sc, h) i = 0"
    by (auto simp: count_of_def sc fresh_instance_def dest!: map_of_SomeD split: option.splits)
  have inv: "sc_inv (foldl (sc_step w) (sc, h) es)"
    by (rule scale.run_inv) (simp only: sc sc_inv_new)
  have "0 \<le> count_of (foldl (sc_step w) (sc, h) es) i \<and>
      (\<not> ms_Multiple m \<longrightarrow> count_of (foldl (sc_step w) (sc, h) es) i \<le> 1)"
    using sc_inv_count [OF inv, of i] keys_run [of w "(sc, h)" es] by (auto simp: sc)
  with keys keys_run [of w "(sc, h)" es] count_run [of w "(sc, h)" es i] zero show ?thesis by simp
qed

definition ex_world :: "string k8s_world" where
  "ex_world = \<lparr>kw_parse = Inr, kw_statik = (\<lambda>f. Inr ''name: {MICROSERVICE_NAME}''),
     kw_server = (\<lambda>h. case last h of Get kd n \<Rightarrow> Some ''not found'' | _ \<Rightarrow> None), kw_retry = ref_retry\<rparr>"

theorem instance_counts_witness:
  "case NewScaleContainer (pd_k8sEnv ex_pod) ''/var/lib/aion'' ''camera'' (Some ex_loaded) of
     Inl e \<Rightarrow> False
   | Inr (sc, m') \<Rightarrow> count_of (foldl (sc_step ex_world) (sc, []) [Start 1, Start 1, Stop 1, Start 1]) 1 =
       up_count 1 0 (served ex_world (sc, []) [Start 1, Start 1, Stop 1, Start 1])"
proof -
  have f: "filled_ms (Some ex_loaded)" by code_simp
  have "\<not> isl (NewScaleContainer (pd_k8sEnv ex_pod) ''/var/lib/aion'' ''camera'' (Some ex_loaded))" by code_simp
  then obtain sc m' where n: "NewScaleContainer (pd_k8sEnv ex_pod) ''/var/lib/aion'' ''camera'' (Some ex_loaded) = Inr (sc, m')"
    by (cases "NewScaleContainer (pd_k8sEnv ex_pod) ''/var/lib/aion'' ''camera'' (Some ex_loaded)") auto
  from instance_counts [OF n f, where h = "[]" and w = ex_world] show ?thesis
    by (simp only: n sum.case prod.case)
qed

text \<open>
  Requests that must not reach the cluster do not: a number outside 1 to the scale, a
  second start of a running instance that does not allow it, and a stop of an instance that
  is not running are answered with an error, make no API call and change nothing.
\<close>

theorem refused_requests:
  assumes "map fst (sc_containerList sc) = [1..n]"
  shows "(i \<notin> {1..n} \<or> (0 < count_of (sc, h) i \<and> \<not> sc_multiple sc) \<longrightarrow>
      (\<exists>e. StartMicroservice w i (sc, h) = (Some (Error e), sc, h))) \<and>
    (i \<notin> {1..n} \<or> count_of (sc, h) i = 0 \<longrightarrow>
      (\<exists>e. StopMicroservice w i (sc, h) = (Some (Error e), sc, h)))"
proof -
  have len: "int (length (sc_containerList sc)) = max 0 n"
    using arg_cong [OF assms, of length] by simp
  have "fst ` set (sc_containerList sc) = {1..n}"
    using arg_cong [OF assms, of set] by simp
  then have none: "map_of (sc_containerList sc) i = None \<longleftrightarrow> i \<notin> {1..n}"
    by (simp add: map_of_eq_None_iff)
  show ?thesis
  proof (cases "map_of (sc_containerList sc) i")
    case None
    with none show ?thesis
      by (auto simp: StartMicroservice_def StopMicroservice_def over_scale_def not_exists_def count_of_def)
  next
    case (Some c)
    with none len have "i \<in> {1..n}" "\<not> int (length (sc_containerList sc)) < i" by auto
    with Some show ?thesis
      by (auto simp: StartMicroservice_def StopMicroservice_def already_started_def already_finished_def count_of_def)
  qed
qed

theorem refused_requests_witness:
  "\<exists>e. StopMicroservice ex_world 3 (\<lparr>sc_name = ''camera'', sc_containerList =
     map (fresh_instance (pd_k8sEnv ex_pod) ''camera'' ex_loaded) [1..2], sc_multiple = False\<rparr>, []) =
   (Some (Error e), \<lparr>sc_name = ''camera'', sc_containerList =
     map (fresh_instance (pd_k8sEnv ex_pod) ''camera'' ex_loaded) [1..2], sc_multiple = False\<rparr>, [])"
  using refused_requests [of "\<lparr>sc_name = ''camera'', sc_containerList =
     map (fresh_instance (pd_k8sEnv ex_pod) ''camera'' ex_loaded) [1..2], sc_multiple = False\<rparr>" 2 3 "[]" ex_world]
  by (simp add: fresh_instance_def comp_def)

section \<open>Witnesses\<close>

lemma ex_world_retry: "retry_documented (kw_retry ex_world)"
  by (simp add: ex_world_def)

theorem start_in_order_witness:
  "\<exists>h1 h2. stored (kw_server ex_world) (config_res ''camera'' 1) h1 \<and>
     stored (kw_server ex_world) (workload ''camera'' ex_loaded 1) h2 \<and>
     stored (kw_server ex_world) (service_res ''camera'' 1)
       (snd (StartProcess ex_world (NewContainerMicroservice (pd_k8sEnv ex_pod) ''camera'' ex_loaded 1) []))"
proof -
  let ?r = "StartProcess ex_world (NewContainerMicroservice (pd_k8sEnv ex_pod) ''camera'' ex_loaded 1) []"
  have "fst ?r = None" by code_simp
  with start_in_order [OF ex_world_retry surjective_pairing, where ke = "pd_k8sEnv ex_pod" and s = "''camera''" and m = ex_loaded and i = 1 and h = "[]"]
  show ?thesis by blast
qed

theorem stop_tries_all_witness:
  "\<exists>h1 h2. gone (kw_server ex_world) (service_res ''camera'' 1) [] h1 \<and>
     gone (kw_server ex_world) (config_res ''camera'' 1) h2
       (snd (StopAllProcess ex_world (NewContainerMicroservice (pd_k8sEnv ex_pod) ''camera'' ex_loaded 1) []))"
proof -
  let ?r = "StopAllProcess ex_world (NewContainerMicroservice (pd_k8sEnv ex_pod) ''camera'' ex_loaded 1) []"
  have "fst ?r = None" by code_simp
  with stop_tries_all [OF ex_world_retry surjective_pairing, where ke = "pd_k8sEnv ex_pod" and s = "''camera''" and m = ex_loaded and i = 1 and h = "[]"]
  show ?thesis by blast
qed

end
