(* ===== verification/Controller.thy ===== *)
theory Controller
  imports Microservice
begin

text \<open>
  The microservice controller of the service broker (cmd/service-broker/app/controller.go):
  the scale containers of the deployed project, the status map that a worker reports, the
  watchers it spawns, and the two messages it serves, a new project and a request to start
  an instance. Every operation returns the panic that unwinds it, if any, and the state.
\<close>

section \<open>State\<close>

text \<open>
  \<open>br_triggers\<close> holds what was sent to the update channel (the status map as it was when it
  was sent), \<open>br_watchers\<close> the live goroutines that watch an instance, \<open>br_calls\<close> the API calls.
\<close>

record 'q broker =
  br_aionHome :: string
  br_microserviceList :: "(string, ScaleContainer) gomap"
  br_aionSetting :: "AionSetting option"
  br_microservicesStatus :: "(string, bool) gomap"
  br_updateTrigger :: "(string, bool) gomap list"
  br_workerMode :: bool
  br_k8sEnv :: K8sEnv
  br_watchers :: "(string \<times> int) list"
  br_calls :: "'q calls"

section \<open>Status\<close>

definition sendUpdateStatusTrigger :: "(string, bool) gomap \<Rightarrow> 'q broker \<Rightarrow> 'q broker" where
  "sendUpdateStatusTrigger updated b = b\<lparr>br_updateTrigger := br_updateTrigger b @ [updated]\<rparr>"

definition SetServiceStatusActive :: "string \<Rightarrow> 'q broker \<Rightarrow> 'q broker" where
  "SetServiceStatusActive serviceName b =
     (let b' = b\<lparr>br_microservicesStatus := put serviceName True (br_microservicesStatus b)\<rparr>
      in sendUpdateStatusTrigger (br_microservicesStatus b') b')"

definition SetServiceStatusDeactivate :: "string \<Rightarrow> 'q broker \<Rightarrow> 'q broker" where
  "SetServiceStatusDeactivate serviceName b =
     (let b' = b\<lparr>br_microservicesStatus := put serviceName False (br_microservicesStatus b)\<rparr>
      in sendUpdateStatusTrigger (br_microservicesStatus b') b')"

definition GetMicroServicesStatus :: "'q broker \<Rightarrow> (string, bool) gomap" where
  "GetMicroServicesStatus b = br_microservicesStatus b"

section \<open>Building the scale containers of a project\<close>

definition set_env :: "'q broker \<Rightarrow> AionSetting \<Rightarrow> (string, string) gomap \<Rightarrow> (string, string) gomap" where
  "set_env b as env = put ''DEBUG'' (GetDebug as) (put ''DEVICE_NAME'' (GetDeviceName as)
     (put ''AION_HOME'' (br_aionHome b) env))"

text \<open>
  \<open>setMicroservice\<close>; \<open>NewScaleContainer\<close> writes through \<open>msData\<close>, which is the setting's own.
\<close>

definition setMicroservice :: "string \<Rightarrow> Microservice \<Rightarrow> 'q broker \<Rightarrow> go_error option \<times> Microservice \<times> 'q broker" where
  "setMicroservice msName msData b =
     (case NewScaleContainer (br_k8sEnv b) (br_aionHome b) msName (Some msData) of
        Inl e \<Rightarrow> (Some e, msData, b)
      | Inr (sc, msData') \<Rightarrow> (None, msData', b\<lparr>br_microserviceList := put msName sc (br_microserviceList b)\<rparr>))"

fun set_loop :: "AionSetting \<Rightarrow> (string, Microservice option) gomap \<Rightarrow> 'q broker \<Rightarrow>
    go_error option \<times> (string, Microservice option) gomap \<times> 'q broker" where
  "set_loop as [] b = (None, [], b)"
| "set_loop as ((msName, msData) # rest) b =
     (case msData of
        None \<Rightarrow> (Some nil_deref, (msName, msData) # rest, b)
      | Some m \<Rightarrow>
         (case ms_Env m of
            None \<Rightarrow> (Some nil_map_write, (msName, msData) # rest, b)
          | Some env \<Rightarrow>
             (case setMicroservice msName (m\<lparr>ms_Env := Some (set_env b as env)\<rparr>) b of
                (Some e, m', b') \<Rightarrow> (Some e, (msName, Some m') # rest, b')
              | (None, m', b') \<Rightarrow>
                 (let b'' = (if br_workerMode b' then SetServiceStatusDeactivate msName b' else b') in
                  (case set_loop as rest b'' of (e, ms, b3) \<Rightarrow> (e, (msName, Some m') # ms, b3))))))"

text \<open>
  The loop collects the errors of \<open>setMicroservice\<close> and only logs them, but the only way that
  \<open>NewScaleContainer\<close> fails is a panic.
\<close>

definition setMicroserviceList :: "'q broker \<Rightarrow> go_error option \<times> 'q broker" where
  "setMicroserviceList b =
     (case br_aionSetting b of
        None \<Rightarrow> (Some nil_deref, b)
      | Some as \<Rightarrow> (case set_loop as (GetMicroserviceList as) b of
          (e, ms, b') \<Rightarrow> (e, b'\<lparr>br_aionSetting := Some (as\<lparr>as_Microservices := ms\<rparr>)\<rparr>)))"

section \<open>Starting\<close>

text \<open>An operation on one scale container of the list.\<close>

definition on_container :: "(ScaleContainer \<times> 'q calls \<Rightarrow> go_error option \<times> ScaleContainer \<times> 'q calls) \<Rightarrow>
    string \<Rightarrow> 'q broker \<Rightarrow> go_error option \<times> 'q broker" where
  "on_container f name b = (case map_of (br_microserviceList b) name of
      None \<Rightarrow> (Some (no_microservice name), b)
    | Some sc \<Rightarrow> (case f (sc, br_calls b) of (e, sc', h) \<Rightarrow>
        (e, b\<lparr>br_microserviceList := put name sc' (br_microserviceList b), br_calls := h\<rparr>)))"

definition spawn_watcher :: "string \<Rightarrow> int \<Rightarrow> 'q broker \<Rightarrow> 'q broker" where
  "spawn_watcher name n b = b\<lparr>br_watchers := br_watchers b @ [(name, n)]\<rparr>"

fun start_loop :: "'q k8s_world \<Rightarrow> string \<Rightarrow> int list \<Rightarrow> 'q broker \<Rightarrow> go_error option \<times> 'q broker" where
  "start_loop w name [] b = (None, b)"
| "start_loop w name (i # ns) b =
     (case on_container (StartMicroservice w i) name b of
        (Some e, b') \<Rightarrow> (if panicking (Some e) then (Some e, b') else start_loop w name ns b')
      | (None, b') \<Rightarrow> start_loop w name ns (spawn_watcher name i b'))"

definition startMicroservice :: "'q k8s_world \<Rightarrow> string \<Rightarrow> 'q broker \<Rightarrow> go_error option \<times> 'q broker" where
  "startMicroservice w name b =
     (case map_of (br_microserviceList b) name of
        None \<Rightarrow> (Some (no_microservice name), b)
      | Some ms \<Rightarrow> start_loop w name [1..int (GetScale ms)] b)"

text \<open>\<open>errList\<close> collects the texts of the errors; a panic unwinds the loop.\<close>

fun startup_loop :: "'q k8s_world \<Rightarrow> (string, Microservice option) gomap \<Rightarrow> string list \<Rightarrow> 'q broker \<Rightarrow>
    go_error option \<times> string list \<times> 'q broker" where
  "startup_loop w [] errList b = (None, errList, b)"
| "startup_loop w ((msName, msData) # rest) errList b =
     (case msData of
        None \<Rightarrow> (Some nil_deref, errList, b)
      | Some m \<Rightarrow>
         (if ms_Startup m
          then (case startMicroservice w msName b of
             (Some e, b') \<Rightarrow>
               (if panicking (Some e) then (Some e, errList, b')
                else startup_loop w rest (errList @ [err_text e]) b')
           | (None, b') \<Rightarrow>
               startup_loop w rest errList (if br_workerMode b' then SetServiceStatusActive msName b' else b'))
          else startup_loop w rest errList b))"

definition startStartupMicroservice :: "'q k8s_world \<Rightarrow> 'q broker \<Rightarrow> go_error option \<times> 'q broker" where
  "startStartupMicroservice w b =
     (case br_aionSetting b of
        None \<Rightarrow> (Some nil_deref, b)
      | Some as \<Rightarrow> (case startup_loop w (GetMicroserviceList as) [] b of
          (Some e, errList, b') \<Rightarrow> (Some e, b')
        | (None, errList, b') \<Rightarrow>
            (if errList \<noteq> []
             then (Some (Error (''cant startup microservice: '' @ CHR 0x0A # join [CHR 0x0A] errList)), b')
             else (None, b'))))"

definition startMicroserviceByNum :: "'q k8s_world \<Rightarrow> string \<Rightarrow> int \<Rightarrow> 'q broker \<Rightarrow> go_error option \<times> 'q broker" where
  "startMicroserviceByNum w name mNum b =
     (case on_container (StartMicroservice w mNum) name b of
        (Some e, b') \<Rightarrow> (Some e, b')
      | (None, b') \<Rightarrow>
         (let b'' = (if br_workerMode b' then SetServiceStatusActive name b' else b')
          in (None, spawn_watcher name mNum b'')))"

section \<open>Stopping\<close>

fun stop_loop :: "'q k8s_world \<Rightarrow> string \<Rightarrow> int list \<Rightarrow> 'q broker \<Rightarrow> 'q broker" where
  "stop_loop w name [] b = b"
| "stop_loop w name (i # ns) b = stop_loop w name ns (snd (on_container (StopMicroservice w i) name b))"

definition stopMicroservice :: "'q k8s_world \<Rightarrow> string \<Rightarrow> 'q broker \<Rightarrow> go_error option \<times> 'q broker" where
  "stopMicroservice w name b =
     (case map_of (br_microserviceList b) name of
        None \<Rightarrow> (Some (no_microservice name), b)
      | Some ms \<Rightarrow>
         (let b' = stop_loop w name [1..int (GetScale ms)] b
          in (None, if br_workerMode b' then SetServiceStatusDeactivate name b' else b')))"

definition StopAllMicroservice :: "'q k8s_world \<Rightarrow> 'q broker \<Rightarrow> 'q broker" where
  "StopAllMicroservice w b = foldl (\<lambda>b name. snd (stopMicroservice w name b)) b (keys (br_microserviceList b))"

section \<open>The messages\<close>

datatype broker_msg = Deploy "AionSetting option" | StartContainer string int | CtxDone

text \<open>
  \<open>WatchKanbanForMicroservice\<close>, one message: a new project cancels the watchers of the old
  one, stops everything, replaces the setting and starts what is marked so; errors are only
  logged. The hand-over of the setting to the watcher in between is part of the theory of the
  channels.
\<close>

definition handle_deploy :: "'q k8s_world \<Rightarrow> AionSetting option \<Rightarrow> 'q broker \<Rightarrow> go_error option \<times> 'q broker" where
  "handle_deploy w as b =
     (let b1 = StopAllMicroservice w (b\<lparr>br_watchers := []\<rparr>);
          b2 = b1\<lparr>br_aionSetting := as\<rparr>
      in (case setMicroserviceList b2 of
            (Some e, b3) \<Rightarrow> (Some e, b3)
          | (None, b3) \<Rightarrow> startStartupMicroservice w b3))"

fun handle :: "'q k8s_world \<Rightarrow> broker_msg \<Rightarrow> 'q broker \<Rightarrow> go_error option \<times> 'q broker" where
  "handle w (Deploy as) b = handle_deploy w as b"
| "handle w (StartContainer name n) b = startMicroserviceByNum w name n b"
| "handle w CtxDone b = (None, b\<lparr>br_watchers := []\<rparr>)"

definition new_broker :: "string \<Rightarrow> bool \<Rightarrow> K8sEnv \<Rightarrow> 'q broker" where
  "new_broker home worker ke = \<lparr>br_aionHome = home, br_microserviceList = [], br_aionSetting = None,
     br_microservicesStatus = [], br_updateTrigger = [], br_workerMode = worker, br_k8sEnv = ke,
     br_watchers = [], br_calls = []\<rparr>"

section \<open>Watchers and running instances\<close>

text \<open>How often an instance has been started since its last stop.\<close>

definition cnt :: "'q broker \<Rightarrow> string \<Rightarrow> int \<Rightarrow> int" where
  "cnt b name i = (case map_of (br_microserviceList b) name of None \<Rightarrow> 0 | Some sc \<Rightarrow> count_of (sc, br_calls b) i)"

definition containers_ok :: "'q broker \<Rightarrow> bool" where
  "containers_ok b \<longleftrightarrow> (\<forall>name sc. map_of (br_microserviceList b) name = Some sc \<longrightarrow> sc_inv (sc, br_calls b))"

definition allows_multiple :: "'q broker \<Rightarrow> string \<Rightarrow> bool" where
  "allows_multiple b name = (case map_of (br_microserviceList b) name of None \<Rightarrow> False | Some sc \<Rightarrow> sc_multiple sc)"

definition watchers_ok :: "'q broker \<Rightarrow> bool" where
  "watchers_ok b \<longleftrightarrow> (\<forall>name i. int (count_list (br_watchers b) (name, i)) \<le> cnt b name i)"

definition broker_inv :: "'q broker \<Rightarrow> bool" where
  "broker_inv b \<longleftrightarrow> containers_ok b \<and> watchers_ok b"

lemma sc_inv_any: "sc_inv (sc, h) \<Longrightarrow> sc_inv (sc, h')"
  by (simp add: sc_inv_def)

lemma count_of_any: "count_of (sc, h) i = count_of (sc, h') i"
  by (simp add: count_of_def)

lemma cnt_nonneg: "containers_ok b \<Longrightarrow> 0 \<le> cnt b name i"
  using sc_inv_count [of "(_, br_calls b)" i]
  by (auto simp: cnt_def containers_ok_def split: option.splits)

lemma cnt_multiple: "containers_ok b \<Longrightarrow> allows_multiple b name \<or> cnt b name i \<le> 1"
  using sc_inv_count [of "(_, br_calls b)" i]
  by (fastforce simp: cnt_def containers_ok_def allows_multiple_def split: option.splits)

text \<open>The state with one container replaced.\<close>

lemma put_container:
  assumes "containers_ok b" "sc_inv (sc, h)"
  shows "containers_ok (b\<lparr>br_microserviceList := put name sc (br_microserviceList b), br_calls := h\<rparr>)"
  using assms by (auto simp: containers_ok_def intro: sc_inv_any)

lemma serve_container:
  assumes "containers_ok b"
  shows "containers_ok (snd (on_container (sc_serve w e) name b))"
proof (cases "map_of (br_microserviceList b) name")
  case None
  with assms show ?thesis by (simp add: on_container_def)
next
  case (Some sc)
  with assms have "sc_inv (sc, br_calls b)" by (simp add: containers_ok_def)
  from scale.step_inv [OF this, of w e] put_container [OF assms] Some show ?thesis
    by (auto simp: on_container_def sc_step_def split: prod.splits)
qed

lemma serve_cnt:
  "cnt (snd (on_container (sc_serve w e) name b)) n i =
    (if n = name \<and> fst (on_container (sc_serve w e) name b) = None then up_count i (cnt b n i) [e] else cnt b n i)"
proof (cases "map_of (br_microserviceList b) name")
  case None
  then show ?thesis by (simp add: on_container_def cnt_def)
next
  case (Some sc)
  obtain r sc' h where r: "sc_serve w e (sc, br_calls b) = (r, sc', h)" by (cases "sc_serve w e (sc, br_calls b)") auto
  have "count_of (sc', h) i = (if r = None then up_count i (count_of (sc, br_calls b) i) [e] else count_of (sc, br_calls b) i)"
    using count_step [of w "(sc, br_calls b)" e i] r by (simp add: sc_step_def)
  with Some r show ?thesis
    by (simp add: on_container_def cnt_def count_of_any [of _ h _ "br_calls b"] split: option.splits)
qed

lemma serve_other [simp]:
  "br_watchers (snd (on_container f name b)) = br_watchers b"
  "br_aionSetting (snd (on_container f name b)) = br_aionSetting b"
  "br_workerMode (snd (on_container f name b)) = br_workerMode b"
  "br_k8sEnv (snd (on_container f name b)) = br_k8sEnv b"
  "br_aionHome (snd (on_container f name b)) = br_aionHome b"
  "br_microservicesStatus (snd (on_container f name b)) = br_microservicesStatus b"
  by (auto simp: on_container_def split: option.splits prod.splits)

lemma status_same [simp]:
  "cnt (SetServiceStatusActive s b) = cnt b" "cnt (SetServiceStatusDeactivate s b) = cnt b"
  "containers_ok (SetServiceStatusActive s b) = containers_ok b"
  "containers_ok (SetServiceStatusDeactivate s b) = containers_ok b"
  "br_watchers (SetServiceStatusActive s b) = br_watchers b"
  "br_watchers (SetServiceStatusDeactivate s b) = br_watchers b"
  "br_microserviceList (SetServiceStatusActive s b) = br_microserviceList b"
  "br_microserviceList (SetServiceStatusDeactivate s b) = br_microserviceList b"
  "br_aionSetting (SetServiceStatusActive s b) = br_aionSetting b"
  "br_aionSetting (SetServiceStatusDeactivate s b) = br_aionSetting b"
  "br_workerMode (SetServiceStatusActive s b) = br_workerMode b"
  "br_workerMode (SetServiceStatusDeactivate s b) = br_workerMode b"
  "br_k8sEnv (SetServiceStatusActive s b) = br_k8sEnv b"
  "br_k8sEnv (SetServiceStatusDeactivate s b) = br_k8sEnv b"
  "br_aionHome (SetServiceStatusActive s b) = br_aionHome b"
  "br_aionHome (SetServiceStatusDeactivate s b) = br_aionHome b"
  by (simp_all add: SetServiceStatusActive_def SetServiceStatusDeactivate_def sendUpdateStatusTrigger_def
      Let_def fun_eq_iff cnt_def containers_ok_def count_of_def split: option.splits)

lemma spawn_same [simp]:
  "cnt (spawn_watcher name i b) = cnt b" "containers_ok (spawn_watcher name i b) = containers_ok b"
  "br_watchers (spawn_watcher name i b) = br_watchers b @ [(name, i)]"
  by (simp_all add: spawn_watcher_def fun_eq_iff cnt_def containers_ok_def count_of_def split: option.splits)

lemma status_inv [simp]:
  "broker_inv (SetServiceStatusActive s b) = broker_inv b"
  "broker_inv (SetServiceStatusDeactivate s b) = broker_inv b"
  by (simp_all add: broker_inv_def watchers_ok_def)

text \<open>A start that succeeds pays for the watcher that is spawned.\<close>

lemma start_one_inv:
  assumes "broker_inv b" "on_container (StartMicroservice w i) name b = (r, b')"
  shows "broker_inv b'" and "r = None \<Longrightarrow> broker_inv (spawn_watcher name i b')"
proof -
  have f: "sc_serve w (Start i) = StartMicroservice w i" by (simp add: fun_eq_iff)
  have b': "b' = snd (on_container (sc_serve w (Start i)) name b)" "r = fst (on_container (sc_serve w (Start i)) name b)"
    by (simp_all add: f assms(2))
  have ok: "containers_ok b'" using assms(1) serve_container [of b w "Start i" name]
    by (simp add: b'(1) broker_inv_def del: sc_serve.simps)
  have c: "cnt b' n j = (if n = name \<and> r = None \<and> j = i then cnt b n j + 1 else cnt b n j)" for n j
    using serve_cnt [of w "Start i" name b n j] by (simp add: b')
  have w: "br_watchers b' = br_watchers b" by (simp add: b'(1))
  have le: "int (count_list (br_watchers b) (n, j)) \<le> cnt b n j" for n j
    using assms(1) by (simp add: broker_inv_def watchers_ok_def)
  show "broker_inv b'"
    unfolding broker_inv_def watchers_ok_def w c using ok le by (force intro: order_trans)
  show "broker_inv (spawn_watcher name i b')" if "r = None"
    unfolding broker_inv_def watchers_ok_def using that ok le by (auto simp: w c)
qed

lemma start_loop_inv: "broker_inv b \<Longrightarrow> broker_inv (snd (start_loop w name ns b))"
proof (induction ns arbitrary: b)
  case (Cons i ns)
  obtain r b' where r: "on_container (StartMicroservice w i) name b = (r, b')" by fastforce
  from start_one_inv [OF Cons.prems r] Cons.IH show ?case
    by (cases r) (simp_all add: r)
qed simp

lemma startMicroservice_inv: "broker_inv b \<Longrightarrow> broker_inv (snd (startMicroservice w name b))"
  by (simp add: startMicroservice_def start_loop_inv split: option.splits)

lemma startup_loop_inv: "broker_inv b \<Longrightarrow> broker_inv (snd (snd (startup_loop w ms errs b)))"
proof (induction ms arbitrary: errs b)
  case (Cons p ms)
  obtain name msData where p: "p = (name, msData)" by fastforce
  show ?case
  proof (cases msData)
    case None
    with Cons.prems show ?thesis by (simp add: p)
  next
    case (Some m)
    obtain r b' where r: "startMicroservice w name b = (r, b')" by fastforce
    with startMicroservice_inv [OF Cons.prems, of w name] have "broker_inv b'" by simp
    with Cons show ?thesis by (cases r) (simp_all add: p Some r)
  qed
qed simp

lemma startStartup_inv: "broker_inv b \<Longrightarrow> broker_inv (snd (startStartupMicroservice w b))"
  using startup_loop_inv [of b w _ "[]"]
  by (simp add: startStartupMicroservice_def split_beta split: option.splits)

lemma startByNum_inv: "broker_inv b \<Longrightarrow> broker_inv (snd (startMicroserviceByNum w name n b))"
proof -
  assume inv: "broker_inv b"
  obtain r b' where r: "on_container (StartMicroservice w n) name b = (r, b')" by fastforce
  have same: "broker_inv (spawn_watcher name n (SetServiceStatusActive name b')) = broker_inv (spawn_watcher name n b')"
    by (simp add: broker_inv_def watchers_ok_def)
  from start_one_inv [OF inv r] same show ?thesis
    by (cases r) (simp_all add: startMicroserviceByNum_def r)
qed

lemma stop_loop_ok:
  "containers_ok b \<Longrightarrow> containers_ok (stop_loop w name ns b) \<and> br_watchers (stop_loop w name ns b) = br_watchers b"
proof (induction ns arbitrary: b)
  case (Cons i ns)
  have f: "sc_serve w (Stop i) = StopMicroservice w i" by (simp add: fun_eq_iff)
  from serve_container [OF Cons.prems, of w "Stop i" name] Cons.IH show ?case
    by (simp only: f stop_loop.simps serve_other)
qed simp

lemma stop_ok:
  "containers_ok b \<Longrightarrow> containers_ok (snd (stopMicroservice w name b)) \<and> br_watchers (snd (stopMicroservice w name b)) = br_watchers b"
  by (auto simp: stopMicroservice_def Let_def stop_loop_ok split: option.splits)

lemma stopAll_ok:
  assumes "containers_ok b"
  shows "containers_ok (StopAllMicroservice w b) \<and> br_watchers (StopAllMicroservice w b) = br_watchers b"
proof -
  have "containers_ok (foldl (\<lambda>b name. snd (stopMicroservice w name b)) b ns) \<and>
      br_watchers (foldl (\<lambda>b name. snd (stopMicroservice w name b)) b ns) = br_watchers b"
    if "containers_ok b" for ns b
    using that
  proof (induction ns arbitrary: b)
    case (Cons n ns)
    from stop_ok [OF Cons.prems, of w n] Cons.IH show ?case by simp
  qed simp
  with assms show ?thesis by (simp add: StopAllMicroservice_def)
qed

lemma setMicroservice_ok:
  assumes "setMicroservice name m b = (r, m', b')"
  shows "containers_ok b \<Longrightarrow> containers_ok b'" and "br_watchers b' = br_watchers b"
proof -
  show "br_watchers b' = br_watchers b"
    using assms by (auto simp: setMicroservice_def split: sum.splits)
  show "containers_ok b'" if ok: "containers_ok b"
  proof (cases "NewScaleContainer (br_k8sEnv b) (br_aionHome b) name (Some m)")
    case (Inl e)
    with assms ok show ?thesis by (auto simp: setMicroservice_def)
  next
    case (Inr p)
    obtain sc where sc: "p = (sc, snd p)" by (cases p) auto
    have "sc_inv (sc, h)" for h using new_scale_inv [of _ _ name m sc "snd p"] Inr sc by metis
    with assms ok Inr sc show ?thesis
      by (cases p) (auto simp: setMicroservice_def containers_ok_def split: if_splits)
  qed
qed

lemma set_loop_ok:
  "containers_ok b \<Longrightarrow> containers_ok (snd (snd (set_loop as ms b))) \<and>
    br_watchers (snd (snd (set_loop as ms b))) = br_watchers b"
proof (induction ms arbitrary: b)
  case (Cons p ms)
  obtain name msData where p: "p = (name, msData)" by fastforce
  show ?case
  proof (cases "\<exists>m env. msData = Some m \<and> ms_Env m = Some env")
    case False
    then show ?thesis using Cons.prems by (auto simp: p split: option.splits)
  next
    case True
    then obtain m env where m: "msData = Some m" "ms_Env m = Some env" by blast
    obtain r m' b' where r: "setMicroservice name (m\<lparr>ms_Env := Some (set_env b as env)\<rparr>) b = (r, m', b')"
      by (cases "setMicroservice name (m\<lparr>ms_Env := Some (set_env b as env)\<rparr>) b") auto
    from setMicroservice_ok [OF r] Cons show ?thesis
      by (cases r) (simp_all add: p m r Let_def split_beta)
  qed
qed simp

lemma deploy_inv:
  assumes "containers_ok b"
  shows "broker_inv (snd (handle_deploy w as b))"
proof -
  let ?b1 = "StopAllMicroservice w (b\<lparr>br_watchers := []\<rparr>)"
  have "containers_ok (b\<lparr>br_watchers := []\<rparr>)" using assms by (simp add: containers_ok_def)
  from stopAll_ok [OF this, of w] have "containers_ok (?b1\<lparr>br_aionSetting := as\<rparr>)"
    "br_watchers (?b1\<lparr>br_aionSetting := as\<rparr>) = []" by (simp_all add: containers_ok_def)
  then have s: "containers_ok (snd (setMicroserviceList (?b1\<lparr>br_aionSetting := as\<rparr>)))"
    "br_watchers (snd (setMicroserviceList (?b1\<lparr>br_aionSetting := as\<rparr>))) = []"
    using set_loop_ok [of "?b1\<lparr>br_aionSetting := as\<rparr>"]
    by (auto simp: setMicroserviceList_def split_beta containers_ok_def split: option.splits)
  then have inv: "broker_inv (snd (setMicroserviceList (?b1\<lparr>br_aionSetting := as\<rparr>)))"
    by (simp add: broker_inv_def watchers_ok_def cnt_nonneg)
  obtain r b3 where r: "setMicroserviceList (?b1\<lparr>br_aionSetting := as\<rparr>) = (r, b3)" by fastforce
  with inv have "broker_inv b3" by simp
  with startStartup_inv [OF this, of w] show ?thesis
    by (cases r) (simp_all add: handle_deploy_def Let_def r)
qed

text \<open>
  An event of the controller: a message it handles, or a goroutine that watches an instance
  returning by itself.
\<close>

datatype broker_event = Message broker_msg | WatcherReturns string int

fun broker_step :: "'q k8s_world \<Rightarrow> 'q broker \<Rightarrow> broker_event \<Rightarrow> 'q broker" where
  "broker_step w b (Message m) = snd (handle w m b)"
| "broker_step w b (WatcherReturns name n) = b\<lparr>br_watchers := remove1 (name, n) (br_watchers b)\<rparr>"

lemma count_list_remove1: "count_list (remove1 x xs) y \<le> count_list xs y"
  by (induction xs) auto

lemma fewer_watchers_inv:
  assumes "broker_inv b" "\<And>p. count_list ws p \<le> count_list (br_watchers b) p"
  shows "broker_inv (b\<lparr>br_watchers := ws\<rparr>)"
proof -
  have "int (count_list ws (name, i)) \<le> cnt b name i" for name i
  proof -
    have "int (count_list (br_watchers b) (name, i)) \<le> cnt b name i"
      using assms(1) by (simp add: broker_inv_def watchers_ok_def)
    with assms(2) [of "(name, i)"] show ?thesis by linarith
  qed
  moreover have "cnt (b\<lparr>br_watchers := ws\<rparr>) = cnt b" by (simp add: fun_eq_iff cnt_def split: option.splits)
  ultimately show ?thesis
    using assms(1) by (simp add: broker_inv_def watchers_ok_def containers_ok_def)
qed

interpretation brk: stepper "broker_step w" broker_inv for w
proof unfold_locales
  fix b :: "'a broker" and e
  assume inv: "broker_inv b"
  show "broker_inv (broker_step w b e)"
  proof (cases e)
    case (Message m)
    then show ?thesis
      using inv deploy_inv [of b] startByNum_inv [OF inv] fewer_watchers_inv [OF inv, of "[]"]
      by (cases m) (simp_all add: broker_inv_def)
  next
    case (WatcherReturns name n)
    then show ?thesis
      using fewer_watchers_inv [OF inv count_list_remove1] by simp
  qed
qed

lemma new_broker_inv: "broker_inv (new_broker home worker ke)"
  by (simp add: broker_inv_def containers_ok_def watchers_ok_def cnt_def new_broker_def)

text \<open>
  Whatever projects are deployed, whatever starts are requested, whatever the cluster
  answers and whenever watchers return: no instance of a microservice that does not allow
  multiple starts ever has two watchers at once, so that no kanban it writes is routed twice;
  and an instance that has a watcher has been started since its last stop.
\<close>

theorem one_watcher_per_instance:
  "(let b = foldl (broker_step w) (new_broker home worker ke) es in
    (allows_multiple b name \<or> count_list (br_watchers b) (name, i) \<le> 1) \<and>
    int (count_list (br_watchers b) (name, i)) \<le> cnt b name i)"
proof -
  let ?b = "foldl (broker_step w) (new_broker home worker ke) es"
  have "broker_inv ?b" by (rule brk.run_inv [OF new_broker_inv])
  then have "int (count_list (br_watchers ?b) (name, i)) \<le> cnt ?b name i"
    "allows_multiple ?b name \<or> cnt ?b name i \<le> 1"
    by (simp_all add: broker_inv_def watchers_ok_def cnt_multiple)
  then show ?thesis by (auto simp: Let_def)
qed

section \<open>What a deployment leaves\<close>

text \<open>Each container's instances are built from data that can be built.\<close>

definition startable :: "'q k8s_world \<Rightarrow> ScaleContainer \<Rightarrow> bool" where
  "startable w sc \<longleftrightarrow> (\<forall>p \<in> set (sc_containerList sc). \<forall>h. \<not> panicking (fst (StartProcess w (cs_Container (snd p)) h)))"

lemma startable_set_up: "startable w sc \<Longrightarrow> map_of (sc_containerList sc) i = Some c \<Longrightarrow> startable w (set_up i c n sc)"
  using put_subset [of i "c\<lparr>NumOfUpState := n\<rparr>" "sc_containerList sc"]
  by (fastforce simp: startable_def set_up_def dest!: map_of_SomeD)

lemma fresh_startable:
  assumes "world_ok w" "buildable w m"
  shows "startable w (sc\<lparr>sc_containerList := map (fresh_instance ke s m) ns\<rparr>)"
proof -
  have "buildable w (with_number i m)" for i using assms(2) by (simp add: buildable_def with_number_def)
  then show ?thesis
    using start_no_panic [OF assms(1)] by (auto simp: startable_def fresh_instance_def)
qed

definition ready :: "'q k8s_world \<Rightarrow> 'q broker \<Rightarrow> string \<Rightarrow> int \<Rightarrow> bool" where
  "ready w b name n \<longleftrightarrow> (\<exists>sc. map_of (br_microserviceList b) name = Some sc \<and> startable w sc \<and>
     map fst (sc_containerList sc) = [1..n] \<and> length (sc_containerList sc) = nat n)"

definition paired :: "'q broker \<Rightarrow> string \<Rightarrow> bool" where
  "paired b name \<longleftrightarrow> (\<forall>i. cnt b name i = int (count_list (br_watchers b) (name, i)))"

lemma ready_status [simp]:
  "ready w (SetServiceStatusActive s b) name n = ready w b name n"
  "ready w (SetServiceStatusDeactivate s b) name n = ready w b name n"
  "ready w (spawn_watcher s i b) name n = ready w b name n"
  by (simp_all add: ready_def spawn_watcher_def)

lemma paired_status [simp]:
  "paired (SetServiceStatusActive s b) name = paired b name"
  "paired (SetServiceStatusDeactivate s b) name = paired b name"
  by (simp_all add: paired_def)

lemma start_one:
  assumes "on_container (StartMicroservice w i) name b = (r, b')"
  shows "ready w b nm n \<Longrightarrow> ready w b' nm n"
    and "ready w b name n \<Longrightarrow> \<not> panicking r"
    and "\<And>nm. paired b nm \<Longrightarrow> paired (if r = None then spawn_watcher name i b' else b') nm"
    and "cnt b nm j \<le> cnt b' nm j" and "r = None \<Longrightarrow> cnt b' name i = cnt b name i + 1"
    and "nm \<noteq> name \<Longrightarrow> cnt b' nm j = cnt b nm j" and "br_watchers b' = br_watchers b"
proof -
  have f: "sc_serve w (Start i) = StartMicroservice w i" by (simp add: fun_eq_iff)
  have r: "fst (on_container (sc_serve w (Start i)) name b) = r" "snd (on_container (sc_serve w (Start i)) name b) = b'"
    by (simp_all add: f assms)
  have c: "cnt b' n j = (if n = name \<and> r = None then up_count j (cnt b n j) [Start i] else cnt b n j)" for n j
    using serve_cnt [of w "Start i" name b n j] unfolding r .
  show "cnt b nm j \<le> cnt b' nm j" by (simp add: c)
  show "r = None \<Longrightarrow> cnt b' name i = cnt b name i + 1" by (simp add: c)
  show "nm \<noteq> name \<Longrightarrow> cnt b' nm j = cnt b nm j" by (simp add: c)
  show w: "br_watchers b' = br_watchers b" using serve_other(1) [of "StartMicroservice w i" name b] assms by simp
  show "paired (if r = None then spawn_watcher name i b' else b') nm" if "paired b nm" for nm
    using that by (auto simp: paired_def c w)
  show "\<not> panicking r" if "ready w b name n"
  proof -
    from that obtain sc where sc: "map_of (br_microserviceList b) name = Some sc" "startable w sc" by (auto simp: ready_def)
    have "\<not> panicking (fst (StartProcess w (cs_Container c) h))" if "map_of (sc_containerList sc) i = Some c" for c h
      using sc(2) map_of_SomeD [OF that] by (force simp: startable_def)
    with assms sc(1) show ?thesis
      by (auto simp: on_container_def StartMicroservice_def over_scale_def not_exists_def already_started_def
          split: if_splits option.splits prod.splits) (metis fst_conv panicking.simps)+
  qed
  show "ready w b' nm n" if "ready w b nm n"
  proof (cases "nm = name")
    case True
    from that True obtain sc where sc: "map_of (br_microserviceList b) name = Some sc" "startable w sc"
      "map fst (sc_containerList sc) = [1..n]" "length (sc_containerList sc) = nat n" by (auto simp: ready_def)
    have keys: "map fst (sc_containerList (set_up i c k sc)) = map fst (sc_containerList sc)"
      if "map_of (sc_containerList sc) i = Some c" for c k
      using map_of_SomeD [OF that] unfolding set_up_def by (simp, intro keys_put_mem) force
    then have len: "length (sc_containerList (set_up i c k sc)) = length (sc_containerList sc)"
      if "map_of (sc_containerList sc) i = Some c" for c k using that by (metis length_map)
    from start_cases [of w i sc "br_calls b"] assms sc keys len startable_set_up [OF sc(2)] True show ?thesis
      by (auto simp: on_container_def ready_def)
  next
    case False
    with that assms show ?thesis by (auto simp: on_container_def ready_def split: option.splits prod.splits)
  qed
qed

text \<open>An instance whose start the cluster always accepts.\<close>

definition succeeds :: "'q k8s_world \<Rightarrow> 'q broker \<Rightarrow> string \<Rightarrow> int \<Rightarrow> bool" where
  "succeeds w b name i \<longleftrightarrow> (\<exists>sc c. map_of (br_microserviceList b) name = Some sc \<and>
     map_of (sc_containerList sc) i = Some c \<and> (\<forall>h. fst (StartProcess w (cs_Container c) h) = None))"

lemma succeeds_status [simp]:
  "succeeds w (SetServiceStatusActive s b) name n = succeeds w b name n"
  "succeeds w (SetServiceStatusDeactivate s b) name n = succeeds w b name n"
  "succeeds w (spawn_watcher s i b) name n = succeeds w b name n"
  by (simp_all add: succeeds_def spawn_watcher_def)

lemma start_one_succeeds:
  assumes "on_container (StartMicroservice w i) name b = (r, b')"
  shows "succeeds w b nm j \<Longrightarrow> succeeds w b' nm j"
    and "succeeds w b name i \<Longrightarrow> ready w b name n \<Longrightarrow> containers_ok b \<Longrightarrow> 0 < cnt b' name i"
proof -
  show "succeeds w b' nm j" if s: "succeeds w b nm j"
  proof (cases "nm = name")
    case True
    with s obtain sc c where sc: "map_of (br_microserviceList b) name = Some sc"
      "map_of (sc_containerList sc) j = Some c" "\<forall>h. fst (StartProcess w (cs_Container c) h) = None"
      by (auto simp: succeeds_def)
    have "\<exists>c'. map_of (sc_containerList (set_up i d k sc)) j = Some c' \<and> cs_Container c' = cs_Container c"
      if "map_of (sc_containerList sc) i = Some d" for d k
      using that sc(2) by (cases "i = j") (auto simp: set_up_def)
    with start_cases [of w i sc "br_calls b"] assms sc True show ?thesis
      by (fastforce simp: on_container_def succeeds_def)
  next
    case False
    with s assms show ?thesis by (auto simp: on_container_def succeeds_def split: option.splits prod.splits)
  qed
  show "0 < cnt b' name i" if s: "succeeds w b name i" and rd: "ready w b name n" and ok: "containers_ok b"
  proof -
    from s obtain sc c where sc: "map_of (br_microserviceList b) name = Some sc"
      "map_of (sc_containerList sc) i = Some c" "\<And>h. fst (StartProcess w (cs_Container c) h) = None"
      by (auto simp: succeeds_def)
    from rd sc(1) have keys: "map fst (sc_containerList sc) = [1..n]" "length (sc_containerList sc) = nat n"
      by (auto simp: ready_def)
    have "i \<in> set (map fst (sc_containerList sc))" using map_of_SomeD [OF sc(2)] by force
    with keys have "\<not> int (length (sc_containerList sc)) < i" by auto
    moreover obtain h where "StartProcess w (cs_Container c) (br_calls b) = (None, h)"
      using sc(3) [of "br_calls b"] by (cases "StartProcess w (cs_Container c) (br_calls b)") auto
    ultimately have "r = None \<or> 0 < NumOfUpState c"
      using assms sc(1,2) by (auto simp: on_container_def StartMicroservice_def split: if_splits)
    moreover have "NumOfUpState c = cnt b name i" by (simp add: cnt_def sc(1,2) count_of_def)
    ultimately show ?thesis
      using start_one(4) [OF assms, of name i] start_one(5) [OF assms] cnt_nonneg [OF ok, of name i] by fastforce
  qed
qed

text \<open>Everything the loops of a start keep, for every microservice at once.\<close>

definition extends_start :: "'q k8s_world \<Rightarrow> 'q broker \<Rightarrow> 'q broker \<Rightarrow> bool" where
  "extends_start w b b' \<longleftrightarrow> (\<forall>nm n. ready w b nm n \<longrightarrow> ready w b' nm n) \<and> (\<forall>nm. paired b nm \<longrightarrow> paired b' nm) \<and>
     (\<forall>nm j. cnt b nm j \<le> cnt b' nm j) \<and> (\<forall>nm j. succeeds w b nm j \<longrightarrow> succeeds w b' nm j) \<and>
     (containers_ok b \<longrightarrow> containers_ok b')"

lemma extends_start_refl [simp]: "extends_start w b b"
  by (simp add: extends_start_def)

lemma extends_start_trans: "extends_start w b b' \<Longrightarrow> extends_start w b' b'' \<Longrightarrow> extends_start w b b''"
  unfolding extends_start_def by (meson order_trans)

lemma start_one_extends:
  assumes "on_container (StartMicroservice w i) name b = (r, b')"
  shows "extends_start w b (if r = None then spawn_watcher name i b' else b')"
proof -
  have f: "sc_serve w (Start i) = StartMicroservice w i" by (simp add: fun_eq_iff)
  have "containers_ok b \<Longrightarrow> containers_ok b'"
    using serve_container [of b w "Start i" name] by (simp only: f assms snd_conv)
  with start_one [OF assms] start_one_succeeds(1) [OF assms] show ?thesis
    by (auto simp: extends_start_def)
qed

lemma start_loop_runs:
  assumes "ready w b name n" "start_loop w name ns b = (r, b')"
  shows "r = None \<and> extends_start w b b' \<and> (\<forall>nm j. nm \<noteq> name \<longrightarrow> cnt b' nm j = cnt b nm j) \<and>
    (\<forall>i \<in> set ns. succeeds w b name i \<longrightarrow> containers_ok b \<longrightarrow> 0 < cnt b' name i)"
  using assms
proof (induction ns arbitrary: b)
  case (Cons i ns)
  obtain q b1 where q: "on_container (StartMicroservice w i) name b = (q, b1)" by fastforce
  let ?b2 = "if q = None then spawn_watcher name i b1 else b1"
  have np: "\<not> panicking q" by (rule start_one(2) [OF q Cons.prems(1)])
  have run: "start_loop w name ns ?b2 = (r, b')"
    using Cons.prems(2) q np by (cases q) simp_all
  have ext: "extends_start w b ?b2" by (rule start_one_extends [OF q])
  with Cons.prems(1) have "ready w ?b2 name n" by (auto simp: extends_start_def)
  note IH = Cons.IH [OF this run]
  have other: "cnt ?b2 nm j = cnt b nm j" if "nm \<noteq> name" for nm j
    using start_one(6) [OF q that] by simp
  have hit: "0 < cnt ?b2 name i" if "succeeds w b name i" "containers_ok b"
    using start_one_succeeds(2) [OF q that(1) Cons.prems(1) that(2)] by simp
  have ok2: "containers_ok b \<Longrightarrow> containers_ok ?b2" and s2: "succeeds w b name j \<Longrightarrow> succeeds w ?b2 name j" for j
    using ext unfolding extends_start_def by blast+
  have mono: "cnt ?b2 name j \<le> cnt b' name j" for j
    using IH unfolding extends_start_def by blast
  have "0 < cnt b' name j" if "j \<in> set (i # ns)" "succeeds w b name j" "containers_ok b" for j
  proof (cases "j = i")
    case True
    with hit that mono [of i] show ?thesis by fastforce
  next
    case False
    with that have "j \<in> set ns" by simp
    with IH s2 [OF that(2)] ok2 [OF that(3)] show ?thesis by blast
  qed
  moreover have "extends_start w b b'" using extends_start_trans [OF ext] IH by blast
  moreover have "r = None" using IH by blast
  ultimately show ?case using IH other by simp
qed simp

lemma startMicroservice_runs:
  assumes "ready w b name n" "startMicroservice w name b = (r, b')"
  shows "r = None \<and> extends_start w b b' \<and> (\<forall>nm j. nm \<noteq> name \<longrightarrow> cnt b' nm j = cnt b nm j) \<and>
    (\<forall>i \<in> {1..n}. succeeds w b name i \<longrightarrow> containers_ok b \<longrightarrow> 0 < cnt b' name i)"
proof -
  from assms obtain sc where sc: "map_of (br_microserviceList b) name = Some sc"
    "length (sc_containerList sc) = nat n" by (auto simp: ready_def)
  with assms have run: "start_loop w name [1..int (nat n)] b = (r, b')"
    by (simp add: startMicroservice_def GetScale_def)
  from start_loop_runs [OF assms(1) run] show ?thesis by auto
qed

lemma startup_loop_runs:
  assumes "distinct (map fst ms)"
    and "\<And>name v. (name, v) \<in> set ms \<Longrightarrow> \<exists>m. v = Some m \<and> ready w b name (to_int (ms_Scale m))"
  shows "\<exists>b'. startup_loop w ms errs b = (None, errs, b') \<and> extends_start w b b' \<and>
    (\<forall>nm j. (\<forall>m. (nm, Some m) \<in> set ms \<longrightarrow> \<not> ms_Startup m) \<longrightarrow> cnt b' nm j = cnt b nm j) \<and>
    (\<forall>nm m. (nm, Some m) \<in> set ms \<longrightarrow> ms_Startup m \<longrightarrow>
      (\<forall>i \<in> {1..to_int (ms_Scale m)}. succeeds w b nm i \<longrightarrow> containers_ok b \<longrightarrow> 0 < cnt b' nm i))"
  using assms
proof (induction ms arbitrary: b)
  case (Cons p ms)
  obtain name v where p: "p = (name, v)" by fastforce
  from Cons.prems(2) [of name v] p obtain m where m: "v = Some m" "ready w b name (to_int (ms_Scale m))" by auto
  define b1 where "b1 = (if ms_Startup m then
      (let b' = snd (startMicroservice w name b) in if br_workerMode b' then SetServiceStatusActive name b' else b') else b)"
  have new: "(name, Some m') \<notin> set ms" for m' using Cons.prems(1) by (force simp: p)
  obtain q c where q: "startMicroservice w name b = (q, c)" by fastforce
  have sr: "q = None" "extends_start w b c" "\<And>nm j. nm \<noteq> name \<Longrightarrow> cnt c nm j = cnt b nm j"
    "\<And>i. i \<in> {1..to_int (ms_Scale m)} \<Longrightarrow> succeeds w b name i \<Longrightarrow> containers_ok b \<Longrightarrow> 0 < cnt c name i"
    using startMicroservice_runs [OF m(2) q] by blast+
  have step: "startup_loop w (p # ms) errs b = startup_loop w ms errs b1"
    by (simp add: p m b1_def q sr(1) Let_def)
  have b1: "extends_start w b b1" "\<And>nm j. nm \<noteq> name \<or> \<not> ms_Startup m \<Longrightarrow> cnt b1 nm j = cnt b nm j"
    "\<And>i. ms_Startup m \<Longrightarrow> i \<in> {1..to_int (ms_Scale m)} \<Longrightarrow> succeeds w b name i \<Longrightarrow> containers_ok b \<Longrightarrow> 0 < cnt b1 name i"
    using sr(2-4) by (auto simp: b1_def q Let_def extends_start_def)
  have "\<exists>m'. u = Some m' \<and> ready w b1 nm (to_int (ms_Scale m'))" if "(nm, u) \<in> set ms" for nm u
    using Cons.prems(2) [of nm u] that b1(1) by (auto simp: extends_start_def)
  from Cons.IH [OF _ this] Cons.prems(1) obtain b' where b': "startup_loop w ms errs b1 = (None, errs, b')"
    "extends_start w b1 b'"
    "\<And>nm j. \<forall>m. (nm, Some m) \<in> set ms \<longrightarrow> \<not> ms_Startup m \<Longrightarrow> cnt b' nm j = cnt b1 nm j"
    "\<And>nm m i. (nm, Some m) \<in> set ms \<Longrightarrow> ms_Startup m \<Longrightarrow> i \<in> {1..to_int (ms_Scale m)} \<Longrightarrow>
      succeeds w b1 nm i \<Longrightarrow> containers_ok b1 \<Longrightarrow> 0 < cnt b' nm i"
    by auto
  have keep: "succeeds w b nm j \<Longrightarrow> succeeds w b1 nm j" "containers_ok b \<Longrightarrow> containers_ok b1" for nm j
    using b1(1) by (simp_all add: extends_start_def)
  have hit: "0 < cnt b' nm i" if "(nm, Some m') \<in> set (p # ms)" "ms_Startup m'" "i \<in> {1..to_int (ms_Scale m')}"
    "succeeds w b nm i" "containers_ok b" for nm m' i
  proof (cases "nm = name")
    case True
    with that(1) new p m(1) have "m' = m" by auto
    with that(2-5) True have "0 < cnt b1 name i" by (intro b1(3)) simp_all
    moreover have "cnt b' name i = cnt b1 name i" by (rule b'(3)) (simp add: new)
    ultimately show ?thesis using True by simp
  next
    case False
    with that(1) p have "(nm, Some m') \<in> set ms" by simp
    from b'(4) [OF this that(2,3) keep(1) [OF that(4)] keep(2) [OF that(5)]] show ?thesis .
  qed
  have same: "cnt b' nm j = cnt b nm j" if "\<forall>m'. (nm, Some m') \<in> set (p # ms) \<longrightarrow> \<not> ms_Startup m'" for nm j
  proof -
    have "\<forall>m'. (nm, Some m') \<in> set ms \<longrightarrow> \<not> ms_Startup m'" using that by simp
    moreover have "nm \<noteq> name \<or> \<not> ms_Startup m" using that p m(1) by fastforce
    ultimately show ?thesis using b1(2) b'(3) by metis
  qed
  show ?case
    unfolding step using b'(1) extends_start_trans [OF b1(1) b'(2)] hit same by blast
qed simp

definition with_env :: "'q broker \<Rightarrow> AionSetting \<Rightarrow> Microservice \<Rightarrow> Microservice" where
  "with_env b as m = m\<lparr>ms_Env := Some (set_env b as (case ms_Env m of None \<Rightarrow> [] | Some env \<Rightarrow> env))\<rparr>"

definition fresh_container :: "'q broker \<Rightarrow> AionSetting \<Rightarrow> string \<Rightarrow> Microservice \<Rightarrow> ScaleContainer" where
  "fresh_container b as name m = \<lparr>sc_name = name,
     sc_containerList = map (fresh_instance (br_k8sEnv b) name (with_env b as m)) [1..to_int (ms_Scale m)],
     sc_multiple = ms_Multiple m\<rparr>"

lemma set_loop_runs:
  assumes "distinct (map fst ms)" and "\<And>p. p \<in> set ms \<Longrightarrow> filled_ms (snd p)"
  shows "\<exists>ms' b'. set_loop as ms b = (None, ms', b') \<and>
    ms' = map (\<lambda>(name, v). (name, map_option (\<lambda>m. with_number (to_int (ms_Scale m)) (with_env b as m)) v)) ms \<and>
    (\<forall>name m. (name, Some m) \<in> set ms \<longrightarrow> map_of (br_microserviceList b') name = Some (fresh_container b as name m)) \<and>
    (\<forall>name. name \<notin> fst ` set ms \<longrightarrow> map_of (br_microserviceList b') name = map_of (br_microserviceList b) name)"
  using assms
proof (induction ms arbitrary: b)
  case (Cons p ms)
  obtain name v where p: "p = (name, v)" by fastforce
  from Cons.prems(2) [of p] p have "filled_ms v" by simp
  then obtain m env where m: "v = Some m" "ms_Env m = Some env" "0 < to_int (ms_Scale m)"
    by (auto simp: filled_ms_def filled_fields_def split: option.splits)
  let ?sc = "fresh_container b as name m"
  let ?b1 = "b\<lparr>br_microserviceList := put name ?sc (br_microserviceList b)\<rparr>"
  let ?b2 = "if br_workerMode b then SetServiceStatusDeactivate name ?b1 else ?b1"
  have ne: "[1..to_int (ms_Scale m)] \<noteq> []" "last [1..to_int (ms_Scale m)] = to_int (ms_Scale m)"
    using m(3) by (auto simp: upto_rec2)
  have env: "m\<lparr>ms_Env := Some (set_env b as env)\<rparr> = with_env b as m" by (simp add: with_env_def m)
  have sm: "setMicroservice name (m\<lparr>ms_Env := Some (set_env b as env)\<rparr>) b =
      (None, with_number (to_int (ms_Scale m)) (with_env b as m), ?b1)"
    using scale_loop_ok [of "with_env b as m" "[]" "[1..to_int (ms_Scale m)]" "br_k8sEnv b" name] ne
    unfolding env setMicroservice_def NewScaleContainer_def
    by (simp add: fresh_container_def with_env_def)
  have same: "br_k8sEnv ?b2 = br_k8sEnv b" "br_aionHome ?b2 = br_aionHome b"
    "br_microserviceList ?b2 = put name ?sc (br_microserviceList b)" by simp_all
  then have same': "with_env ?b2 as = with_env b as" "fresh_container ?b2 as = fresh_container b as"
    by (simp_all add: fun_eq_iff with_env_def set_env_def fresh_container_def)
  from Cons.prems have "distinct (map fst ms)" "\<And>q. q \<in> set ms \<Longrightarrow> filled_ms (snd q)" by auto
  from Cons.IH [where b = ?b2, OF this] obtain ms' b' where b': "set_loop as ms ?b2 = (None, ms', b')"
    "ms' = map (\<lambda>(name, v). (name, map_option (\<lambda>m. with_number (to_int (ms_Scale m)) (with_env b as m)) v)) ms"
    "\<And>nm k. (nm, Some k) \<in> set ms \<Longrightarrow> map_of (br_microserviceList b') nm = Some (fresh_container b as nm k)"
    "\<And>nm. nm \<notin> fst ` set ms \<Longrightarrow> map_of (br_microserviceList b') nm = map_of (br_microserviceList ?b2) nm"
    unfolding same' by blast
  have step: "set_loop as (p # ms) b = (None, (name, Some (with_number (to_int (ms_Scale m)) (with_env b as m))) # ms', b')"
    using b'(1) by (simp add: p m sm Let_def)
  have notin: "name \<notin> fst ` set ms" using Cons.prems(1) by (simp add: p)
  show ?case
    unfolding step using b'(2-4) notin by (auto simp: p m same(3))
qed simp

lemma stop_same:
  "br_k8sEnv (StopAllMicroservice w b) = br_k8sEnv b \<and> br_aionHome (StopAllMicroservice w b) = br_aionHome b"
proof -
  have loop: "br_k8sEnv (stop_loop w name ns b) = br_k8sEnv b \<and> br_aionHome (stop_loop w name ns b) = br_aionHome b"
    for name ns b by (induction ns arbitrary: b) simp_all
  then have "br_k8sEnv (snd (stopMicroservice w name b)) = br_k8sEnv b \<and> br_aionHome (snd (stopMicroservice w name b)) = br_aionHome b"
    for name b by (simp add: stopMicroservice_def Let_def split: option.splits)
  then have "br_k8sEnv (foldl (\<lambda>b name. snd (stopMicroservice w name b)) b ns) = br_k8sEnv b \<and>
      br_aionHome (foldl (\<lambda>b name. snd (stopMicroservice w name b)) b ns) = br_aionHome b" for ns
    by (induction ns arbitrary: b) simp_all
  then show ?thesis by (simp add: StopAllMicroservice_def)
qed

lemma fresh_container_ready:
  assumes "world_ok w" "buildable w m" "map_of (br_microserviceList b') name = Some (fresh_container b as name m)"
    and "0 < to_int (ms_Scale m)"
  shows "ready w b' name (to_int (ms_Scale m))" and "cnt b' name i = 0"
    and "i \<in> {1..to_int (ms_Scale m)} \<Longrightarrow>
      (\<forall>h. fst (StartProcess w (cs_Container (snd (fresh_instance (br_k8sEnv b) name (with_env b as m) i))) h) = None) \<Longrightarrow>
      succeeds w b' name i"
proof -
  let ?fi = "fresh_instance (br_k8sEnv b) name (with_env b as m)" and ?n = "to_int (ms_Scale m)"
  have "buildable w (with_env b as m)" using assms(2) by (simp add: buildable_def with_env_def)
  from fresh_startable [OF assms(1) this, where sc = "fresh_container b as name m"]
  have "startable w (fresh_container b as name m)" by (simp add: fresh_container_def)
  moreover have "map fst (map ?fi ns) = ns" for ns by (simp add: fresh_instance_def comp_def)
  ultimately show "ready w b' name ?n"
    using assms(3,4) by (auto simp: ready_def fresh_container_def)
  show "cnt b' name i = 0"
    using assms(3) by (auto simp: cnt_def fresh_container_def count_of_def fresh_instance_def
        dest!: map_of_SomeD split: option.splits)
  have at: "map_of (map ?fi ns) i = (if i \<in> set ns then Some (snd (?fi i)) else None)" for ns
    by (induction ns) (auto simp: fresh_instance_def)
  show "succeeds w b' name i" if "i \<in> {1..?n}" "\<forall>h. fst (StartProcess w (cs_Container (snd (?fi i))) h) = None"
    using that assms(3) at [of "[1..?n]"] by (auto simp: succeeds_def fresh_container_def)
qed

definition deployed :: "'q broker \<Rightarrow> AionSetting \<Rightarrow> (string, Microservice option) gomap" where
  "deployed b a = map (\<lambda>(name, v). (name, map_option (\<lambda>m. with_number (to_int (ms_Scale m)) (with_env b a m)) v))
     (as_Microservices a)"

text \<open>The first half of a deployment: everything stopped, fresh containers, no watcher.\<close>

lemma deploy_prepares:
  assumes inv: "broker_inv b" and a: "wf_setting a" "distinct (keys (as_Microservices a))"
  obtains b3 where "handle w (Deploy (Some a)) b = startStartupMicroservice w b3"
    "br_aionSetting b3 = Some (a\<lparr>as_Microservices := deployed b a\<rparr>)" "br_watchers b3 = []" "containers_ok b3"
    "\<And>name m. (name, Some m) \<in> set (as_Microservices a) \<Longrightarrow>
       map_of (br_microserviceList b3) name = Some (fresh_container b a name m)"
    "\<And>name. name \<notin> set (keys (as_Microservices a)) \<Longrightarrow> map_of (br_microserviceList b3) name =
       map_of (br_microserviceList (StopAllMicroservice w (b\<lparr>br_watchers := []\<rparr>))) name"
proof -
  let ?s = "StopAllMicroservice w (b\<lparr>br_watchers := []\<rparr>)"
  let ?b1 = "?s\<lparr>br_aionSetting := Some a\<rparr>"
  have same: "br_k8sEnv ?b1 = br_k8sEnv b" "br_aionHome ?b1 = br_aionHome b"
    using stop_same [of w "b\<lparr>br_watchers := []\<rparr>"] by simp_all
  then have env: "with_env ?b1 a = with_env b a" "fresh_container ?b1 a = fresh_container b a"
    by (simp_all add: fun_eq_iff with_env_def set_env_def fresh_container_def)
  have "containers_ok (b\<lparr>br_watchers := []\<rparr>)" using inv by (simp add: broker_inv_def containers_ok_def)
  from stopAll_ok [OF this, of w] have ok1: "containers_ok ?b1" "br_watchers ?b1 = []"
    by (simp_all add: containers_ok_def)
  have filled: "filled_ms (snd p)" if "p \<in> set (as_Microservices a)" for p
    using a(1) that by (auto simp: wf_setting_def)
  obtain b2 where sl: "set_loop a (as_Microservices a) ?b1 = (None, deployed b a, b2)"
    "\<And>name m. (name, Some m) \<in> set (as_Microservices a) \<Longrightarrow> map_of (br_microserviceList b2) name = Some (fresh_container b a name m)"
    "\<And>name. name \<notin> set (keys (as_Microservices a)) \<Longrightarrow> map_of (br_microserviceList b2) name = map_of (br_microserviceList ?s) name"
    using set_loop_runs [where b = ?b1 and as = a, OF a(2) filled] unfolding env deployed_def by auto
  from set_loop_ok [OF ok1(1), of a "as_Microservices a"] sl(1) ok1(2)
  have ok2: "containers_ok b2" "br_watchers b2 = []" by simp_all
  let ?b3 = "b2\<lparr>br_aionSetting := Some (a\<lparr>as_Microservices := deployed b a\<rparr>)\<rparr>"
  have "setMicroserviceList ?b1 = (None, ?b3)"
    using sl(1) by (simp add: setMicroserviceList_def GetMicroserviceList_def)
  then have "handle w (Deploy (Some a)) b = startStartupMicroservice w ?b3"
    by (simp add: handle_deploy_def Let_def)
  then show thesis
    by (rule that) (use sl ok2 in \<open>simp_all add: containers_ok_def\<close>)
qed

lemma deployed_flags:
  "ms_Startup (with_number k (with_env b a m)) = ms_Startup m" "ms_Scale (with_env b a m) = ms_Scale m"
  by (simp_all add: with_number_def with_env_def)

text \<open>The second half: what is marked startup is started.\<close>

lemma deploy_starts:
  assumes "wf_setting a" "distinct (keys (as_Microservices a))"
    and set3: "br_aionSetting b3 = Some (a\<lparr>as_Microservices := deployed b a\<rparr>)" and ok3: "containers_ok b3"
    and rdy: "\<And>name m. (name, Some m) \<in> set (as_Microservices a) \<Longrightarrow> ready w b3 name (to_int (ms_Scale m))"
  shows "\<exists>b4. startStartupMicroservice w b3 = (None, b4) \<and> extends_start w b3 b4 \<and>
    (\<forall>name m. (name, Some m) \<in> set (as_Microservices a) \<longrightarrow> \<not> ms_Startup m \<longrightarrow> (\<forall>i. cnt b4 name i = cnt b3 name i)) \<and>
    (\<forall>name m. (name, Some m) \<in> set (as_Microservices a) \<longrightarrow> ms_Startup m \<longrightarrow>
      (\<forall>i \<in> {1..to_int (ms_Scale m)}. succeeds w b3 name i \<longrightarrow> 0 < cnt b4 name i))"
proof -
  let ?ms = "as_Microservices a"
  have d: "distinct (map fst (deployed b a))"
    using assms(2) by (simp add: deployed_def comp_def split_beta)
  have origin: "\<exists>m. (name, Some m) \<in> set ?ms \<and> v = Some (with_number (to_int (ms_Scale m)) (with_env b a m))"
    if nv: "(name, v) \<in> set (deployed b a)" for name v
  proof -
    from nv obtain u where u: "(name, u) \<in> set ?ms"
      "v = map_option (\<lambda>m. with_number (to_int (ms_Scale m)) (with_env b a m)) u" by (auto simp: deployed_def)
    moreover have "filled_ms u" using assms(1) u(1) by (auto simp: wf_setting_def)
    ultimately show ?thesis by (cases u) (auto simp: filled_ms_def)
  qed
  have rdy': "\<exists>m. v = Some m \<and> ready w b3 name (to_int (ms_Scale m))" if "(name, v) \<in> set (deployed b a)" for name v
  proof -
    from origin [OF that] obtain m where m: "(name, Some m) \<in> set ?ms"
      "v = Some (with_number (to_int (ms_Scale m)) (with_env b a m))" by blast
    from rdy [OF m(1)] show ?thesis by (simp add: m(2) deployed_flags)
  qed
  have one: "m' = m" if "(name, Some m) \<in> set ?ms" "(name, Some m') \<in> set ?ms" for name m m'
    using eq_key_imp_eq_value [OF assms(2) that] by simp
  from startup_loop_runs [OF d rdy', where errs = "[]"] obtain b4 where b4:
    "startup_loop w (deployed b a) [] b3 = (None, [], b4)" "extends_start w b3 b4"
    "\<And>nm j. (\<forall>m. (nm, Some m) \<in> set (deployed b a) \<longrightarrow> \<not> ms_Startup m) \<Longrightarrow> cnt b4 nm j = cnt b3 nm j"
    "\<And>nm m i. (nm, Some m) \<in> set (deployed b a) \<Longrightarrow> ms_Startup m \<Longrightarrow> i \<in> {1..to_int (ms_Scale m)} \<Longrightarrow>
      succeeds w b3 nm i \<Longrightarrow> containers_ok b3 \<Longrightarrow> 0 < cnt b4 nm i"
    by auto
  have "startStartupMicroservice w b3 = (None, b4)"
    by (simp add: startStartupMicroservice_def set3 GetMicroserviceList_def b4(1))
  moreover have "cnt b4 name i = cnt b3 name i" if "(name, Some m) \<in> set ?ms" "\<not> ms_Startup m" for name m i
  proof (rule b4(3), intro allI impI)
    fix m' assume "(name, Some m') \<in> set (deployed b a)"
    from origin [OF this] one [OF that(1)] that(2) deployed_flags(1) show "\<not> ms_Startup m'" by fastforce
  qed
  moreover have "0 < cnt b4 name i" if "(name, Some m) \<in> set ?ms" "ms_Startup m" "i \<in> {1..to_int (ms_Scale m)}"
    "succeeds w b3 name i" for name m i
  proof -
    have "(name, Some (with_number (to_int (ms_Scale m)) (with_env b a m))) \<in> set (deployed b a)"
      using that(1) by (force simp: deployed_def)
    from b4(4) [OF this] that ok3 show ?thesis by (simp add: deployed_flags)
  qed
  ultimately show ?thesis using b4(2) by blast
qed

text \<open>Both halves together.\<close>

lemma deploy_project:
  assumes w: "world_ok w" and inv: "broker_inv b" and a: "wf_setting a" "distinct (keys (as_Microservices a))"
    and bld: "\<forall>name m. (name, Some m) \<in> set (as_Microservices a) \<longrightarrow> buildable w m"
  shows "\<exists>b'. handle w (Deploy (Some a)) b = (None, b') \<and>
    (\<forall>name m. (name, Some m) \<in> set (as_Microservices a) \<longrightarrow>
      (\<exists>sc. map_of (br_microserviceList b') name = Some sc \<and> map fst (sc_containerList sc) = [1..to_int (ms_Scale m)]) \<and>
      (\<forall>i. cnt b' name i = int (count_list (br_watchers b') (name, i))) \<and>
      (\<not> ms_Startup m \<longrightarrow> (\<forall>i. cnt b' name i = 0)) \<and>
      (ms_Startup m \<longrightarrow> (\<forall>i \<in> {1..to_int (ms_Scale m)}.
        (\<forall>h. fst (StartProcess w (cs_Container (snd (fresh_instance (br_k8sEnv b) name (with_env b a m) i))) h) = None)
        \<longrightarrow> 0 < cnt b' name i)))"
proof -
  let ?accepts = "\<lambda>name m i. \<forall>h. fst (StartProcess w (cs_Container (snd (fresh_instance (br_k8sEnv b) name (with_env b a m) i))) h) = None"
  obtain b3 where b3: "handle w (Deploy (Some a)) b = startStartupMicroservice w b3"
    "br_aionSetting b3 = Some (a\<lparr>as_Microservices := deployed b a\<rparr>)" "br_watchers b3 = []" "containers_ok b3"
    "\<And>name m. (name, Some m) \<in> set (as_Microservices a) \<Longrightarrow>
       map_of (br_microserviceList b3) name = Some (fresh_container b a name m)"
    by (rule deploy_prepares [OF inv a, of w]) blast
  have fresh: "ready w b3 name (to_int (ms_Scale m))" "cnt b3 name i = 0"
    "i \<in> {1..to_int (ms_Scale m)} \<Longrightarrow> ?accepts name m i \<Longrightarrow> succeeds w b3 name i"
    if "(name, Some m) \<in> set (as_Microservices a)" for name m i
  proof -
    have "filled_ms (Some m)" using a(1) that by (auto simp: wf_setting_def)
    then have "0 < to_int (ms_Scale m)" by (simp add: filled_ms_def filled_fields_def)
    note fc = fresh_container_ready [OF w bld [rule_format, OF that] b3(5) [OF that] this]
    show "ready w b3 name (to_int (ms_Scale m))" "cnt b3 name i = 0"
      "i \<in> {1..to_int (ms_Scale m)} \<Longrightarrow> ?accepts name m i \<Longrightarrow> succeeds w b3 name i" by (rule fc; assumption)+
  qed
  from deploy_starts [OF a b3(2,4) fresh(1)] obtain b4 where b4: "startStartupMicroservice w b3 = (None, b4)"
    "extends_start w b3 b4"
    "\<And>name m i. (name, Some m) \<in> set (as_Microservices a) \<Longrightarrow> \<not> ms_Startup m \<Longrightarrow> cnt b4 name i = cnt b3 name i"
    "\<And>name m i. (name, Some m) \<in> set (as_Microservices a) \<Longrightarrow> ms_Startup m \<Longrightarrow> i \<in> {1..to_int (ms_Scale m)} \<Longrightarrow>
      succeeds w b3 name i \<Longrightarrow> 0 < cnt b4 name i" by blast
  show ?thesis
  proof (intro exI [of _ b4] conjI allI impI)
    show "handle w (Deploy (Some a)) b = (None, b4)" by (simp only: b3(1) b4(1))
  next
    fix name m assume mem: "(name, Some m) \<in> set (as_Microservices a)"
    from fresh(1) [OF mem] b4(2) have "ready w b4 name (to_int (ms_Scale m))" by (simp add: extends_start_def)
    then show "\<exists>sc. map_of (br_microserviceList b4) name = Some sc \<and> map fst (sc_containerList sc) = [1..to_int (ms_Scale m)]"
      by (auto simp: ready_def)
    have "paired b3 name" using fresh(2) [OF mem] by (simp add: paired_def b3(3))
    then show "cnt b4 name i = int (count_list (br_watchers b4) (name, i))" for i
      using b4(2) by (simp add: extends_start_def paired_def)
    show "cnt b4 name i = 0" if "\<not> ms_Startup m" for i
      using b4(3) [OF mem that] fresh(2) [OF mem] by simp
    show "\<forall>i \<in> {1..to_int (ms_Scale m)}. ?accepts name m i \<longrightarrow> 0 < cnt b4 name i" if "ms_Startup m"
      using b4(4) [OF mem that] fresh(3) [OF mem] by blast
  qed
qed

text \<open>
  C14. Deploying a loaded project whose pod templates can be built never panics, whatever ran
  before and whatever the cluster answers. Afterwards every microservice of the project has
  instances 1 to its scale; the watchers of its instances are exactly as many as its successful starts; one not
  marked startup has not been started, and one marked startup has been started on every
  instance whose objects the cluster accepts.
\<close>

theorem deploy_starts_project:
  assumes w: "world_ok w" and inv: "broker_inv b" and a: "wf_setting a" "distinct (keys (as_Microservices a))"
    and bld: "\<forall>name m. (name, Some m) \<in> set (as_Microservices a) \<longrightarrow> buildable w m"
  shows "\<exists>b'. handle w (Deploy (Some a)) b = (None, b') \<and>
    (\<forall>name m. (name, Some m) \<in> set (as_Microservices a) \<longrightarrow>
      (\<exists>sc. map_of (br_microserviceList b') name = Some sc \<and> map fst (sc_containerList sc) = [1..to_int (ms_Scale m)]) \<and>
      (\<forall>i. cnt b' name i = int (count_list (br_watchers b') (name, i))) \<and>
      (\<not> ms_Startup m \<longrightarrow> (\<forall>i. cnt b' name i = 0)) \<and>
      (ms_Startup m \<longrightarrow> (\<forall>i \<in> {1..to_int (ms_Scale m)}.
        (\<forall>h. fst (StartProcess w (cs_Container (snd (fresh_instance (br_k8sEnv b) name (with_env b a m) i))) h) = None)
        \<longrightarrow> 0 < cnt b' name i)))"
  using assms by (rule deploy_project)

definition ex_loaded_setting :: AionSetting where
  "ex_loaded_setting = the (snd (LoadConfigFromGRPC (Some ex_setting)))"

lemma ex_buildable: "buildable ex_world m \<longleftrightarrow> None \<notin> set (ms_Ports m) \<and> (\<forall>v \<in> set (ms_VolumeMountPathList m). CHR '':'' \<in> set v)"
  by (simp add: buildable_def ex_world_def)

lemma ex_world_ok: "world_ok ex_world"
  by (simp add: world_ok_def ex_world_def)

lemma ex_setting_buildable:
  "\<forall>name m. (name, Some m) \<in> set (as_Microservices ex_loaded_setting) \<longrightarrow> buildable ex_world m"
proof -
  have "list_all (\<lambda>(n, v). case v of None \<Rightarrow> True | Some m \<Rightarrow>
      list_all (\<lambda>p. p \<noteq> None) (ms_Ports m) \<and> list_all (\<lambda>v. CHR '':'' \<in> set v) (ms_VolumeMountPathList m))
      (as_Microservices ex_loaded_setting)"
    by code_simp
  then show ?thesis unfolding ex_buildable by (fastforce simp: list_all_iff)
qed

theorem deploy_starts_project_witness:
  "\<exists>b'. handle ex_world (Deploy (Some ex_loaded_setting)) (new_broker ''/var/lib/aion'' True (pd_k8sEnv ex_pod)) = (None, b') \<and>
    (\<forall>name m. (name, Some m) \<in> set (as_Microservices ex_loaded_setting) \<longrightarrow>
      (\<exists>sc. map_of (br_microserviceList b') name = Some sc))"
proof -
  have a: "wf_setting ex_loaded_setting" "distinct (keys (as_Microservices ex_loaded_setting))" by code_simp+
  from deploy_starts_project [OF ex_world_ok new_broker_inv a ex_setting_buildable,
      of "''/var/lib/aion''" True "pd_k8sEnv ex_pod"]
  show ?thesis by (elim ex_forward conj_forward) blast+
qed

section \<open>What is not forgotten\<close>

lemma dom_put: "dom (map_of (put k v m)) = insert k (dom (map_of m))"
  by auto

lemma on_container_dom: "dom (map_of (br_microserviceList (snd (on_container f name b)))) = dom (map_of (br_microserviceList b))"
  by (auto simp: on_container_def split: option.splits prod.splits)

lemma stop_dom:
  "dom (map_of (br_microserviceList (StopAllMicroservice w b))) = dom (map_of (br_microserviceList b))"
proof -
  have "dom (map_of (br_microserviceList (stop_loop w name ns b))) = dom (map_of (br_microserviceList b))" for name ns b
    by (induction ns arbitrary: b) (simp_all add: on_container_dom)
  then have "dom (map_of (br_microserviceList (snd (stopMicroservice w name b)))) = dom (map_of (br_microserviceList b))" for name b
    by (simp add: stopMicroservice_def Let_def split: option.splits)
  then have "dom (map_of (br_microserviceList (foldl (\<lambda>b name. snd (stopMicroservice w name b)) b ns))) =
      dom (map_of (br_microserviceList b))" for ns
    by (induction ns arbitrary: b) simp_all
  then show ?thesis by (simp add: StopAllMicroservice_def)
qed

lemma start_list_dom:
  "dom (map_of (br_microserviceList (snd (startStartupMicroservice w b)))) = dom (map_of (br_microserviceList b))"
proof -
  have sp: "dom (map_of (br_microserviceList (spawn_watcher n i b))) = dom (map_of (br_microserviceList b))" for n i b
    by (simp add: spawn_watcher_def)
  have loop: "dom (map_of (br_microserviceList (snd (start_loop w name ns b)))) = dom (map_of (br_microserviceList b))" for name ns b
  proof (induction ns arbitrary: b)
    case (Cons i ns)
    obtain r b' where r: "on_container (StartMicroservice w i) name b = (r, b')" by fastforce
    with on_container_dom [of "StartMicroservice w i" name b] Cons sp [of name i b'] show ?case by (cases r) simp_all
  qed simp
  then have one: "dom (map_of (br_microserviceList (snd (startMicroservice w name b)))) = dom (map_of (br_microserviceList b))" for name b
    by (simp add: startMicroservice_def split: option.splits)
  have "dom (map_of (br_microserviceList (snd (snd (startup_loop w ms errs b))))) = dom (map_of (br_microserviceList b))" for ms errs b
  proof (induction ms arbitrary: errs b)
    case (Cons p ms)
    obtain name v where p: "p = (name, v)" by fastforce
    obtain r b' where r: "startMicroservice w name b = (r, b')" by fastforce
    with one [of name b] Cons show ?case by (cases v; cases r) (simp_all add: p)
  qed simp
  then show ?thesis by (simp add: startStartupMicroservice_def split_beta split: option.splits)
qed

text \<open>
  A deployment forgets no microservice: the scale container of one that the new project
  does not contain stays in the controller's list, so a later request for it is not answered
  with \<open>there is no microservice\<close> but served, and its instances can be started again.
\<close>

theorem removed_service_stays:
  assumes "wf_setting a" "distinct (keys (as_Microservices a))" "broker_inv b"
    and "name \<in> dom (map_of (br_microserviceList b))"
  shows "name \<in> dom (map_of (br_microserviceList (broker_step w b (Message (Deploy (Some a))))))"
proof -
  obtain b3 where b3: "handle w (Deploy (Some a)) b = startStartupMicroservice w b3"
    "br_aionSetting b3 = Some (a\<lparr>as_Microservices := deployed b a\<rparr>)" "br_watchers b3 = []" "containers_ok b3"
    "\<And>name m. (name, Some m) \<in> set (as_Microservices a) \<Longrightarrow>
       map_of (br_microserviceList b3) name = Some (fresh_container b a name m)"
    "\<And>name. name \<notin> set (keys (as_Microservices a)) \<Longrightarrow> map_of (br_microserviceList b3) name =
       map_of (br_microserviceList (StopAllMicroservice w (b\<lparr>br_watchers := []\<rparr>))) name"
    by (rule deploy_prepares [OF assms(3,1,2), of w]) blast
  have "name \<in> dom (map_of (br_microserviceList b3))"
  proof (cases "name \<in> set (keys (as_Microservices a))")
    case True
    then obtain v where v: "(name, v) \<in> set (as_Microservices a)" by auto
    have "filled_ms v" using assms(1) v by (auto simp: wf_setting_def)
    then obtain m where "v = Some m" by (auto simp: filled_ms_def split: option.splits)
    with b3(5) v show ?thesis by auto
  next
    case False
    with b3(6) assms(4) stop_dom [of w "b\<lparr>br_watchers := []\<rparr>"] show ?thesis by (auto simp: dom_def)
  qed
  with start_list_dom [of w b3] show ?thesis by (simp only: broker_step.simps b3(1))
qed

theorem removed_service_stays_witness:
  "''gone'' \<in> dom (map_of (br_microserviceList (broker_step ex_world
     ((new_broker ''/var/lib/aion'' False (pd_k8sEnv ex_pod))\<lparr>br_microserviceList := [(''gone'', \<lparr>sc_name = ''gone'', sc_containerList = [], sc_multiple = False\<rparr>)]\<rparr>)
     (Message (Deploy (Some ex_loaded_setting))))))"
proof (rule removed_service_stays)
  show "wf_setting ex_loaded_setting" by code_simp
  show "distinct (keys (as_Microservices ex_loaded_setting))" by code_simp
qed (simp_all add: broker_inv_def containers_ok_def watchers_ok_def cnt_def new_broker_def sc_inv_def count_of_def)

text \<open>
  C33. An instance whose watcher has returned (because the microservice announced that it
  terminated) is still counted as started: unless the microservice allows multiple starts, a
  request to start it again is refused, makes no API call and spawns no watcher, until the
  next deployment.
\<close>

theorem terminated_instance_not_restarted:
  assumes "broker_inv b" "(name, i) \<in> set (br_watchers b)" "\<not> allows_multiple b name"
  shows "\<exists>e. handle w (StartContainer name i) (broker_step w b (WatcherReturns name i)) =
    (Some (Error e), broker_step w b (WatcherReturns name i))"
proof -
  let ?b = "broker_step w b (WatcherReturns name i)"
  have "0 < cnt b name i"
    using assms(1,2) count_list_0_iff [of "br_watchers b" "(name, i)"]
    by (fastforce simp: broker_inv_def watchers_ok_def dest: spec [of _ name] spec [of _ i])
  then obtain sc c where sc: "map_of (br_microserviceList b) name = Some sc"
    "map_of (sc_containerList sc) i = Some c" "0 < NumOfUpState c"
    by (auto simp: cnt_def count_of_def split: option.splits)
  have "\<not> sc_multiple sc" using assms(3) sc(1) by (simp add: allows_multiple_def)
  with sc have "\<exists>e. StartMicroservice w i (sc, h) = (Some (Error e), sc, h)" for h
    by (simp add: StartMicroservice_def over_scale_def already_started_def)
  then obtain e where "StartMicroservice w i (sc, br_calls b) = (Some (Error e), sc, br_calls b)" by blast
  then show ?thesis
    by (simp add: startMicroserviceByNum_def on_container_def sc(1) put_same)
qed

theorem terminated_instance_not_restarted_witness:
  "\<exists>e. handle ex_world (StartContainer ''a'' 1) (broker_step ex_world
      (snd (handle ex_world (Deploy (Some ex_loaded_setting)) (new_broker ''/var/lib/aion'' True (pd_k8sEnv ex_pod))))
      (WatcherReturns ''a'' 1)) =
    (Some (Error e), broker_step ex_world
      (snd (handle ex_world (Deploy (Some ex_loaded_setting)) (new_broker ''/var/lib/aion'' True (pd_k8sEnv ex_pod))))
      (WatcherReturns ''a'' 1))"
proof (rule terminated_instance_not_restarted)
  let ?b = "snd (handle ex_world (Deploy (Some ex_loaded_setting)) (new_broker ''/var/lib/aion'' True (pd_k8sEnv ex_pod)))"
  show "broker_inv ?b"
    using brk.step_inv [OF new_broker_inv, where w = ex_world and e = "Message (Deploy (Some ex_loaded_setting))"] by simp
  have "br_watchers ?b = [(''a'', 1)]" by code_simp
  then show "(''a'', 1) \<in> set (br_watchers ?b)" by simp
  show "\<not> allows_multiple ?b ''a''" by code_simp
qed

section \<open>The status of a worker\<close>

text \<open>
  What a worker reports for a microservice does not tell whether it runs: starting all
  instances of a known microservice reports success whatever the cluster answers, because
  the errors of the instances are only logged, and the startup loop then sets its status to
  active.
\<close>

theorem startup_status_ignores_errors:
  assumes "ready w b name n" "br_workerMode b" "ms_Startup m"
  shows "\<exists>b'. startup_loop w [(name, Some m)] [] b = (None, [], b') \<and>
    map_of (GetMicroServicesStatus b') name = Some True"
proof -
  obtain r c where r: "startMicroservice w name b = (r, c)" by fastforce
  with startMicroservice_runs [OF assms(1) r] have "r = None" by blast
  moreover have wm: "br_workerMode (snd (start_loop w name ns b)) = br_workerMode b" for ns b
  proof (induction ns arbitrary: b)
    case (Cons i ns)
    obtain q b1 where q: "on_container (StartMicroservice w i) name b = (q, b1)" by fastforce
    then have "br_workerMode b1 = br_workerMode b" using serve_other(3) [of "StartMicroservice w i" name b] by simp
    with Cons q show ?case by (cases q) (simp_all add: spawn_watcher_def)
  qed simp
  moreover have "br_workerMode c = br_workerMode b"
    using r wm by (auto simp: startMicroservice_def split: option.splits) (metis snd_conv)+
  ultimately show ?thesis
    using r assms(2,3) by (simp add: SetServiceStatusActive_def sendUpdateStatusTrigger_def GetMicroServicesStatus_def Let_def)
qed

definition down_world :: "string k8s_world" where
  "down_world = ex_world\<lparr>kw_server := (\<lambda>h. Some ''connection refused'')\<rparr>"

theorem startup_status_ignores_errors_witness:
  "case startup_loop down_world [(''a'', Some ex_loaded)] [] (snd (setMicroserviceList
      ((new_broker ''/var/lib/aion'' True (pd_k8sEnv ex_pod))\<lparr>br_aionSetting := Some ex_loaded_setting\<rparr>))) of
    (e, errs, b') \<Rightarrow> map_of (GetMicroServicesStatus b') ''a'' = Some True"
proof -
  let ?b = "snd (setMicroserviceList ((new_broker ''/var/lib/aion'' True (pd_k8sEnv ex_pod))\<lparr>br_aionSetting := Some ex_loaded_setting\<rparr>))"
  have "map_of (br_microserviceList ?b) ''a'' = Some (fresh_container (new_broker ''/var/lib/aion'' True (pd_k8sEnv ex_pod))
      ex_loaded_setting ''a'' ex_loaded)" by code_simp
  moreover have "ms_Ports ex_loaded = []" "ms_VolumeMountPathList ex_loaded = []" "0 < to_int (ms_Scale ex_loaded)"
    by code_simp+
  moreover from this have "buildable down_world ex_loaded" "world_ok down_world"
    using ex_world_ok by (simp_all add: buildable_def world_ok_def down_world_def ex_world_def)
  ultimately have "ready down_world ?b ''a'' (to_int (ms_Scale ex_loaded))" by (intro fresh_container_ready(1))
  moreover have "br_workerMode ?b" "ms_Startup ex_loaded" by code_simp+
  ultimately show ?thesis using startup_status_ignores_errors by (fastforce split: prod.splits)
qed

end
