(* ===== verification/Paths.thy ===== *)
theory Paths
  imports GoStrings
begin

text \<open>
  The functions of Go's path and path/filepath packages that the program uses, as they work
  on Unix: Clean, Join, Split, Dir, Base, IsAbs, Abs, Rel and Ext, and the two path functions of pkg/common.
  The lemmas give their values on clean absolute paths, which are lists of plain names.
\<close>

section \<open>The functions\<close>

definition slash :: char where "slash = CHR ''/''"

definition IsAbs :: "string \<Rightarrow> bool" where
  "IsAbs p \<longleftrightarrow> has_prefix p [slash]"

text \<open>One element of a path while it is cleaned, onto the elements so far, last first.\<close>

fun clean_step :: "bool \<Rightarrow> string list \<Rightarrow> string \<Rightarrow> string list" where
  "clean_step rooted acc c =
     (if c = '''' \<or> c = ''.'' then acc
      else if c = ''..'' then
        (case acc of
           [] \<Rightarrow> (if rooted then [] else [c])
         | d # ds \<Rightarrow> (if d = ''..'' then c # acc else ds))
      else c # acc)"

definition clean_parts :: "string \<Rightarrow> string list" where
  "clean_parts p = rev (foldl (clean_step (IsAbs p)) [] (split_on slash p))"

definition Clean :: "string \<Rightarrow> string" where
  "Clean p =
     (if IsAbs p then slash # join [slash] (clean_parts p)
      else if clean_parts p = [] then ''.'' else join [slash] (clean_parts p))"

definition PathJoin :: "string list \<Rightarrow> string" where
  "PathJoin es =
     (case dropWhile (\<lambda>e. e = '''') es of
        [] \<Rightarrow> ''''
      | e # es' \<Rightarrow> Clean (join [slash] (e # es')))"

text \<open>The directory with its last slash, and the file name.\<close>

definition PathSplit :: "string \<Rightarrow> string \<times> string" where
  "PathSplit p = (let n = last (split_on slash p) in (take (length p - length n) p, n))"

definition PathDir :: "string \<Rightarrow> string" where
  "PathDir p = Clean (fst (PathSplit p))"

definition PathBase :: "string \<Rightarrow> string" where
  "PathBase p =
     (if p = '''' then ''.''
      else (let q = rev (dropWhile (\<lambda>c. c = slash) (rev p))
            in if q = '''' then [slash] else last (split_on slash q)))"

text \<open>\<open>filepath.Abs\<close>, with the working directory or the error of reading it.\<close>

definition PathAbs :: "string result \<Rightarrow> string \<Rightarrow> string result" where
  "PathAbs wd p =
     (if IsAbs p then Inr (Clean p)
      else (case wd of Inl e \<Rightarrow> Inl e | Inr d \<Rightarrow> Inr (PathJoin [d, p])))"

fun drop_common :: "string list \<Rightarrow> string list \<Rightarrow> string list \<times> string list" where
  "drop_common (a # as) (b # bs) = (if a = b then drop_common as bs else (a # as, b # bs))"
| "drop_common as bs = (as, bs)"

definition path_parts :: "string \<Rightarrow> string list" where
  "path_parts p = filter (\<lambda>c. c \<noteq> '''') (split_on slash p)"

definition PathRel :: "string \<Rightarrow> string \<Rightarrow> string result" where
  "PathRel basepath targpath =
     (let b = Clean basepath; t = Clean targpath
      in if t = b then Inr ''.''
         else (let b = (if b = ''.'' then '''' else b)
               in if IsAbs b \<noteq> IsAbs t then Inl (Error ''Rel: can't make relative'')
                  else (case drop_common (path_parts b) (path_parts t) of
                     (bs, ts) \<Rightarrow>
                       (if bs \<noteq> [] \<and> hd bs = ''..'' then Inl (Error ''Rel: can't make relative'')
                        else Inr (join [slash] (replicate (length bs) ''..'' @ ts))))))"

definition PathExt :: "string \<Rightarrow> string" where
  "PathExt p =
     (let n = last (split_on slash p)
      in if CHR ''.'' \<in> set n then CHR ''.'' # last (split_on (CHR ''.'') n) else '''')"

section \<open>pkg/common\<close>

definition RemoveExt :: "string \<Rightarrow> string" where
  "RemoveExt filePath =
     (let fileName = PathBase filePath in take (length fileName - length (PathExt fileName)) fileName)"

definition GetMsDataPath :: "string \<Rightarrow> string \<Rightarrow> int \<Rightarrow> string" where
  "GetMsDataPath dataPath serviceName processNumber =
     PathJoin [dataPath, serviceName @ ''_'' @ itoa processNumber]"

section \<open>Clean paths\<close>

definition plain_name :: "string \<Rightarrow> bool" where
  "plain_name n \<longleftrightarrow> n \<noteq> '''' \<and> n \<noteq> ''.'' \<and> n \<noteq> ''..'' \<and> slash \<notin> set n"

definition abs_path :: "string list \<Rightarrow> string" where
  "abs_path ns = slash # join [slash] ns"

lemma plain_nameD:
  assumes "plain_name n"
  shows "n \<noteq> ''''" "n \<noteq> ''.''" "n \<noteq> ''..''" "slash \<notin> set n"
  using assms by (auto simp: plain_name_def)

lemma IsAbs_slash [simp]: "IsAbs (slash # p)"
  by (simp add: IsAbs_def)

lemma IsAbs_abs [simp]: "IsAbs (abs_path ns)"
  by (simp add: abs_path_def)

lemma IsAbs_Nil [simp]: "\<not> IsAbs ''''"
  by (simp add: IsAbs_def)

lemma not_IsAbs_plain: "plain_name n \<Longrightarrow> \<not> IsAbs n"
  by (cases n) (auto simp: plain_name_def IsAbs_def)

lemma clean_step_skip [simp]: "clean_step r acc '''' = acc" "clean_step r acc ''.'' = acc"
  by simp_all

lemma clean_step_plain [simp]: "plain_name n \<Longrightarrow> clean_step r acc n = n # acc"
  by (simp add: plain_name_def)

declare clean_step.simps [simp del]

lemma plain_fold:
  "\<forall>n \<in> set ns. plain_name n \<Longrightarrow> foldl (clean_step r) acc ns = rev ns @ acc"
  by (induction ns arbitrary: acc) simp_all

lemma split_abs: "split_on slash (slash # p) = [] # split_on slash p"
  by simp

lemma split_names: "ns \<noteq> [] \<Longrightarrow> \<forall>n \<in> set ns. plain_name n \<Longrightarrow> split_on slash (join [slash] ns) = ns"
  by (rule split_join) (auto simp: plain_name_def)

lemma clean_split_names:
  "\<forall>n \<in> set ns. plain_name n \<Longrightarrow>
   foldl (clean_step r) acc (split_on slash (join [slash] ns)) = rev ns @ acc"
  by (cases "ns = []") (auto simp: split_names plain_fold)

lemma clean_parts_abs:
  "\<forall>n \<in> set ns. plain_name n \<Longrightarrow> clean_parts (abs_path ns) = ns"
  by (simp add: clean_parts_def abs_path_def clean_split_names)

lemma Clean_abs: "\<forall>n \<in> set ns. plain_name n \<Longrightarrow> Clean (abs_path ns) = abs_path ns"
  by (simp add: Clean_def clean_parts_abs) (simp add: abs_path_def)

lemma abs_path_inj:
  assumes "\<forall>n \<in> set ns. plain_name n" "\<forall>n \<in> set ms. plain_name n"
  shows "abs_path ns = abs_path ms \<longleftrightarrow> ns = ms"
  by (metis clean_parts_abs [OF assms(1)] clean_parts_abs [OF assms(2)])

text \<open>Appending what a relative string splits into.\<close>

lemma split_abs_append:
  "split_on slash (abs_path ns @ slash # p) = [] # split_on slash (join [slash] ns) @ split_on slash p"
  by (simp add: abs_path_def split_on_append)

lemma Join_abs:
  assumes "\<forall>n \<in> set ns. plain_name n"
  shows "PathJoin [abs_path ns, p] = slash # join [slash] (rev (foldl (clean_step True) (rev ns) (split_on slash p)))"
proof -
  have "abs_path ns @ slash # p = slash # join [slash] ns @ slash # p"
    by (simp add: abs_path_def)
  then have abs: "IsAbs (abs_path ns @ slash # p)" by simp
  have "foldl (clean_step True) [] (split_on slash (abs_path ns @ slash # p))
      = foldl (clean_step True) (rev ns) (split_on slash p)"
    unfolding split_abs_append using assms by (simp add: clean_split_names)
  then have "clean_parts (abs_path ns @ slash # p) = rev (foldl (clean_step True) (rev ns) (split_on slash p))"
    by (simp add: clean_parts_def abs)
  then have "Clean (abs_path ns @ slash # p)
      = slash # join [slash] (rev (foldl (clean_step True) (rev ns) (split_on slash p)))"
    by (simp add: Clean_def abs)
  moreover have "abs_path ns \<noteq> ''''" by (simp add: abs_path_def)
  ultimately show ?thesis by (simp add: PathJoin_def)
qed

lemma Join_names:
  assumes "\<forall>n \<in> set ns. plain_name n" "\<forall>n \<in> set ms. plain_name n"
  shows "PathJoin [abs_path ns, join [slash] ms] = abs_path (ns @ ms)"
  unfolding Join_abs [OF assms(1)] using assms(2) by (simp add: clean_split_names abs_path_def)

lemma Join_name:
  assumes "\<forall>n \<in> set ns. plain_name n" "plain_name n"
  shows "PathJoin [abs_path ns, n] = abs_path (ns @ [n])"
  using Join_names [of ns "[n]"] assms by simp

lemma Join_dot:
  assumes "\<forall>n \<in> set ns. plain_name n"
  shows "PathJoin [abs_path ns, ''.''] = abs_path ns"
proof -
  have "split_on slash ''.'' = [''.'']" by (simp add: slash_def)
  then show ?thesis unfolding Join_abs [OF assms] by (simp add: abs_path_def)
qed

lemma clean_plain: "plain_name n \<Longrightarrow> Clean n = n"
  using split_names [of "[n]"] by (simp add: Clean_def clean_parts_def not_IsAbs_plain)

lemma dot_Join:
  assumes "plain_name n"
  shows "PathJoin [''.'', n] = n"
proof -
  have "split_on slash (''.'' @ slash # n) = [''.'', n]"
    using split_names [of "[n]"] assms by (simp add: slash_def)
  moreover have "\<not> IsAbs (''.'' @ slash # n)" by (simp add: IsAbs_def slash_def)
  ultimately have "Clean (''.'' @ slash # n) = n"
    using assms by (simp add: Clean_def clean_parts_def)
  then show ?thesis by (simp add: PathJoin_def)
qed

lemma join_snoc: "ns \<noteq> [] \<Longrightarrow> join [slash] (ns @ [n]) = join [slash] ns @ slash # n"
  by (simp add: join_append)

lemma PathSplit_abs:
  assumes "\<forall>m \<in> set ns. plain_name m" "plain_name n"
  shows "PathSplit (abs_path (ns @ [n])) = (if ns = [] then [slash] else abs_path ns @ [slash], n)"
proof -
  have "split_on slash (join [slash] (ns @ [n])) = ns @ [n]"
    using assms by (intro split_names) auto
  then have "last (split_on slash (abs_path (ns @ [n]))) = n"
    by (simp add: abs_path_def)
  then show ?thesis
    by (cases "ns = []") (simp_all add: PathSplit_def abs_path_def join_snoc)
qed

lemma Clean_abs_slash:
  assumes "\<forall>m \<in> set ns. plain_name m"
  shows "Clean (abs_path ns @ [slash]) = abs_path ns"
proof -
  have "foldl (clean_step True) (rev ns) (split_on slash []) = rev ns" by simp
  moreover have "IsAbs (abs_path ns @ [slash])" by (simp add: abs_path_def)
  ultimately show ?thesis
    using assms by (simp add: Clean_def clean_parts_def split_abs_append clean_split_names)
      (simp add: abs_path_def)
qed

lemma PathDir_abs:
  assumes "\<forall>m \<in> set ns. plain_name m" "plain_name n"
  shows "PathDir (abs_path (ns @ [n])) = abs_path ns"
proof (cases "ns = []")
  case True
  have "Clean [slash] = [slash]" by (simp add: Clean_def clean_parts_def)
  with True PathSplit_abs [OF assms] show ?thesis
    by (simp add: PathDir_def abs_path_def)
next
  case False
  with PathSplit_abs [OF assms] Clean_abs_slash [OF assms(1)] show ?thesis
    by (simp add: PathDir_def)
qed

lemma Join_split_abs:
  assumes "\<forall>m \<in> set ns. plain_name m" "plain_name n"
  shows "PathJoin [fst (PathSplit (abs_path (ns @ [n]))), n] = abs_path (ns @ [n])"
proof -
  have tail: "foldl (clean_step True) (rev ns) (split_on slash (slash # n)) = rev (ns @ [n])"
    using split_names [of "[n]"] assms(2) by simp
  have "PathJoin [abs_path ns, slash # n] = abs_path (ns @ [n])"
    unfolding Join_abs [OF assms(1)] tail by (simp add: abs_path_def)
  then have "Clean (abs_path ns @ slash # slash # n) = abs_path (ns @ [n])"
    by (simp add: PathJoin_def abs_path_def)
  with PathSplit_abs [OF assms] Join_name [OF assms] show ?thesis
    by (cases "ns = []") (simp_all add: PathJoin_def abs_path_def)
qed

lemma PathDir_plain:
  assumes "plain_name n"
  shows "PathDir n = ''.''"
proof -
  have "split_on slash n = [n]" using split_names [of "[n]"] assms by simp
  then show ?thesis by (simp add: PathDir_def PathSplit_def Clean_def clean_parts_def)
qed

lemma PathBase_plain:
  assumes "plain_name n"
  shows "PathBase n = n"
proof -
  have "slash \<notin> set (rev n)" "n \<noteq> []" "split_on slash n = [n]"
    using split_names [of "[n]"] assms by (auto dest: plain_nameD)
  moreover have "dropWhile (\<lambda>c. c = slash) (rev n) = rev n"
    using \<open>slash \<notin> set (rev n)\<close> by (cases "rev n") auto
  ultimately show ?thesis by (simp add: PathBase_def Let_def)
qed

lemma path_parts_abs:
  "\<forall>n \<in> set ns. plain_name n \<Longrightarrow> path_parts (abs_path ns) = ns"
  by (cases "ns = []")
    (auto simp: path_parts_def abs_path_def split_names plain_name_def filter_id_conv)

lemma drop_common_append: "drop_common ns (ns @ ms) = ([], ms)"
  by (induction ns) (cases ms; simp)+

lemma PathRel_abs:
  assumes "\<forall>n \<in> set ns. plain_name n" "\<forall>n \<in> set ms. plain_name n" "ms \<noteq> []"
  shows "PathRel (abs_path ns) (abs_path (ns @ ms)) = Inr (join [slash] ms)"
proof -
  have all: "\<forall>n \<in> set (ns @ ms). plain_name n" using assms by auto
  have ne: "abs_path (ns @ ms) \<noteq> abs_path ns"
    using abs_path_inj [OF all assms(1)] assms(3) by simp
  have nd: "abs_path ns \<noteq> ''.''" by (simp add: abs_path_def slash_def)
  show ?thesis
    using ne nd by (simp add: PathRel_def Clean_abs [OF assms(1)] Clean_abs [OF all]
        path_parts_abs [OF assms(1)] path_parts_abs [OF all] drop_common_append)
qed

lemma PathBase_abs:
  assumes "\<forall>m \<in> set ns. plain_name m" "plain_name n"
  shows "PathBase (abs_path (ns @ [n])) = n"
proof -
  have "rev (abs_path (ns @ [n])) = rev n @ rev (fst (PathSplit (abs_path (ns @ [n]))))"
    using PathSplit_abs [OF assms] by (cases "ns = []") (simp_all add: abs_path_def join_snoc)
  moreover have "dropWhile (\<lambda>c. c = slash) (rev n @ xs) = rev n @ xs" for xs
    using assms(2) by (cases "rev n") (auto simp: plain_name_def)
  ultimately have "dropWhile (\<lambda>c. c = slash) (rev (abs_path (ns @ [n]))) = rev (abs_path (ns @ [n]))"
    by simp
  moreover have "last (split_on slash (abs_path (ns @ [n]))) = n"
    using PathSplit_abs [OF assms] by (simp add: PathSplit_def Let_def)
  moreover have "abs_path (ns @ [n]) \<noteq> []" by (simp add: abs_path_def)
  ultimately show ?thesis by (simp add: PathBase_def Let_def)
qed

lemma join_ne: "ns \<noteq> [] \<Longrightarrow> \<forall>n \<in> set ns. plain_name n \<Longrightarrow> join [slash] ns \<noteq> []"
  by (cases ns; cases "tl ns") (auto simp: plain_name_def)

text \<open>A path above another one, or that path.\<close>

definition above :: "string \<Rightarrow> string \<Rightarrow> bool" where
  "above q p \<longleftrightarrow> q = p \<or> has_prefix p (q @ [slash])"

lemma above_abs:
  assumes "\<forall>n \<in> set ns. plain_name n" "\<forall>m \<in> set ms. plain_name m" "above (abs_path ns) (abs_path ms)"
  shows "\<exists>ks. ms = ns @ ks"
proof (cases "abs_path ns = abs_path ms")
  case True
  with abs_path_inj [OF assms(1,2)] show ?thesis by simp
next
  case False
  with assms(3) obtain u where u: "join [slash] ms = join [slash] ns @ slash # u"
    by (auto simp: above_def has_prefix_iff abs_path_def)
  then have "ms \<noteq> []" by auto
  from u have "split_on slash (join [slash] ms) = split_on slash (join [slash] ns) @ split_on slash u"
    by (simp add: split_on_append)
  with split_names [OF \<open>ms \<noteq> []\<close> assms(2)] split_names [of ns] assms(1)
  show ?thesis by (cases "ns = []") auto
qed

text \<open>A byte prefix of a clean absolute path ends anywhere inside a name.\<close>

lemma has_prefix_abs:
  assumes "\<forall>n \<in> set ns. plain_name n" "\<forall>m \<in> set ms. plain_name m" "ns \<noteq> []"
  shows "has_prefix (abs_path ms) (abs_path ns) \<longleftrightarrow>
    (\<exists>t ks. ms = butlast ns @ (last ns @ t) # ks)"
proof
  assume "has_prefix (abs_path ms) (abs_path ns)"
  then obtain u where u: "join [slash] ms = join [slash] ns @ u"
    by (auto simp: has_prefix_iff abs_path_def)
  have "ms \<noteq> []"
  proof
    assume "ms = []"
    with u have "join [slash] ns = []" by simp
    with join_ne [OF assms(3,1)] show False by simp
  qed
  have sp: "split_on slash (join [slash] ns @ u) = butlast ns @ (last ns @ hd (split_on slash u)) # tl (split_on slash u)"
    if "ns \<noteq> []" "\<forall>n \<in> set ns. slash \<notin> set n" for ns u
    using that
  proof (induction ns rule: induct_list012)
    case (2 n)
    then show ?case
    proof (induction n)
      case Nil
      then show ?case by (cases "split_on slash u") auto
    next
      case (Cons x n)
      then show ?case by auto
    qed
  next
    case (3 a b ns)
    then show ?case by (simp add: split_on_block)
  qed simp
  have "ms = butlast ns @ (last ns @ hd (split_on slash u)) # tl (split_on slash u)"
    using sp [OF assms(3)] u split_names [OF \<open>ms \<noteq> []\<close> assms(2)] assms(1)
    by (auto simp: plain_name_def)
  then show "\<exists>t ks. ms = butlast ns @ (last ns @ t) # ks" by blast
next
  assume "\<exists>t ks. ms = butlast ns @ (last ns @ t) # ks"
  then obtain t ks where ms: "ms = butlast ns @ (last ns @ t) # ks" by blast
  have jn: "\<exists>u. join [slash] (as @ (a @ t) # ks) = join [slash] (as @ [a]) @ u" for as a
    by (induction as) (cases ks; auto simp: join_Cons; fail | force simp: join_Cons)+
  from jn [of "butlast ns" "last ns"] ms assms(3)
  show "has_prefix (abs_path ms) (abs_path ns)"
    by (auto simp: has_prefix_iff abs_path_def)
qed

end
