(* ===== verification/KanbanServer.thy ===== *)
theory KanbanServer
  imports Kanban Paths
begin

text \<open>
  The kanban server (cmd/kanban-server/app): the session of a microservice and the handlers
  of the gRPC service over the Redis adapter. A stream towards a client is the list of what
  has been sent on it, with an outcome for every send; the clock is a parameter.
\<close>

section \<open>Sessions\<close>

record Session =
  se_microserviceName :: string
  se_processNumber :: int
  se_dataPath :: string

definition newSession :: "string \<Rightarrow> int \<Rightarrow> string \<Rightarrow> Session" where
  "newSession msName msNumber dataPath =
     \<lparr>se_microserviceName = msName, se_processNumber = msNumber, se_dataPath = dataPath\<rparr>"

text \<open>The environment of the server (env.go).\<close>

record Env =
  AionHome :: string
  RedisAddr :: string
  ServerPort :: int
  SBAddr :: string

definition GetDataDir :: "Env \<Rightarrow> string" where "GetDataDir e = PathJoin [AionHome e, ''Data'']"

text \<open>The kanban that a microservice without an incoming kanban starts from.\<close>

definition initial_kanban :: "string \<Rightarrow> Session \<Rightarrow> StatusKanban" where
  "initial_kanban now s =
     \<lparr>sk_StartAt = now, sk_FinishAt = '''', sk_NextDeviceName = '''', sk_ConnectionKey = '''',
      sk_ProcessNumber = to_int32 (se_processNumber s), sk_PriorSuccess = False,
      sk_DataPath = GetMsDataPath (se_dataPath s) (se_microserviceName s) (se_processNumber s),
      sk_FileList = [], sk_Metadata = Some []\<rparr>"

definition setKanban :: "'r redis_api \<Rightarrow> json_codec \<Rightarrow> string \<Rightarrow> Session \<Rightarrow> 'r \<Rightarrow> go_error option \<times> 'r" where
  "setKanban api jc now s r =
     WriteKanban api jc (GetStreamKeyByStatusType (se_microserviceName s) (se_processNumber s) StatusType_Before)
       (Some (initial_kanban now s)) r"

text \<open>The error of \<open>setKanban\<close> is dropped.\<close>

definition NewMicroserviceSession ::
  "'r redis_api \<Rightarrow> json_codec \<Rightarrow> string \<Rightarrow> string \<Rightarrow> InitializeService \<Rightarrow> 'r \<Rightarrow> Session \<times> 'r" where
  "NewMicroserviceSession api jc now dataPath ms r =
     (let s = newSession (is_MicroserviceName ms) (to_int (is_ProcessNumber ms)) dataPath
      in if is_InitType ms = START_SERVICE_WITHOUT_KANBAN then (s, snd (setKanban api jc now s r)) else (s, r))"

definition StartKanbanWatcher ::
  "'r redis_api \<Rightarrow> json_codec \<Rightarrow> Session \<Rightarrow> bool list \<Rightarrow> 'r \<Rightarrow> AdaptorKanban list \<times> bool \<times> 'r" where
  "StartKanbanWatcher api jc s turns r =
     WatchKanban api jc (GetStreamKeyByStatusType (se_microserviceName s) (se_processNumber s) StatusType_Before)
       True turns initPrevID r"

section \<open>The handlers\<close>

text \<open>
  A handler of a stream is still running or has returned.
\<close>

datatype handler = Running | Returned "go_error option"

text \<open>
  Forwarding what the watcher delivers until a send fails or the channel is closed; without an
  outcome for the next send the handler is still in it.
\<close>

fun send_loop :: "go_error option list \<Rightarrow> 'm list \<Rightarrow> bool \<Rightarrow> handler \<times> 'm list" where
  "send_loop outs [] closed = (if closed then Returned None else Running, [])"
| "send_loop [] (m # ms) closed = (Running, [])"
| "send_loop (Some e # outs) (m # ms) closed = (Returned (Some e), [])"
| "send_loop (None # outs) (m # ms) closed = (case send_loop outs ms closed of (h, sent) \<Rightarrow> (h, m # sent))"

text \<open>
  The handler and the goroutine it starts: \<open>turns\<close> says how far the watcher has got (its context is
  done only after the handler has returned), \<open>outs\<close> the outcomes of the sends so far. When the
  handler has returned, the watcher's next kanban is read and stays in the channel for ever.
\<close>

definition ReceiveKanban ::
  "'r redis_api \<Rightarrow> json_codec \<Rightarrow> string \<Rightarrow> string \<Rightarrow> InitializeService \<Rightarrow> bool list \<Rightarrow> go_error option list \<Rightarrow> 'r \<Rightarrow>
   handler \<times> StatusKanban option list \<times> 'r" where
  "ReceiveKanban api jc now dataDir req turns outs r =
     (case NewMicroserviceSession api jc now dataDir req r of
        (session, r1) \<Rightarrow>
          (case StartKanbanWatcher api jc session turns r1 of
             (recv, closed, r2) \<Rightarrow>
               (case send_loop outs (map ak_Kanban recv) closed of (h, sent) \<Rightarrow> (h, sent, r2))))"

definition ReceiveStaticKanban ::
  "'r redis_api \<Rightarrow> json_codec \<Rightarrow> Topic \<Rightarrow> bool list \<Rightarrow> go_error option list \<Rightarrow> 'r \<Rightarrow>
   handler \<times> StaticKanban list \<times> 'r" where
  "ReceiveStaticKanban api jc req turns outs r =
     (case WatchKanban api jc (GetStaticStreamKey (tp_Name req)) True turns initPrevID r of
        (recv, closed, r1) \<Rightarrow>
          (case send_loop outs (map (\<lambda>k. \<lparr>st_Id = ak_ID k, st_StatusKanban = ak_Kanban k\<rparr>) recv) closed of
             (h, sent) \<Rightarrow> (h, sent, r1)))"

definition respond :: "string \<Rightarrow> go_error option \<Rightarrow> Response \<times> go_error option" where
  "respond what e =
     (case e of
        Some err \<Rightarrow> (\<lparr>rp_Status = FAILED, rp_Error = what @ err_text err\<rparr>, Some err)
      | None \<Rightarrow> (\<lparr>rp_Status = SUCCESS, rp_Error = ''''\<rparr>, None))"

text \<open>A nil message or topic is a nil dereference.\<close>

definition SendKanban :: "'r redis_api \<Rightarrow> json_codec \<Rightarrow> Request \<Rightarrow> 'r \<Rightarrow> (Response \<times> go_error option) result \<times> 'r" where
  "SendKanban api jc req r =
     (case rq_Message req of
        None \<Rightarrow> (Inl nil_deref, r)
      | Some k \<Rightarrow>
          (case WriteKanban api jc
              (GetStreamKeyByStatusType (rq_MicroserviceName req) (to_int (sk_ProcessNumber k)) StatusType_After) (Some k) r of
             (e, r') \<Rightarrow> (Inr (respond ''cannot write kanban: '' e), r')))"

definition SendStaticKanban ::
  "'r redis_api \<Rightarrow> json_codec \<Rightarrow> StaticRequest \<Rightarrow> 'r \<Rightarrow> (Response \<times> go_error option) result \<times> 'r" where
  "SendStaticKanban api jc req r =
     (case sr_Topic req of
        None \<Rightarrow> (Inl nil_deref, r)
      | Some t \<Rightarrow>
          (case WriteKanban api jc (GetStaticStreamKey (tp_Name t)) (sr_Message req) r of
             (e, r') \<Rightarrow> (Inr (respond ''cannot write kanban: '' e), r')))"

definition DeleteStaticKanban ::
  "'r redis_api \<Rightarrow> DeleteStaticRequest \<Rightarrow> 'r \<Rightarrow> (Response \<times> go_error option) result \<times> 'r" where
  "DeleteStaticKanban api req r =
     (case dr_Topic req of
        None \<Rightarrow> (Inl nil_deref, r)
      | Some t \<Rightarrow>
          (case DeleteKanban api (GetStaticStreamKey (tp_Name t)) (dr_Id req) r of
             (e, r') \<Rightarrow> (Inr (respond ''cannot delete kanban: '' e), r')))"

lemma send_loop_all:
  "length ms \<le> length outs \<Longrightarrow> set outs \<subseteq> {None} \<Longrightarrow>
   send_loop outs ms closed = (if closed then Returned None else Running, ms)"
  by (induction outs ms closed rule: send_loop.induct) auto

lemma send_loop_prefix: "\<exists>k. snd (send_loop outs ms closed) = take k ms"
proof (induction outs ms closed rule: send_loop.induct)
  case (4 outs m ms closed)
  then obtain k where "snd (send_loop outs ms closed) = take k ms" by blast
  then show ?case by (intro exI [of _ "Suc k"]) (cases "send_loop outs ms closed"; simp)
qed (intro exI [of _ 0]; simp)+

section \<open>Delivery across sessions\<close>

abbreviation before_of :: "InitializeService \<Rightarrow> string" where
  "before_of req \<equiv> GetStreamKeyByStatusType (is_MicroserviceName req) (to_int (is_ProcessNumber req)) StatusType_Before"

lemma send_loop_fails:
  "n \<le> length ms \<Longrightarrow> send_loop (replicate n None @ [Some e]) ms False =
    (if length ms = n then Running else Returned (Some e), take n ms)"
proof (induction n arbitrary: ms)
  case 0
  then show ?case by (cases ms) auto
next
  case (Suc n)
  then obtain m ms' where "ms = m # ms'" "n \<le> length ms'" by (cases ms) auto
  with Suc.IH show ?case by simp
qed

text \<open>A session whose reader has read a number of kanbans.\<close>

lemma session_reads:
  assumes ok: "redis_streams api ent lt" and ks: "list_all2 (decodes jc) (ent r (before_of req)) ks"
    and p: "p \<le> length ks" and init: "is_InitType req \<noteq> START_SERVICE_WITHOUT_KANBAN"
  obtains r1 where "\<And>outs. ReceiveKanban api jc now dir req (replicate p False) outs r =
      (case send_loop outs (map Some (take p ks)) False of (h, sent) \<Rightarrow> (h, sent, r1))"
    "ent r1 (before_of req) = (if 0 < p then drop (p - 1) (ent r (before_of req)) else ent r (before_of req))"
proof -
  have len: "length (ent r (before_of req)) = length ks" using ks by (rule list_all2_lengthD)
  with p have "p \<le> length (ent r (before_of req))" by simp
  from redis_streams.watch_prefix [OF ok ks this, of True] obtain r1 where w:
    "WatchKanban api jc (before_of req) True (replicate p False) initPrevID r =
      (map (\<lambda>(e, k). \<lparr>ak_ID = fst e, ak_Kanban = Some k\<rparr>) (zip (take p (ent r (before_of req))) ks), False, r1)"
    "ent r1 (before_of req) = (if 0 < p then drop (p - 1) (ent r (before_of req)) else ent r (before_of req))"
    by (auto simp del: GetStreamKeyByStatusType.simps)
  have "ReceiveKanban api jc now dir req (replicate p False) outs r =
      (case send_loop outs (map Some (take p ks)) False of (h, sent) \<Rightarrow> (h, sent, r1))" for outs
    using w(1) zip_kanbans [OF len, of p] init
    by (simp add: ReceiveKanban_def NewMicroserviceSession_def newSession_def StartKanbanWatcher_def Let_def
        del: GetStreamKeyByStatusType.simps map_map)
  with w(2) that show thesis by blast
qed

text \<open>
  C40. A kanban is removed from a before stream when the reader of a session has read the next
  one, whether it has been sent or not. So what a microservice gets when it connects again after
  it has been sent \<open>n\<close> kanbans depends on how far the reader of the first session got: the second
  session starts with the kanban that this reader read last. If it had read just the \<open>n\<close>
  kanbans, the last one is sent a second time and none is lost; if the send of the next one
  failed, that one is sent now, none is lost and none is repeated; but the reader goes on while
  the handler fails, and if it has read one more, the kanban whose send failed is lost.
\<close>

theorem reconnect_repeats_last:
  assumes "redis_streams api ent lt" and "list_all2 (decodes jc) (ent r (before_of req)) ks"
    and "p = n \<or> p = n + 1 \<or> p = n + 2" "0 < p" "p \<le> length ks" "m \<le> length ks - (p - 1)"
    and "is_InitType req \<noteq> START_SERVICE_WITHOUT_KANBAN"
  shows "\<exists>r1. ReceiveKanban api jc now dir req (replicate p False) (replicate n None @ [Some e]) r =
      (if p = n then Running else Returned (Some e), map Some (take n ks), r1) \<and>
    fst (snd (ReceiveKanban api jc now' dir req (replicate m False) (replicate m None) r1)) = map Some (take m (drop (p - 1) ks)) \<and>
    (p = n \<longrightarrow> drop (p - 1) ks = ks ! (n - 1) # drop n ks) \<and> (p = n + 1 \<longrightarrow> drop (p - 1) ks = drop n ks) \<and>
    (p = n + 2 \<longrightarrow> drop n ks = ks ! n # drop (p - 1) ks)"
proof -
  obtain r1 where r1: "\<And>outs. ReceiveKanban api jc now dir req (replicate p False) outs r =
      (case send_loop outs (map Some (take p ks)) False of (h, sent) \<Rightarrow> (h, sent, r1))"
    "ent r1 (before_of req) = drop (p - 1) (ent r (before_of req))"
    using session_reads [OF assms(1,2,5,7)] assms(4) by metis
  have n: "n \<le> length (map Some (take p ks))" "length (map Some (take p ks)) = p" "min n p = n" using assms(3,5) by auto
  have first: "ReceiveKanban api jc now dir req (replicate p False) (replicate n None @ [Some e]) r =
      (if p = n then Running else Returned (Some e), map Some (take n ks), r1)"
    unfolding r1(1) send_loop_fails [OF n(1)] n(2) by (simp add: take_map n(3))
  have ks1: "list_all2 (decodes jc) (ent r1 (before_of req)) (drop (p - 1) ks)"
    using assms(2) unfolding r1(2) by (rule list_all2_dropI)
  have m: "m \<le> length (drop (p - 1) ks)" using assms(6) by simp
  obtain r2 where r2: "\<And>outs. ReceiveKanban api jc now' dir req (replicate m False) outs r1 =
      (case send_loop outs (map Some (take m (drop (p - 1) ks))) False of (h, sent) \<Rightarrow> (h, sent, r2))"
    using session_reads [OF assms(1) ks1 m assms(7)] by metis
  have "send_loop (replicate m None) (map Some (take m (drop (p - 1) ks))) False = (Running, map Some (take m (drop (p - 1) ks)))"
    by (subst send_loop_all) auto
  then have second: "fst (snd (ReceiveKanban api jc now' dir req (replicate m False) (replicate m None) r1)) = map Some (take m (drop (p - 1) ks))"
    unfolding r2 by simp
  have "p = n \<longrightarrow> drop (p - 1) ks = ks ! (n - 1) # drop n ks"
    using assms(4,5) Cons_nth_drop_Suc [of "n - 1" ks] by auto
  moreover have "p = n + 2 \<longrightarrow> drop n ks = ks ! n # drop (p - 1) ks"
    using assms(5) Cons_nth_drop_Suc [of n ks] by auto
  ultimately show ?thesis using first second by (intro exI [of _ r1] conjI) simp_all
qed

definition ex_init :: InitializeService where
  "ex_init = \<lparr>is_InitType = START_SERVICE, is_MicroserviceName = ''a'', is_ProcessNumber = 1\<rparr>"

theorem reconnect_repeats_last_witness:
  "\<exists>r1. fst (snd (ReceiveKanban ref_api ex_codec [] [] ex_init [False] [None, Some (Error ''closed'')] ex_redis)) =
      [Some (ex_kanban\<lparr>sk_ConnectionKey := ''x''\<rparr>)] \<and>
    snd (snd (ReceiveKanban ref_api ex_codec [] [] ex_init [False] [None, Some (Error ''closed'')] ex_redis)) = r1 \<and>
    fst (snd (ReceiveKanban ref_api ex_codec [] [] ex_init [False, False] [None, None] r1)) =
      [Some (ex_kanban\<lparr>sk_ConnectionKey := ''x''\<rparr>), Some (ex_kanban\<lparr>sk_ConnectionKey := ''y''\<rparr>)] \<and>
    fst (snd (ReceiveKanban ref_api ex_codec [] [] ex_init [False, False] [Some (Error ''closed'')] ex_redis)) = [] \<and>
    fst (snd (ReceiveKanban ref_api ex_codec [] [] ex_init [False] [None]
      (snd (snd (ReceiveKanban ref_api ex_codec [] [] ex_init [False, False] [Some (Error ''closed'')] ex_redis))))) =
      [Some (ex_kanban\<lparr>sk_ConnectionKey := ''y''\<rparr>)]"
proof -
  have ent: "ref_ent ex_redis key = [(''10'', [(''kanban'', IString ''x'')]), (''110'', [(''kanban'', IString ''y'')])]" for key
    by (simp add: ref_ent_def ex_redis_def shorter_def)
  have dec: "list_all2 (decodes ex_codec) (ref_ent ex_redis (before_of ex_init))
      [ex_kanban\<lparr>sk_ConnectionKey := ''x''\<rparr>, ex_kanban\<lparr>sk_ConnectionKey := ''y''\<rparr>]"
    by (simp add: ent decodes_def unmarshalKanban_def ex_codec_def)
  have init: "is_InitType ex_init \<noteq> START_SERVICE_WITHOUT_KANBAN" by (simp add: ex_init_def)
  note reconnect = reconnect_repeats_last [where ent = ref_ent and lt = shorter and now = "[]" and now' = "[]" and dir = "[]"
      and e = "Error ''closed''", OF ref_redis_streams dec _ _ _ _ init]
  from reconnect [of 1 1 2] reconnect [of 2 0 1] show ?thesis by (auto simp: numeral_2_eq_2)
qed

end
