(* ===== verification/MsClient.thy ===== *)
theory MsClient
  imports KanbanServer
begin

text \<open>
  The client library of the microservices (pkg/go-client/msclient): what a microservice sends
  to the kanban server and what it receives. The connection is a parameter: the outcomes of
  dialling, and for every call the function that makes it over a state 's.
\<close>

section \<open>Output data\<close>

type_synonym output_option = "StatusKanban \<Rightarrow> StatusKanban result"

fun apply_options :: "output_option list \<Rightarrow> StatusKanban \<Rightarrow> StatusKanban result" where
  "apply_options [] d = Inr d"
| "apply_options (f # fs) d = (case f d of Inl e \<Rightarrow> Inl e | Inr d' \<Rightarrow> apply_options fs d')"

definition default_output :: StatusKanban where
  "default_output =
     \<lparr>sk_StartAt = '''', sk_FinishAt = '''', sk_NextDeviceName = '''', sk_ConnectionKey = ''default'', sk_ProcessNumber = 1,
      sk_PriorSuccess = True, sk_DataPath = '''', sk_FileList = [], sk_Metadata = None\<rparr>"

definition NewOutputData :: "output_option list \<Rightarrow> StatusKanban result" where
  "NewOutputData options = apply_options options default_output"

definition SetResult :: "bool \<Rightarrow> output_option" where "SetResult r d = Inr (d\<lparr>sk_PriorSuccess := r\<rparr>)"

definition SetDataPath :: "string \<Rightarrow> output_option" where "SetDataPath p d = Inr (d\<lparr>sk_DataPath := p\<rparr>)"

definition SetConnectionKey :: "string \<Rightarrow> output_option" where "SetConnectionKey k d = Inr (d\<lparr>sk_ConnectionKey := k\<rparr>)"

definition SetProcessNumber :: "int \<Rightarrow> output_option" where
  "SetProcessNumber n d = Inr (d\<lparr>sk_ProcessNumber := to_int32 n\<rparr>)"

definition SetFileList :: "string list \<Rightarrow> output_option" where "SetFileList l d = Inr (d\<lparr>sk_FileList := l\<rparr>)"

definition SetDeviceName :: "string \<Rightarrow> output_option" where "SetDeviceName n d = Inr (d\<lparr>sk_NextDeviceName := n\<rparr>)"

text \<open>\<open>json.Marshal\<close> of a map, and \<open>protojson.Unmarshal\<close> into a Struct.\<close>

record metadata_codec =
  md_marshal :: "(string, iface) gomap \<Rightarrow> string result"
  md_unmarshal :: "string \<Rightarrow> pb_struct result"

definition SetMetadata :: "metadata_codec \<Rightarrow> (string, iface) gomap \<Rightarrow> output_option" where
  "SetMetadata mc v d =
     (case md_marshal mc v of
        Inl e \<Rightarrow> Inl (Error (''cant marshal metadata to json binary: : '' @ err_text e))
      | Inr b \<Rightarrow>
          (case md_unmarshal mc b of
             Inl e \<Rightarrow> Inl (Error (''cant unmarshal metadata to protobuf struct: : '' @ err_text e))
           | Inr s \<Rightarrow> Inr (d\<lparr>sk_Metadata := Some s\<rparr>)))"

section \<open>The client\<close>

record client_env =
  ce_KanbanAddr :: string
  ce_MsNumber :: int
  ce_IsDocker :: bool

text \<open>The connections are present unless they are nil.\<close>

record ms_client =
  mc_env :: client_env
  mc_serviceName :: string
  mc_sendClient :: bool
  mc_recvConn :: bool
  mc_sendConn :: bool

definition env_defaults :: "client_env \<Rightarrow> client_env" where
  "env_defaults env =
     (let env = (if ce_KanbanAddr env = '''' then env\<lparr>ce_KanbanAddr := ''aion-statuskanban:10000''\<rparr> else env)
      in if ce_MsNumber env < 1 then env\<lparr>ce_MsNumber := 1\<rparr> else env)"

definition connect_error :: "client_env \<Rightarrow> go_error \<Rightarrow> go_error" where
  "connect_error env e = Error (''cannot connect to status kanban server: '' @ ce_KanbanAddr env @ '': '' @ err_text e)"

text \<open>
  The errors of the two dials and of opening the stream decide the result. With it come the
  connections that are open afterwards.
\<close>

datatype conn = RecvConn | SendConn

definition NewKanbanClient ::
  "client_env \<Rightarrow> go_error option \<Rightarrow> go_error option \<Rightarrow> string \<Rightarrow> InitializeType \<Rightarrow>
   (InitializeService \<Rightarrow> go_error option) \<Rightarrow> ms_client result \<times> conn list" where
  "NewKanbanClient env0 recv_dial send_dial serviceName initType open_stream =
     (let env = env_defaults env0
      in (case recv_dial of
            Some e \<Rightarrow> (Inl (connect_error env e), [])
          | None \<Rightarrow>
         (case send_dial of
            Some e \<Rightarrow> (Inl (connect_error env e), remove1 RecvConn [RecvConn])
          | None \<Rightarrow>
         (case open_stream \<lparr>is_InitType = initType, is_MicroserviceName = serviceName,
              is_ProcessNumber = to_int32 (ce_MsNumber env)\<rparr> of
            Some e \<Rightarrow> (Inl (connect_error env e), remove1 RecvConn [RecvConn, SendConn])
          | None \<Rightarrow>
             (Inr \<lparr>mc_env = env, mc_serviceName = serviceName, mc_sendClient = True, mc_recvConn = True, mc_sendConn = True\<rparr>,
              [RecvConn, SendConn])))))"

text \<open>
  The goroutine that fills the client's channel, by what each receive returns; it closes the
  channel when there is an error.
\<close>

fun recv_loop :: "StatusKanban result list \<Rightarrow> StatusKanban list \<times> bool" where
  "recv_loop [] = ([], False)"
| "recv_loop (Inl e # rs) = ([], True)"
| "recv_loop (Inr m # rs) = (case recv_loop rs of (ms, closed) \<Rightarrow> (m # ms, closed))"

definition GetProcessNumber :: "ms_client \<Rightarrow> int" where "GetProcessNumber c = ce_MsNumber (mc_env c)"

text \<open>What waiting for a kanban ends with: the timeout, a kanban, or the closed channel.\<close>

datatype kanban_event = Timeout | Arrived "StatusKanban option" | ChannelClosed

fun GetOneKanban :: "kanban_event \<Rightarrow> StatusKanban result" where
  "GetOneKanban Timeout = Inl (Error ''timeout of waiting response by kanban server'')"
| "GetOneKanban (Arrived None) = Inl (Error ''getting kanban is failed'')"
| "GetOneKanban (Arrived (Some k)) = Inr k"
| "GetOneKanban ChannelClosed = Inl (Error ''getting kanban is failed'')"

text \<open>The server's handlers, as the client calls them; a timeout is one of the errors.\<close>

record 's kanban_service =
  sv_SendKanban :: "Request \<Rightarrow> 's \<Rightarrow> go_error option \<times> 's"
  sv_SendStaticKanban :: "StaticRequest \<Rightarrow> 's \<Rightarrow> go_error option \<times> 's"
  sv_DeleteStaticKanban :: "DeleteStaticRequest \<Rightarrow> 's \<Rightarrow> go_error option \<times> 's"

definition sendRequest :: "'s kanban_service \<Rightarrow> Request \<Rightarrow> 's \<Rightarrow> go_error option \<times> 's" where
  "sendRequest sv req s = sv_SendKanban sv req s"

definition OutputKanban :: "'s kanban_service \<Rightarrow> ms_client \<Rightarrow> StatusKanban option \<Rightarrow> 's \<Rightarrow> go_error option \<times> 's" where
  "OutputKanban sv c data s =
     (case sendRequest sv \<lparr>rq_MicroserviceName = mc_serviceName c, rq_Message = data\<rparr> s of
        (Some e, s') \<Rightarrow> (Some (Error (''output kanban is failed: '' @ err_text e)), s')
      | (None, s') \<Rightarrow> (None, s'))"

definition OutputStaticKanban ::
  "'s kanban_service \<Rightarrow> string \<Rightarrow> StatusKanban option \<Rightarrow> 's \<Rightarrow> go_error option \<times> 's" where
  "OutputStaticKanban sv topic data s =
     sv_SendStaticKanban sv \<lparr>sr_Topic = Some \<lparr>tp_Name = topic\<rparr>, sr_Message = data\<rparr> s"

definition DeleteStaticKanban_req ::
  "'s kanban_service \<Rightarrow> string \<Rightarrow> string \<Rightarrow> 's \<Rightarrow> go_error option \<times> 's" where
  "DeleteStaticKanban_req sv topic i s =
     sv_DeleteStaticKanban sv \<lparr>dr_Topic = Some \<lparr>tp_Name = topic\<rparr>, dr_Id = i\<rparr> s"

text \<open>
  Receiving until the context is done or the stream ends; without a further event the call is
  still waiting. The channel is closed when the call returns.
\<close>

datatype recv_event = RecvDone | RecvError | RecvStatic StaticKanban

fun static_loop :: "recv_event list \<Rightarrow> handler \<times> StaticKanban list" where
  "static_loop [] = (Running, [])"
| "static_loop (RecvDone # es) = (Returned None, [])"
| "static_loop (RecvError # es) = (Returned None, [])"
| "static_loop (RecvStatic m # es) = (case static_loop es of (h, ms) \<Rightarrow> (h, m # ms))"

definition GetStaticKanban ::
  "ms_client \<Rightarrow> go_error option \<Rightarrow> (Topic \<Rightarrow> go_error option) \<Rightarrow> string \<Rightarrow> recv_event list \<Rightarrow>
   handler \<times> StaticKanban list" where
  "GetStaticKanban c dial open_stream topic es =
     (case dial of
        Some e \<Rightarrow> (Returned (Some (connect_error (mc_env c) e)), [])
      | None \<Rightarrow>
     (case open_stream \<lparr>tp_Name = topic\<rparr> of
        Some e \<Rightarrow> (Returned (Some (connect_error (mc_env c) e)), [])
      | None \<Rightarrow> static_loop es))"

section \<open>Closing\<close>

definition terminate_metadata :: "ms_client \<Rightarrow> (string, iface) gomap" where
  "terminate_metadata c =
     [(''type'', IString ''terminate''), (''number'', IString (itoa (ce_MsNumber (mc_env c)))),
      (''name'', IString (mc_serviceName c))]"

definition terminate_kanban :: "ms_client \<Rightarrow> pb_struct \<Rightarrow> StatusKanban" where
  "terminate_kanban c s =
     \<lparr>sk_StartAt = '''', sk_FinishAt = '''', sk_NextDeviceName = '''', sk_ConnectionKey = ''service-broker'',
      sk_ProcessNumber = to_int32 (ce_MsNumber (mc_env c)), sk_PriorSuccess = True, sk_DataPath = '''', sk_FileList = [],
      sk_Metadata = Some s\<rparr>"

definition sendTerminateKanban :: "metadata_codec \<Rightarrow> 's kanban_service \<Rightarrow> ms_client \<Rightarrow> 's \<Rightarrow> go_error option \<times> 's" where
  "sendTerminateKanban mc sv c s =
     (case md_marshal mc (terminate_metadata c) of
        Inl e \<Rightarrow> (Some (Error (''cant marshal metadata to json binary: '' @ err_text e)), s)
      | Inr b \<Rightarrow>
          (case md_unmarshal mc b of
             Inl e \<Rightarrow> (Some (Error (''cant unmarshal metadata to protobuf struct: '' @ err_text e)), s)
           | Inr m \<Rightarrow>
               (case OutputKanban sv c (Some (terminate_kanban c m)) s of
                  (Some e, s') \<Rightarrow> (Some (Error (''cant send terminate kanban: '' @ err_text e)), s')
                | (None, s') \<Rightarrow> (None, s'))))"

definition newline :: string where "newline = [CHR 0x0A]"

text \<open>The errors of the terminate kanban and of closing the two connections are collected.\<close>

definition Close ::
  "metadata_codec \<Rightarrow> 's kanban_service \<Rightarrow> ms_client \<Rightarrow> go_error option \<Rightarrow> go_error option \<Rightarrow> 's \<Rightarrow> go_error option \<times> 's" where
  "Close mc sv c recv_close send_close s =
     (case (if mc_sendClient c then sendTerminateKanban mc sv c s else (None, s)) of
        (e, s') \<Rightarrow>
          (let errs = map err_text (List.map_filter id
                 [e, if mc_recvConn c then recv_close else None, if mc_sendConn c then send_close else None])
           in (if errs \<noteq> [] then Some (Error (''cant close connection :'' @ newline @ join (newline @ '' '') errs)) else None, s')))"

definition GetMetadataByMap :: "(pb_struct option \<Rightarrow> string result) \<Rightarrow> (string \<Rightarrow> (string, iface) gomap result) \<Rightarrow>
    StatusKanban option \<Rightarrow> (string, iface) gomap result" where
  "GetMetadataByMap marshal unmarshal k =
     (case marshal (GetMetadata k) of
        Inl e \<Rightarrow> Inl (Error (''cant marshal to map[string]interface{}: '' @ err_text e))
      | Inr b \<Rightarrow>
          (case unmarshal b of
             Inl e \<Rightarrow> Inl (Error (''cant marshal to map[string]interface{}: '' @ err_text e))
           | Inr m \<Rightarrow> Inr m))"

section \<open>The server behind the client\<close>

definition direct :: "(Response \<times> go_error option) result \<times> 'r \<Rightarrow> go_error option \<times> 'r" where
  "direct p = (case p of (Inl e, r) \<Rightarrow> (Some e, r) | (Inr (resp, e), r) \<Rightarrow> (e, r))"

text \<open>A connection without failures of its own to a kanban server.\<close>

definition direct_service :: "'r redis_api \<Rightarrow> json_codec \<Rightarrow> 'r kanban_service" where
  "direct_service api jc =
     \<lparr>sv_SendKanban = (\<lambda>req r. direct (SendKanban api jc req r)),
      sv_SendStaticKanban = (\<lambda>req r. direct (SendStaticKanban api jc req r)),
      sv_DeleteStaticKanban = (\<lambda>req r. direct (DeleteStaticKanban api req r))\<rparr>"

lemma OutputKanban_direct:
  "OutputKanban (direct_service api jc) c (Some k) r =
     (case WriteKanban api jc (GetStreamKeyByStatusType (mc_serviceName c) (to_int (sk_ProcessNumber k)) StatusType_After)
         (Some k) r of
        (Some e, r') \<Rightarrow> (Some (Error (''output kanban is failed: '' @ err_text e)), r')
      | (None, r') \<Rightarrow> (None, r'))"
  by (simp add: OutputKanban_def sendRequest_def direct_service_def SendKanban_def direct_def respond_def
      split: prod.splits option.splits)

end
