(* ===== verification/Pipeline.thy ===== *)
theory Pipeline
  imports Watcher MsClient
begin

text \<open>
  A kanban on its way from one microservice to the next on the same device: the client library
  of the first (pkg/go-client/msclient), the kanban server (cmd/kanban-server), the watcher of
  the service broker (cmd/service-broker/app/watcher.go) and the kanban server again.
\<close>

declare GetStreamKeyByStatusType.simps [simp del]

section \<open>What is written to the before streams\<close>

definition before_key :: "Container \<Rightarrow> string" where
  "before_key c = GetStreamKeyByStatusType (cn_Name c) (cn_Number c) StatusType_Before"

lemma before_key_inj [simp]: "before_key c = before_key d \<longleftrightarrow> c = d"
  using kanban_keys.key_inj [of StatusType_Before StatusType_Before "cn_Name c" "cn_Number c" "cn_Name d" "cn_Number d"]
  by (cases c; cases d) (auto simp: before_key_def)

lemma before_not_after: "before_key c \<noteq> GetStreamKeyByStatusType m i StatusType_After"
  using kanban_keys.key_inj [of StatusType_Before StatusType_After "cn_Name c" "cn_Number c" m i]
  by (auto simp: before_key_def)

lemma deliver_all_Cons:
  "deliver_all api jc k (v # vs) r =
     deliver_all api jc k vs (snd (WriteKanban api jc (before_key (started_local k v)) (Some k) r))"
  by (simp add: deliver_all_def before_key_def started_local_def NewContainer_def)

lemma deliver_all_other:
  assumes ok: "redis_streams api ent lt" and rt: "codec_roundtrip jc k"
  shows "\<forall>v \<in> set vs. before_key (started_local k v) \<noteq> j \<Longrightarrow> ent (deliver_all api jc k vs r) j = ent r j"
proof (induction vs arbitrary: r)
  case Nil
  then show ?case by (simp add: deliver_all_def)
next
  case (Cons v vs)
  let ?key = "before_key (started_local k v)"
  from redis_streams.WriteKanban_entries [OF ok rt, of ?key r] obtain r' where
    "WriteKanban api jc ?key (Some k) r = (None, r')" "\<And>i. i \<noteq> ?key \<Longrightarrow> ent r' i = ent r i" by metis
  with Cons show ?case by (auto simp: deliver_all_Cons)
qed

text \<open>Each of several different next services finds the kanban at the end of its stream.\<close>

lemma deliver_all_entries:
  assumes ok: "redis_streams api ent lt" and rt: "codec_roundtrip jc k"
  shows "distinct (map (started_local k) vs) \<Longrightarrow> v \<in> set vs \<Longrightarrow>
    \<exists>e. decodes jc e k \<and> ent (deliver_all api jc k vs r) (before_key (started_local k v)) =
      last_n 50 (ent r (before_key (started_local k v)) @ [e])"
proof (induction vs arbitrary: r)
  case (Cons u vs)
  let ?key = "before_key (started_local k u)"
  from redis_streams.WriteKanban_entries [OF ok rt, of ?key r] obtain e r' where w:
    "WriteKanban api jc ?key (Some k) r = (None, r')" "decodes jc e k"
    "ent r' ?key = last_n 50 (ent r ?key @ [e])" "\<And>i. i \<noteq> ?key \<Longrightarrow> ent r' i = ent r i" by metis
  show ?case
  proof (cases "started_local k v = started_local k u")
    case True
    have "\<forall>x \<in> set vs. before_key (started_local k x) \<noteq> ?key" using Cons.prems(1) by (auto simp: image_iff)
    from deliver_all_other [OF ok rt this, of r'] w(1,3)
    have "ent (deliver_all api jc k (u # vs) r) ?key = last_n 50 (ent r ?key @ [e])"
      by (simp add: deliver_all_Cons)
    with w(2) show ?thesis unfolding True by blast
  next
    case False
    then have "v \<in> set vs" using Cons.prems(2) by auto
    with Cons.IH [of r'] Cons.prems(1) w(4) [of "before_key (started_local k v)"] False show ?thesis
      by (simp add: deliver_all_Cons w(1))
  qed
qed simp

lemma route_all_local:
  assumes "map_of (as_Devices as) (GetDeviceName as) = None" "GetDeviceName as \<noteq> ''''"
    and nx: "GetNextServiceList as msName (sk_ConnectionKey k) = Inr us"
    and us: "\<forall>u \<in> set us. u \<noteq> None \<and> \<not> remote as k u"
  shows "route api jc as msName k w = (Continue,
    w\<lparr>wt_kanbans := wt_kanbans w @ [if us = [] then k else own_name as k],
      wt_redis := deliver_all api jc (own_name as k) us (wt_redis w),
      wt_startCh := wt_startCh w @ map (started_local k) us\<rparr>)"
proof (cases us)
  case Nil
  with nx show ?thesis by (simp add: route_def deliver_all_def new_kanban_def)
next
  case (Cons u vs)
  with us have "None \<notin> set (u # vs)" "\<not> remote as k u" by auto
  from route_local_from [OF assms(1,2) this, of "length (wt_kanbans w)" "new_kanban k w"]
  show ?thesis using nx by (simp add: route_def Cons new_kanban_def del: route_loop.simps)
qed

section \<open>The kanban server's side\<close>

lemma output_then_watch:
  assumes ok: "redis_streams api ent lt" and rt: "codec_roundtrip jc k"
    and empty: "ent r (GetStreamKeyByStatusType (mc_serviceName c) (to_int (sk_ProcessNumber k)) StatusType_After) = []"
  obtains r1 i r2 where "OutputKanban (direct_service api jc) c (Some k) r = (None, r1)"
    "WatchKanban api jc (GetStreamKeyByStatusType (mc_serviceName c) (to_int (sk_ProcessNumber k)) StatusType_After)
       False [False] initPrevID r1 = ([\<lparr>ak_ID = i, ak_Kanban = Some k\<rparr>], False, r2)"
    "\<And>j. j \<noteq> GetStreamKeyByStatusType (mc_serviceName c) (to_int (sk_ProcessNumber k)) StatusType_After \<Longrightarrow> ent r2 j = ent r j"
proof -
  let ?key = "GetStreamKeyByStatusType (mc_serviceName c) (to_int (sk_ProcessNumber k)) StatusType_After"
  from redis_streams.WriteKanban_entries [OF ok rt, of ?key r] obtain e r1 where w:
    "WriteKanban api jc ?key (Some k) r = (None, r1)" "decodes jc e k" "ent r1 ?key = last_n 50 (ent r ?key @ [e])"
    "\<And>i. i \<noteq> ?key \<Longrightarrow> ent r1 i = ent r i" by metis
  have e: "ent r1 ?key = [e]" using w(3) unfolding empty by (simp add: last_n_def)
  have dec: "list_all2 (decodes jc) (ent r1 ?key) [k]" by (simp add: e w(2))
  have "1 \<le> length (ent r1 ?key)" by (simp add: e)
  from redis_streams.watch_prefix [OF ok dec this, of False] obtain r2 where
    "WatchKanban api jc ?key False [False] initPrevID r1 = ([\<lparr>ak_ID = fst e, ak_Kanban = Some k\<rparr>], False, r2)"
    "\<forall>j. j \<noteq> ?key \<longrightarrow> ent r2 j = ent r1 j" by (auto simp: e)
  with w(1,4) that [of r1 "fst e" r2] show ?thesis by (simp add: OutputKanban_direct)
qed

lemma receive_one:
  assumes ok: "redis_streams api ent lt" and e: "ent r (before_key d) = [e]" "decodes jc e k"
    and n: "to_int (is_ProcessNumber req) = cn_Number d" "is_MicroserviceName req = cn_Name d"
    and init: "is_InitType req \<noteq> START_SERVICE_WITHOUT_KANBAN"
  shows "fst (ReceiveKanban api jc now dir req [False] [None] r) = Running \<and>
    fst (snd (ReceiveKanban api jc now dir req [False] [None] r)) = [Some k]"
proof -
  have dec: "list_all2 (decodes jc) (ent r (before_key d)) [k]" by (simp add: e)
  have "1 \<le> length (ent r (before_key d))" by (simp add: e)
  from redis_streams.watch_prefix [OF ok dec this, of True] obtain r2 where
    "WatchKanban api jc (before_key d) True [False] initPrevID r = ([\<lparr>ak_ID = fst e, ak_Kanban = Some k\<rparr>], False, r2)"
    by (auto simp: e)
  then have "StartKanbanWatcher api jc (newSession (cn_Name d) (cn_Number d) dir) [False] r =
      ([\<lparr>ak_ID = fst e, ak_Kanban = Some k\<rparr>], False, r2)"
    by (simp add: StartKanbanWatcher_def newSession_def before_key_def del: WatchKanban.simps GetStreamKeyByStatusType.simps)
  then show ?thesis
    by (simp add: ReceiveKanban_def NewMicroserviceSession_def Let_def init n)
qed

lemma next_number_int32: "to_int (to_int32 (next_number k ns)) = next_number k ns"
  by (rule to_int_to_int32) (simp add: next_number_def GetNextNumber_def fits_int32_def [of 1])

text \<open>What a next service says to the kanban server when it starts.\<close>

definition init_of :: "Container \<Rightarrow> InitializeService" where
  "init_of d = \<lparr>is_InitType = START_SERVICE, is_MicroserviceName = cn_Name d, is_ProcessNumber = to_int32 (cn_Number d)\<rparr>"

text \<open>
  C6. The way of a kanban on one device, through all the parts that touch it: a microservice
  that outputs a kanban to the kanban server succeeds, the broker's watcher of that instance
  reads exactly this kanban and asks for the start of exactly its next services, and each of
  these, when it connects to the kanban server, is sent exactly this kanban, unchanged but for
  the name of the own device in it.
\<close>

theorem kanban_pipeline:
  assumes ok: "redis_streams api ent lt"
    and as: "wf_setting as" "map_of (as_Devices as) (GetDeviceName as) = None" "GetDeviceName as \<noteq> ''''"
    and k: "codec_roundtrip jc k" "codec_roundtrip jc (k\<lparr>sk_NextDeviceName := GetDeviceName as\<rparr>)"
      "sk_ConnectionKey k \<noteq> serviceBrokerName"
    and nx: "GetNextServiceList as (mc_serviceName c) (sk_ConnectionKey k) = Inr us"
    and us: "\<forall>u \<in> set us. u \<noteq> None \<and> \<not> remote as k u" "distinct (map (started_local k) us)"
    and empty: "ent r (GetStreamKeyByStatusType (mc_serviceName c) (to_int (sk_ProcessNumber k)) StatusType_After) = []"
      "\<forall>u \<in> set us. ent r (before_key (started_local k u)) = []"
    and w: "wt_aionSetting w = Some as"
  shows "\<exists>r1 ak r2 w'. OutputKanban (direct_service api jc) c (Some k) r = (None, r1) \<and>
    WatchKanban api jc (GetStreamKeyByStatusType (mc_serviceName c) (to_int (sk_ProcessNumber k)) StatusType_After)
      False [False] initPrevID r1 = ([ak], False, r2) \<and>
    WatchMicroservice api jc sc (mc_serviceName c) ak (w\<lparr>wt_redis := r2\<rparr>) = (Continue, w') \<and>
    wt_startCh w' = wt_startCh w @ map (started_local k) us \<and> wt_sendCh w' = wt_sendCh w \<and>
    (\<forall>u \<in> set us. fst (snd (ReceiveKanban api jc now dir (init_of (started_local k u)) [False] [None] (wt_redis w'))) =
      [Some (k\<lparr>sk_NextDeviceName := GetDeviceName as\<rparr>)])"
proof -
  let ?k = "k\<lparr>sk_NextDeviceName := GetDeviceName as\<rparr>"
  have same: "started_local ?k = started_local k" and own: "own_name as k = ?k"
    by (simp_all add: fun_eq_iff started_local_def next_number_def own_name_def)
  from output_then_watch [OF ok k(1) empty(1)] obtain r1 i r2 where
    out: "OutputKanban (direct_service api jc) c (Some k) r = (None, r1)"
    and rd: "WatchKanban api jc (GetStreamKeyByStatusType (mc_serviceName c) (to_int (sk_ProcessNumber k)) StatusType_After)
       False [False] initPrevID r1 = ([\<lparr>ak_ID = i, ak_Kanban = Some k\<rparr>], False, r2)"
    and r2: "\<And>j. j \<noteq> GetStreamKeyByStatusType (mc_serviceName c) (to_int (sk_ProcessNumber k)) StatusType_After \<Longrightarrow>
       ent r2 j = ent r j" by metis
  let ?r3 = "deliver_all api jc ?k us r2"
  let ?w' = "w\<lparr>wt_kanbans := wt_kanbans w @ [if us = [] then k else ?k], wt_redis := ?r3, wt_startCh := wt_startCh w @ map (started_local k) us\<rparr>"
  have "route api jc as (mc_serviceName c) k (w\<lparr>wt_redis := r2\<rparr>) = (Continue, ?w')"
    using route_all_local [OF as(2,3) nx us(1), of api jc "w\<lparr>wt_redis := r2\<rparr>"] by (simp add: own)
  then have wm: "WatchMicroservice api jc sc (mc_serviceName c) \<lparr>ak_ID = i, ak_Kanban = Some k\<rparr> (w\<lparr>wt_redis := r2\<rparr>) = (Continue, ?w')"
    by (simp add: WatchMicroservice_def k(3) w)
  have "fst (snd (ReceiveKanban api jc now dir (init_of (started_local k u)) [False] [None] ?r3)) = [Some ?k]"
    if u: "u \<in> set us" for u
  proof -
    have "ent r2 (before_key (started_local k u)) = []"
      using empty(2) u by (simp add: r2 [OF before_not_after])
    with deliver_all_entries [OF ok k(2), of us u r2] us(2) u obtain e where
      "ent ?r3 (before_key (started_local k u)) = [e]" "decodes jc e ?k" by (auto simp: same last_n_def)
    from receive_one [OF ok this, of "init_of (started_local k u)" now dir] show ?thesis
      using us(1) u by (auto simp: init_of_def started_local_def NewContainer_def next_number_int32)
  qed
  with out rd wm show ?thesis by (intro exI [of _ r1] exI [of _ "\<lparr>ak_ID = i, ak_Kanban = Some k\<rparr>"] exI [of _ r2] exI [of _ ?w']) simp
qed

definition ex_local :: AionSetting where
  "ex_local = the (snd (LoadConfigFromGRPC (Some (ex_setting\<lparr>as_Microservices := [(''a'', Some (ex_ms\<lparr>ms_NextService :=
     Some [(''default'', Some \<lparr>nx_Settings = [Some ex_next, Some (ex_next\<lparr>nss_NextServiceName := ''c''\<rparr>)]\<rparr>)]\<rparr>))]\<rparr>))))"

definition ex_pipe_codec :: json_codec where
  "ex_pipe_codec = \<lparr>jc_marshal = (\<lambda>k. case k of None \<Rightarrow> Inl (Error ''nil'') | Some x \<Rightarrow> Inr (sk_NextDeviceName x)),
     jc_unmarshal = (\<lambda>s. Inr (ex_kanban\<lparr>sk_NextDeviceName := s\<rparr>))\<rparr>"

definition ex_client :: ms_client where
  "ex_client = \<lparr>mc_env = \<lparr>ce_KanbanAddr = ''kanban:10000'', ce_MsNumber = 1, ce_IsDocker = False\<rparr>, mc_serviceName = ''a'',
     mc_sendClient = True, mc_recvConn = True, mc_sendConn = True\<rparr>"

definition ex_local_watcher :: "ref_redis watcher" where
  "ex_local_watcher = (NewWatcher (\<lambda>_. []))\<lparr>wt_aionSetting := Some ex_local\<rparr>"

lemma ex_local_facts:
  "wf_setting ex_local" "map_of (as_Devices ex_local) (GetDeviceName ex_local) = None" "GetDeviceName ex_local \<noteq> ''''"
  by code_simp+

lemma ref_ent_empty [simp]: "ref_ent (\<lambda>_. []) key = []"
  by (simp add: ref_ent_def)

theorem kanban_pipeline_witness:
  "\<exists>w' :: ref_redis watcher. wt_startCh w' = [NewContainer (nss_NextServiceName ex_next) 1, NewContainer ''c'' 1] \<and>
    fst (snd (ReceiveKanban ref_api ex_pipe_codec [] [] (init_of (NewContainer ''c'' 1)) [False] [None] (wt_redis w'))) =
      [Some (ex_kanban\<lparr>sk_NextDeviceName := GetDeviceName ex_local\<rparr>)]"
proof -
  let ?us = "[Some (init_next_setting ex_next), Some (init_next_setting (ex_next\<lparr>nss_NextServiceName := ''c''\<rparr>))]"
  have k: "codec_roundtrip ex_pipe_codec ex_kanban"
    "codec_roundtrip ex_pipe_codec (ex_kanban\<lparr>sk_NextDeviceName := GetDeviceName ex_local\<rparr>)"
    "sk_ConnectionKey ex_kanban \<noteq> serviceBrokerName"
    by (simp_all add: codec_roundtrip_def ex_pipe_codec_def ex_kanban_def serviceBrokerName_def)
  have nx: "GetNextServiceList ex_local (mc_serviceName ex_client) (sk_ConnectionKey ex_kanban) = Inr ?us" by code_simp
  have us: "\<forall>u \<in> set ?us. u \<noteq> None \<and> \<not> remote ex_local ex_kanban u" "distinct (map (started_local ex_kanban) ?us)"
    by code_simp+
  have started: "map (started_local ex_kanban) ?us = [NewContainer (nss_NextServiceName ex_next) 1, NewContainer ''c'' 1]"
    by code_simp
  have w: "wt_aionSetting ex_local_watcher = Some ex_local" "wt_startCh ex_local_watcher = []"
    by (simp_all add: ex_local_watcher_def NewWatcher_def)
  have empty: "\<forall>u \<in> set ?us. ref_ent (\<lambda>_. []) (before_key (started_local ex_kanban u)) = []" by simp
  from kanban_pipeline [where ent = ref_ent and lt = shorter and sc = ex_struct_codec and now = "[]" and dir = "[]",
      OF ref_redis_streams ex_local_facts k nx us ref_ent_empty empty w(1)]
  obtain w' :: "ref_redis watcher" where w': "wt_startCh w' = wt_startCh ex_local_watcher @ map (started_local ex_kanban) ?us"
    "\<forall>u \<in> set ?us. fst (snd (ReceiveKanban ref_api ex_pipe_codec [] [] (init_of (started_local ex_kanban u)) [False] [None] (wt_redis w'))) =
      [Some (ex_kanban\<lparr>sk_NextDeviceName := GetDeviceName ex_local\<rparr>)]" by blast
  show ?thesis using w' started w(2) by (intro exI [of _ w']) simp
qed

section \<open>Closing a client\<close>

text \<open>
  The documented behaviour of the codecs on a map of strings: it can be marshalled, and read
  as a Struct it holds the same strings.
\<close>

definition keeps_strings :: "metadata_codec \<Rightarrow> (string, string) gomap \<Rightarrow> bool" where
  "keeps_strings mc m \<longleftrightarrow>
     (\<exists>b. md_marshal mc (map_vals IString m) = Inr b \<and> md_unmarshal mc b = Inr (map_vals StringValue m))"

definition terminate_strings :: "ms_client \<Rightarrow> (string, string) gomap" where
  "terminate_strings c = [(''type'', ''terminate''), (''number'', itoa (ce_MsNumber (mc_env c))), (''name'', mc_serviceName c)]"

definition terminate_struct :: "ms_client \<Rightarrow> pb_struct" where
  "terminate_struct c = map_vals StringValue (terminate_strings c)"

lemma terminate_struct: "terminate_struct c = [(''type'', StringValue ''terminate''),
    (''number'', StringValue (itoa (ce_MsNumber (mc_env c)))), (''name'', StringValue (mc_serviceName c))]"
  by (simp add: terminate_struct_def terminate_strings_def)

lemma sendTerminateKanban_documented:
  assumes "keeps_strings mc (terminate_strings c)" "OutputKanban sv c (Some (terminate_kanban c (terminate_struct c))) s = (None, s')"
  shows "sendTerminateKanban mc sv c s = (None, s')"
proof -
  have "terminate_metadata c = map_vals IString (terminate_strings c)"
    by (simp add: terminate_metadata_def terminate_strings_def)
  with assms(1) obtain b where "md_marshal mc (terminate_metadata c) = Inr b" "md_unmarshal mc b = Inr (terminate_struct c)"
    by (auto simp: keeps_strings_def terminate_struct_def)
  with assms(2) show ?thesis by (simp add: sendTerminateKanban_def)
qed

lemma terminate_parsed:
  assumes "struct_codec_documented sc" "protojson_marshal sc (Some (terminate_struct c)) = Inr b"
  shows "terminateServiceParser sc (Some (terminate_kanban c (terminate_struct c))) = Inr (mc_serviceName c, - 1)"
proof -
  have "json_unmarshal sc b = Inr (map_vals json_iface (terminate_struct c))"
    using assms by (simp add: struct_codec_documented_def)
  then show ?thesis
    using assms(2) by (simp add: terminateServiceParser_def GetMetadata_def terminate_kanban_def terminate_struct)
qed

lemma route_not_return: "fst (route api jc as msName k w) \<noteq> ReturnWatch"
proof -
  have "unwind_or_continue e \<noteq> ReturnWatch" for e by (cases e) simp_all
  then show ?thesis by (auto simp: route_def split: sum.splits option.splits prod.splits)
qed

text \<open>
  C16. Closing the client of a microservice reports no error when the connections close without
  one, and leaves a terminate kanban that the broker's watcher of that instance reads; the
  watcher then returns if, and only if, the microservice is not marked always.
\<close>

theorem close_ends_watch:
  assumes ok: "redis_streams api ent lt"
    and codecs: "keeps_strings mc (terminate_strings c)" "struct_codec_documented sc"
      "protojson_marshal sc (Some (terminate_struct c)) = Inr b"
      "codec_roundtrip jc (terminate_kanban c (terminate_struct c))"
    and c: "mc_sendClient c" "fits_int32 (ce_MsNumber (mc_env c))"
    and as: "wt_aionSetting w = Some as" "map_of (as_Microservices as) (mc_serviceName c) = Some (Some m)"
    and empty: "ent r (GetStreamKeyByStatusType (mc_serviceName c) (ce_MsNumber (mc_env c)) StatusType_After) = []"
  shows "\<exists>r1 ak r2. Close mc (direct_service api jc) c None None r = (None, r1) \<and>
    WatchKanban api jc (GetStreamKeyByStatusType (mc_serviceName c) (ce_MsNumber (mc_env c)) StatusType_After)
      False [False] initPrevID r1 = ([ak], False, r2) \<and>
    (fst (WatchMicroservice api jc sc (mc_serviceName c) ak (w\<lparr>wt_redis := r2\<rparr>)) = ReturnWatch \<longleftrightarrow> \<not> ms_Always m)"
proof -
  let ?k = "terminate_kanban c (terminate_struct c)"
  have n: "to_int (sk_ProcessNumber ?k) = ce_MsNumber (mc_env c)"
    using c(2) by (simp add: terminate_kanban_def to_int_to_int32)
  from output_then_watch [OF ok codecs(4), of r c, unfolded n, OF empty] obtain r1 i r2 where
    out: "OutputKanban (direct_service api jc) c (Some ?k) r = (None, r1)"
    and rd: "WatchKanban api jc (GetStreamKeyByStatusType (mc_serviceName c) (ce_MsNumber (mc_env c)) StatusType_After)
       False [False] initPrevID r1 = ([\<lparr>ak_ID = i, ak_Kanban = Some ?k\<rparr>], False, r2)" by metis
  have cl: "Close mc (direct_service api jc) c None None r = (None, r1)"
    by (simp add: Close_def c(1) sendTerminateKanban_documented [OF codecs(1) out] Let_def List.map_filter_def)
  have "sk_ConnectionKey ?k = serviceBrokerName" by (simp add: terminate_kanban_def serviceBrokerName_def)
  then have "fst (WatchMicroservice api jc sc (mc_serviceName c) \<lparr>ak_ID = i, ak_Kanban = Some ?k\<rparr> (w\<lparr>wt_redis := r2\<rparr>)) = ReturnWatch
      \<longleftrightarrow> \<not> ms_Always m"
    by (simp add: WatchMicroservice_def route_not_return terminate_parsed [OF codecs(2,3)] as GetMicroserviceList_def)
  with cl rd show ?thesis by blast
qed

definition ex_metadata_codec :: metadata_codec where
  "ex_metadata_codec = \<lparr>md_marshal = (\<lambda>m. Inr ''{}''), md_unmarshal = (\<lambda>b. Inr (terminate_struct ex_client))\<rparr>"

definition ex_close_struct_codec :: struct_codec where
  "ex_close_struct_codec = \<lparr>protojson_marshal = (\<lambda>m. if m = Some (terminate_struct ex_client) then Inr ''{}'' else Inl (Error ''unknown'')),
     json_unmarshal = (\<lambda>b. Inr (map_vals json_iface (terminate_struct ex_client)))\<rparr>"

definition ex_close_codec :: json_codec where
  "ex_close_codec = \<lparr>jc_marshal = (\<lambda>k. Inr ''k''), jc_unmarshal = (\<lambda>s. Inr (terminate_kanban ex_client (terminate_struct ex_client)))\<rparr>"

theorem close_ends_watch_witness:
  "\<exists>r1. Close ex_metadata_codec (direct_service ref_api ex_close_codec) ex_client None None (\<lambda>_. []) = (None, r1)"
proof -
  have codecs: "keeps_strings ex_metadata_codec (terminate_strings ex_client)" "struct_codec_documented ex_close_struct_codec"
    "protojson_marshal ex_close_struct_codec (Some (terminate_struct ex_client)) = Inr ''{}''"
    "codec_roundtrip ex_close_codec (terminate_kanban ex_client (terminate_struct ex_client))"
    by (simp_all add: keeps_strings_def ex_metadata_codec_def terminate_struct_def struct_codec_documented_def
        ex_close_struct_codec_def codec_roundtrip_def ex_close_codec_def)
  have c: "mc_sendClient ex_client" "fits_int32 (ce_MsNumber (mc_env ex_client))"
    by (simp_all add: ex_client_def fits_int32_def)
  have w: "wt_aionSetting ex_local_watcher = Some ex_local" by (simp add: ex_local_watcher_def NewWatcher_def)
  have "map_option (map_option ms_Always) (map_of (as_Microservices ex_local) (mc_serviceName ex_client)) = Some (Some False)"
    by code_simp
  then obtain m where m: "map_of (as_Microservices ex_local) (mc_serviceName ex_client) = Some (Some m)" by auto
  from close_ends_watch [where ent = ref_ent and lt = shorter, OF ref_redis_streams codecs c w m ref_ent_empty]
  show ?thesis by blast
qed

section \<open>Watching a stream again\<close>

text \<open>
  What a watching goroutine makes of the kanbans of its channel, until it returns or unwinds.
\<close>

fun consume :: "'r redis_api \<Rightarrow> json_codec \<Rightarrow> struct_codec \<Rightarrow> string \<Rightarrow> AdaptorKanban list \<Rightarrow> 'r watcher \<Rightarrow> after \<times> 'r watcher" where
  "consume api jc sc msName [] w = (Continue, w)"
| "consume api jc sc msName (ak # aks) w =
     (case WatchMicroservice api jc sc msName ak w of
        (Continue, w') \<Rightarrow> consume api jc sc msName aks w'
      | (a, w') \<Rightarrow> (a, w'))"

lemma consume_append:
  "consume api jc sc msName (xs @ ys) w =
     (case consume api jc sc msName xs w of (Continue, w') \<Rightarrow> consume api jc sc msName ys w' | p \<Rightarrow> p)"
  by (induction xs arbitrary: w) (simp_all split: prod.splits after.splits)

lemma route_loop_setting: "wt_aionSetting (snd (route_loop api jc as vs a w)) = wt_aionSetting w"
  by (induction api jc as vs a w rule: route_loop.induct) (auto split: option.splits sum.splits hop.splits)

lemma WatchMicroservice_setting: "wt_aionSetting (snd (WatchMicroservice api jc sc msName ak w)) = wt_aionSetting w"
proof -
  have "wt_aionSetting (snd (route api jc as msName k w)) = wt_aionSetting w" for as k
    using route_loop_setting [of api jc as _ "length (wt_kanbans w)" "new_kanban k w"]
    by (auto simp: route_def split: sum.splits prod.splits option.splits) (metis snd_conv keeps_setting(4))+
  then show ?thesis by (auto simp: WatchMicroservice_def split: option.splits sum.splits prod.splits)
qed

lemma consume_setting: "wt_aionSetting (snd (consume api jc sc msName aks w)) = wt_aionSetting w"
proof (induction aks arbitrary: w)
  case (Cons ak aks)
  show ?case
    using Cons.IH WatchMicroservice_setting [of api jc sc msName ak w]
    by (auto split: prod.splits after.splits)
qed simp

lemma consume_ok:
  assumes "wf_setting as"
  shows "wt_aionSetting w = Some as \<Longrightarrow> None \<notin> ak_Kanban ` set aks \<Longrightarrow>
    fst (consume api jc sc msName aks w) \<in> {Continue, ReturnWatch}"
proof (induction aks arbitrary: w)
  case (Cons ak aks)
  then obtain k where "ak_Kanban ak = Some k" by force
  then have ak: "ak = \<lparr>ak_ID = ak_ID ak, ak_Kanban = Some k\<rparr>" by simp
  have "fst (WatchMicroservice api jc sc msName ak w) \<in> {Continue, ReturnWatch}"
    using WatchMicroservice_ok [OF assms Cons.prems(1)] by (subst ak) blast
  moreover have "wt_aionSetting (snd (WatchMicroservice api jc sc msName ak w)) = Some as"
    using Cons.prems(1) by (simp add: WatchMicroservice_setting)
  ultimately show ?case
    using Cons.IH [of "snd (WatchMicroservice api jc sc msName ak w)"] Cons.prems(2) by (auto split: prod.splits after.splits)
qed simp

lemma consume_until:
  assumes as: "wf_setting as" "wt_aionSetting w = Some as"
    and ks: "map ak_Kanban aks = map Some (ks @ t # ks')"
    and t: "sk_ConnectionKey t = serviceBrokerName" "terminateServiceParser sc (Some t) = Inr (name, n)"
      "map_of (as_Microservices as) name = Some (Some m)" "\<not> ms_Always m"
  shows "consume api jc sc msName aks w = (ReturnWatch, snd (consume api jc sc msName (take (length ks) aks) w))"
proof -
  obtain xs ak ys where aks: "aks = xs @ ak # ys" "map ak_Kanban xs = map Some ks" "ak_Kanban ak = Some t"
    using ks by (auto simp: map_eq_append_conv map_eq_Cons_conv append_eq_map_conv Cons_eq_map_conv)
  have len: "length ks = length xs" using aks(2) by (metis length_map)
  have "None \<notin> ak_Kanban ` set xs" using arg_cong [OF aks(2), of set] by auto
  from consume_ok [OF as this, of api jc sc msName] show ?thesis
    using consume_setting [of api jc sc msName xs w]
    by (auto simp: aks(1) len consume_append WatchMicroservice_def aks(3) t as GetMicroserviceList_def
        split: prod.splits after.splits)
qed

text \<open>
  C11. The broker reads the after streams from the beginning whenever it starts a watcher, does
  not remove what it has read and empties Redis only when it starts itself. So a watcher that
  is started again for an instance, after a redeployment or a further start, receives every
  kanban once more and routes it once more, and it returns at the terminate kanban of the
  former run: what the instance has written since then is never routed.
\<close>

theorem restart_replays_stream:
  assumes ok: "redis_streams api ent lt"
    and as: "wf_setting as" "wt_aionSetting w = Some as"
    and stream: "list_all2 (decodes jc) (ent r key) (ks @ t # ks')"
    and t: "sk_ConnectionKey t = serviceBrokerName" "terminateServiceParser sc (Some t) = Inr (name, n)"
      "map_of (as_Microservices as) name = Some (Some m)" "\<not> ms_Always m"
  shows "\<exists>aks r1 r2.
    WatchKanban api jc key False (replicate (length (ks @ t # ks')) False) initPrevID r = (aks, False, r1) \<and>
    WatchKanban api jc key False (replicate (length (ks @ t # ks')) False) initPrevID r1 = (aks, False, r2) \<and>
    map ak_Kanban aks = map Some (ks @ t # ks') \<and>
    consume api jc sc msName aks w = (ReturnWatch, snd (consume api jc sc msName (take (length ks) aks) w))"
proof -
  let ?ks = "ks @ t # ks'"
  let ?aks = "\<lambda>r. map (\<lambda>(e, k). \<lparr>ak_ID = fst e, ak_Kanban = Some k\<rparr>) (zip (ent r key) ?ks)"
  have len: "length (ent r key) = length ?ks" using stream by (rule list_all2_lengthD)
  from redis_streams.watch_prefix [OF ok stream, of "length ?ks" False] obtain r1 where r1:
    "WatchKanban api jc key False (replicate (length ?ks) False) initPrevID r = (?aks r, False, r1)" "ent r1 key = ent r key"
    by (auto simp: len simp del: replicate_Suc length_append)
  from redis_streams.watch_prefix [OF ok, of jc r1 key ?ks "length ?ks" False] stream obtain r2 where r2:
    "WatchKanban api jc key False (replicate (length ?ks) False) initPrevID r1 = (?aks r, False, r2)"
    by (auto simp: len r1(2) simp del: replicate_Suc length_append)
  have kanbans: "map ak_Kanban (?aks r) = map Some ?ks"
    using len by (auto simp: split_def comp_def map_snd_zip_take simp flip: map_map [of Some snd, unfolded comp_def])
  with r1(1) r2 consume_until [OF as _ t] show ?thesis by blast
qed

definition ex_replay_codec :: json_codec where
  "ex_replay_codec = \<lparr>jc_marshal = (\<lambda>k. Inl (Error ''not used'')),
     jc_unmarshal = (\<lambda>s. Inr (if s = ''t'' then terminate_kanban ex_client (terminate_struct ex_client) else ex_kanban))\<rparr>"

definition ex_replay_redis :: ref_redis where
  "ex_replay_redis = (\<lambda>_. [(''10'', [(''kanban'', IString ''k'')]), (''110'', [(''kanban'', IString ''t'')]),
     (''1110'', [(''kanban'', IString ''k'')])])"

theorem restart_replays_stream_witness:
  "\<exists>aks. fst (WatchKanban ref_api ex_replay_codec ''s'' False [False, False, False] initPrevID ex_replay_redis) = aks \<and>
    length aks = 3 \<and> fst (consume ref_api ex_replay_codec ex_close_struct_codec ''a'' aks ex_local_watcher) = ReturnWatch"
proof -
  let ?t = "terminate_kanban ex_client (terminate_struct ex_client)"
  have w: "wt_aionSetting ex_local_watcher = Some ex_local" by (simp add: ex_local_watcher_def NewWatcher_def)
  have ent: "ref_ent ex_replay_redis ''s'' = [(''10'', [(''kanban'', IString ''k'')]), (''110'', [(''kanban'', IString ''t'')]),
     (''1110'', [(''kanban'', IString ''k'')])]"
    by (simp add: ref_ent_def ex_replay_redis_def shorter_def)
  have stream: "list_all2 (decodes ex_replay_codec) (ref_ent ex_replay_redis ''s'') ([ex_kanban] @ ?t # [ex_kanban])"
    by (simp add: ent decodes_def unmarshalKanban_def ex_replay_codec_def)
  have t: "sk_ConnectionKey ?t = serviceBrokerName" by (simp add: terminate_kanban_def serviceBrokerName_def)
  have "struct_codec_documented ex_close_struct_codec"
    "protojson_marshal ex_close_struct_codec (Some (terminate_struct ex_client)) = Inr ''{}''"
    by (simp_all add: struct_codec_documented_def ex_close_struct_codec_def)
  note parsed = terminate_parsed [OF this]
  have "map_option (map_option ms_Always) (map_of (as_Microservices ex_local) (mc_serviceName ex_client)) = Some (Some False)"
    by code_simp
  then obtain m where m: "map_of (as_Microservices ex_local) (mc_serviceName ex_client) = Some (Some m)" "\<not> ms_Always m" by auto
  from restart_replays_stream [where ent = ref_ent and lt = shorter and msName = "''a''",
      OF ref_redis_streams ex_local_facts(1) w stream t parsed m]
  obtain aks r1 where "WatchKanban ref_api ex_replay_codec ''s'' False [False, False, False] initPrevID ex_replay_redis = (aks, False, r1)"
    and "map ak_Kanban aks = map Some ([ex_kanban] @ ?t # [ex_kanban])"
    and "fst (consume ref_api ex_replay_codec ex_close_struct_codec ''a'' aks ex_local_watcher) = ReturnWatch"
    by (auto simp del: WatchKanban.simps consume.simps)
  moreover from this(2) have "length aks = 3" by (metis One_nat_def Suc_1 append_Cons append_Nil length_Cons length_map list.size(3) numeral_3_eq_3)
  ultimately show ?thesis by simp
qed

end
