(* ===== verification/DeviceRun.thy ===== *)
theory DeviceRun
  imports Controller Pipeline
begin

text \<open>
  A whole device at run time. The goroutines of the service broker and of the kanban server
  and the microservices behind it take turns on one Redis server: microservices output
  kanbans, kanbans arrive from other devices, projects are deployed, instances are started,
  each watched instance has a reader of its stream and a routing loop, and each session of the
  kanban server has a reader and a sender. The server may fail at any command.
\<close>

declare GetStreamKeyByStatusType.simps [simp del]

section \<open>What the streams hold\<close>

text \<open>
  What holds of a Redis server even when it fails: nothing is in a stream that was not there
  before or has just been added, and what a read returns is in the stream.
\<close>

locale redis_entries =
  fixes api :: "'r redis_api" and ent :: "'r \<Rightarrow> string \<Rightarrow> (string \<times> (string, iface) gomap) list"
  assumes read_state: "ent (snd (r_XRead api ks c b r)) k = ent r k"
    and read_entry: "fst (r_XRead api [key, i] 1 0 r) = Inr ss \<Longrightarrow> s \<in> set ss \<Longrightarrow> m \<in> set (xs_Messages s) \<Longrightarrow>
      \<exists>v. xm_Values m = Some v \<and> (xm_ID m, v) \<in> set (ent r key)"
    and add_entry: "e \<in> set (ent (snd (r_XAdd api key n v r)) k) \<Longrightarrow> e \<in> set (ent r k) \<or> k = key \<and> snd e = v"
    and del_entry: "set (ent (snd (r_XDel api key is r)) k) \<subseteq> set (ent r k)"

text \<open>What \<open>jsonpb\<close> documents: nil is not marshalled, and what is marshalled is read back.\<close>

definition codec_documented :: "json_codec \<Rightarrow> bool" where
  "codec_documented jc \<longleftrightarrow> (\<forall>s. jc_marshal jc None \<noteq> Inr s) \<and>
     (\<forall>k s. jc_marshal jc (Some k) = Inr s \<longrightarrow> jc_unmarshal jc s = Inr k)"

context redis_entries
begin

lemma write_entry:
  assumes "codec_documented jc" "e \<in> set (ent (snd (WriteKanban api jc key ko r)) j)"
  shows "e \<in> set (ent r j) \<or> j = key \<and> (\<exists>k. ko = Some k \<and> decodes jc e k)"
proof (cases "jc_marshal jc ko")
  case (Inl x)
  with assms(2) show ?thesis by (simp add: WriteKanban_def)
next
  case (Inr s)
  with assms(1) obtain k where k: "ko = Some k" "jc_unmarshal jc s = Inr k"
    by (cases ko) (auto simp: codec_documented_def)
  have "e \<in> set (ent (snd (r_XAdd api key max_len [(''kanban'', IString s)] r)) j)"
    using assms(2) Inr by (auto simp: WriteKanban_def XAdd_def drop_value_def split: prod.splits sum.splits)
  from add_entry [OF this] k show ?thesis by (auto simp: decodes_def unmarshalKanban_def)
qed

lemma iter_entries: "e \<in> set (ent (snd (watch_iter api jc key d p r)) j) \<Longrightarrow> e \<in> set (ent r j)"
  using read_state [of "[key, p]" 1 0 r] del_entry [of key "[p]" "snd (r_XRead api [key, p] 1 0 r)" j]
  by (auto simp: watch_iter_def XReadOne_def XDel_def Let_def split: prod.splits sum.splits list.splits if_splits)

lemma iter_deliver:
  assumes "watch_iter api jc key d p r = (Deliver ak, r')"
  shows "\<exists>v. (ak_ID ak, v) \<in> set (ent r key) \<and> unmarshalKanban jc (Some v) = Inr (ak_Kanban ak)"
proof -
  obtain s ss m ms r1 where rd: "r_XRead api [key, p] 1 0 r = (Inr (s # ss), r1)" "xs_Messages s = m # ms"
    and ak: "unmarshalKanban jc (xm_Values m) = Inr (ak_Kanban ak)" "ak_ID ak = xm_ID m"
    using assms by (auto simp: watch_iter_def XReadOne_def Let_def split: prod.splits sum.splits list.splits)
  from read_entry [of key p r "s # ss" s m] rd obtain v where
    "xm_Values m = Some v" "(xm_ID m, v) \<in> set (ent r key)" by auto
  with ak show ?thesis by auto
qed

text \<open>When every entry of the stream stands for a kanban with a property, so does what is sent on.\<close>

lemma iter_delivers_entry:
  assumes "watch_iter api jc key d p r = (Deliver ak, r')"
    and "\<And>e. e \<in> set (ent r key) \<Longrightarrow> \<exists>k. decodes jc e k \<and> P k"
  shows "\<exists>k. ak_Kanban ak = Some k \<and> P k"
  using iter_deliver [OF assms(1)] assms(2) by (fastforce simp: decodes_def)

end

lemma filter_head: "filter P ys = x # xs \<Longrightarrow> x \<in> set ys"
  by (induction ys) (auto split: if_splits)

lemma ref_ent_upd: "e \<in> set (ref_ent (r(key := es)) k) \<Longrightarrow> e \<in> set (if k = key then es else ref_ent r k)"
  by (simp add: ref_ent_def split: if_splits)

lemma ref_redis_entries: "redis_entries ref_api ref_ent"
proof
  fix ks c b k and r :: ref_redis
  show "ref_ent (snd (r_XRead ref_api ks c b r)) k = ref_ent r k"
    by (cases "(ks, c, b, r)" rule: ref_xread.cases) (auto simp: ref_api_def split: list.splits)
next
  fix key i ss s m and r :: ref_redis
  assume "fst (r_XRead ref_api [key, i] 1 0 r) = Inr ss" "s \<in> set ss" "m \<in> set (xs_Messages s)"
  then obtain j v es where "filter (\<lambda>e. shorter i (fst e)) (ref_ent r key) = (j, v) # es"
    "xm_ID m = j" "xm_Values m = Some v" by (auto simp: ref_api_def split: list.splits)
  moreover from this(1) have "(j, v) \<in> set (ref_ent r key)"
    by (rule filter_head)
  ultimately show "\<exists>v. xm_Values m = Some v \<and> (xm_ID m, v) \<in> set (ref_ent r key)" by auto
next
  fix e key n v k and r :: ref_redis
  show "e \<in> set (ref_ent (snd (r_XAdd ref_api key n v r)) k) \<Longrightarrow> e \<in> set (ref_ent r k) \<or> k = key \<and> snd e = v"
    by (auto simp: ref_api_def last_n_def simp del: drop_append dest!: ref_ent_upd in_set_dropD split: if_splits)
next
  fix key "is" k and r :: ref_redis
  show "set (ref_ent (snd (r_XDel ref_api key is r)) k) \<subseteq> set (ref_ent r k)"
    by (auto simp: ref_api_def dest!: ref_ent_upd split: if_splits)
qed

interpretation ref_trace: redis_entries ref_api ref_ent
  by (rule ref_redis_entries)

section \<open>Where a kanban comes from\<close>

text \<open>
  The history of a device: what microservices have output, what has arrived from other
  devices, which projects have been deployed, and which kanbans were made for microservices
  that started without one.
\<close>

record history =
  hi_outputs :: "(string \<times> StatusKanban) list"
  hi_arrived :: "SendKanban list"
  hi_deployed :: "AionSetting list"
  hi_initial :: "(Container \<times> StatusKanban) list"

definition continues :: "history \<Rightarrow> history \<Rightarrow> bool" where
  "continues h h' \<longleftrightarrow> set (hi_outputs h) \<subseteq> set (hi_outputs h') \<and> set (hi_arrived h) \<subseteq> set (hi_arrived h') \<and>
     set (hi_deployed h) \<subseteq> set (hi_deployed h') \<and> set (hi_initial h) \<subseteq> set (hi_initial h')"

text \<open>
  The kanban as the routing loop passes it on: as it was output, or with the own device's name
  of a project that was deployed.
\<close>

definition named :: "history \<Rightarrow> StatusKanban \<Rightarrow> StatusKanban \<Rightarrow> bool" where
  "named h k0 k \<longleftrightarrow> k = k0 \<or> (\<exists>as \<in> set (hi_deployed h). k = own_name as k0)"

definition next_of :: "history \<Rightarrow> AionSetting \<Rightarrow> StatusKanban \<Rightarrow> NextServiceSetting option \<Rightarrow> bool" where
  "next_of h as k v \<longleftrightarrow> as \<in> set (hi_deployed h) \<and> (\<exists>s vs. (s, k) \<in> set (hi_outputs h) \<and>
     GetNextServiceList as s (sk_ConnectionKey k) = Inr vs \<and> v \<in> set vs \<and> v \<noteq> None)"

definition routed_to :: "history \<Rightarrow> Container \<Rightarrow> StatusKanban \<Rightarrow> bool" where
  "routed_to h c k \<longleftrightarrow> (\<exists>as as' k0 v. next_of h as k0 v \<and> as' \<in> set (hi_deployed h) \<and>
     c = started_local k0 v \<and> k = own_name as' k0)"

definition container_of :: "SendKanban \<Rightarrow> Container" where
  "container_of sd = NewContainer (sd_NextService sd) (to_int (sd_NextNumber sd))"

definition arrived_for :: "history \<Rightarrow> Container \<Rightarrow> StatusKanban \<Rightarrow> bool" where
  "arrived_for h c k \<longleftrightarrow> (\<exists>sd \<in> set (hi_arrived h). c = container_of sd \<and> sd_AfterKanban sd = Some k)"

definition justified :: "history \<Rightarrow> Container \<Rightarrow> StatusKanban \<Rightarrow> bool" where
  "justified h c k \<longleftrightarrow> routed_to h c k \<or> arrived_for h c k \<or> (c, k) \<in> set (hi_initial h)"

text \<open>
  A message for another device: the next service is one of a deployed project, the device one of
  a deployed project that the kanban, as it was then, was for; the kanban in it is the one that
  was output but for the device name, which may have changed since it was queued.
\<close>

definition forwarded :: "history \<Rightarrow> SendKanban \<Rightarrow> bool" where
  "forwarded h m \<longleftrightarrow> (\<exists>as as' k0 k k' v. next_of h as k0 v \<and> as' \<in> set (hi_deployed h) \<and> named h k0 k \<and>
     remote as' k v \<and> named h k0 k' \<and> m = (sent_remote as' k v)\<lparr>sd_AfterKanban := Some k'\<rparr>)"

definition start_asked :: "history \<Rightarrow> Container \<Rightarrow> bool" where
  "start_asked h c \<longleftrightarrow> (\<exists>as k v. next_of h as k v \<and> c = started_local k v) \<or> (\<exists>sd \<in> set (hi_arrived h). c = container_of sd)"

lemma next_of_mono: "continues h h' \<Longrightarrow> next_of h as k v \<Longrightarrow> next_of h' as k v"
  unfolding next_of_def continues_def by blast

lemma named_mono: "continues h h' \<Longrightarrow> named h k0 k \<Longrightarrow> named h' k0 k"
  unfolding named_def continues_def by blast

lemma deployed_mono: "continues h h' \<Longrightarrow> as \<in> set (hi_deployed h) \<Longrightarrow> as \<in> set (hi_deployed h')"
  unfolding continues_def by blast

lemma justified_mono: "continues h h' \<Longrightarrow> justified h c k \<Longrightarrow> justified h' c k"
  unfolding justified_def routed_to_def arrived_for_def
  using next_of_mono [of h h'] unfolding continues_def by blast

lemma forwarded_mono: "continues h h' \<Longrightarrow> forwarded h m \<Longrightarrow> forwarded h' m"
  unfolding forwarded_def using next_of_mono named_mono deployed_mono by blast

lemma start_asked_mono: "continues h h' \<Longrightarrow> start_asked h c \<Longrightarrow> start_asked h' c"
  unfolding start_asked_def using next_of_mono [of h h'] unfolding continues_def by blast

lemmas history_mono = next_of_mono named_mono deployed_mono justified_mono forwarded_mono start_asked_mono

lemma named_same:
  assumes "named h k0 k"
  shows "started_local k v = started_local k0 v" "next_number k ns = next_number k0 ns" "own_name as k = own_name as k0"
    "sk_ConnectionKey k = sk_ConnectionKey k0"
  using assms by (auto simp: named_def)

lemma named_own: "named h k0 k \<Longrightarrow> as \<in> set (hi_deployed h) \<Longrightarrow> named h k0 (own_name as k)"
  by (auto simp: named_def)

lemma named_refl [simp]: "named h k k" by (simp add: named_def)

section \<open>The kanban objects\<close>

text \<open>
  Objects are only added, and changed only in that they get the own device's name of a project
  that was deployed.
\<close>

definition heap_after :: "history \<Rightarrow> StatusKanban list \<Rightarrow> StatusKanban list \<Rightarrow> bool" where
  "heap_after h ks ks' \<longleftrightarrow> length ks \<le> length ks' \<and>
     (\<forall>a < length ks. ks' ! a = ks ! a \<or> (\<exists>as \<in> set (hi_deployed h). ks' ! a = own_name as (ks ! a)))"

definition object_of :: "history \<Rightarrow> StatusKanban list \<Rightarrow> StatusKanban \<Rightarrow> nat \<Rightarrow> bool" where
  "object_of h ks k0 a \<longleftrightarrow> a < length ks \<and> named h k0 (ks ! a)"

lemma object_named: "object_of h ks k0 a \<Longrightarrow> named h k0 (ks ! a)"
  by (simp add: object_of_def)

lemma heap_refl [simp]: "heap_after h ks ks" by (simp add: heap_after_def)

lemma heap_new [simp]: "heap_after h ks (ks @ [k])" by (simp add: heap_after_def nth_append)

lemma heap_named [simp]: "as \<in> set (hi_deployed h) \<Longrightarrow> heap_after h ks (ks[a := own_name as (ks ! a)])"
  unfolding heap_after_def by (metis length_list_update nth_list_update_eq nth_list_update_neq order.refl)

lemma object_mono: "heap_after h ks ks' \<Longrightarrow> object_of h ks k0 a \<Longrightarrow> object_of h ks' k0 a"
  unfolding object_of_def heap_after_def by (metis named_own order.strict_trans2)

lemma object_history: "continues h h' \<Longrightarrow> object_of h ks k0 a \<Longrightarrow> object_of h' ks k0 a"
  unfolding object_of_def using named_mono by blast

definition queue_ok :: "history \<Rightarrow> StatusKanban list \<Rightarrow> queued_kanban \<Rightarrow> bool" where
  "queue_ok h ks q \<longleftrightarrow> (\<exists>as as' k0 k a v. next_of h as k0 v \<and> as' \<in> set (hi_deployed h) \<and> named h k0 k \<and>
     remote as' k v \<and> q = queued_remote as' k a v \<and> object_of h ks k0 a)"

lemma queue_marshalled: "queue_ok h ks q \<Longrightarrow> forwarded h (marshalled ks q)"
  unfolding queue_ok_def forwarded_def object_of_def using marshalled_queued by blast

lemma queue_mono: "continues h h' \<Longrightarrow> heap_after h' ks ks' \<Longrightarrow> queue_ok h ks q \<Longrightarrow> queue_ok h' ks' q"
  unfolding queue_ok_def
  apply (elim exE conjE)
  subgoal for as as' k0 k a v
    by (rule exI [of _ as], rule exI [of _ as'], rule exI [of _ k0], rule exI [of _ k], rule exI [of _ a], rule exI [of _ v])
      (auto intro: next_of_mono named_mono deployed_mono object_history object_mono)
  done

definition chosen :: "history \<Rightarrow> string \<Rightarrow> StatusKanban \<Rightarrow> NextServiceSetting option list \<Rightarrow> bool" where
  "chosen h name k0 vs \<longleftrightarrow> vs = [] \<or> (\<exists>as \<in> set (hi_deployed h). \<exists>us.
     GetNextServiceList as name (sk_ConnectionKey k0) = Inr us \<and> set vs \<subseteq> set us)"

fun address_ok :: "history \<Rightarrow> StatusKanban \<Rightarrow> pass \<Rightarrow> bool" where
  "address_ok h k0 (Sending a ns d dv vs) \<longleftrightarrow> (\<exists>as \<in> set (hi_deployed h). \<exists>k. named h k0 k \<and>
     d = target_device k ns \<and> map_of (as_Devices as) d = Some (Some dv))"
| "address_ok h k0 p \<longleftrightarrow> True"

definition pass_ok :: "history \<Rightarrow> StatusKanban list \<Rightarrow> string \<Rightarrow> pass \<Rightarrow> bool" where
  "pass_ok h ks name p \<longleftrightarrow> (\<exists>k0. (name, k0) \<in> set (hi_outputs h) \<and> object_of h ks k0 (pass_object p) \<and>
     chosen h name k0 (pass_list p) \<and> address_ok h k0 p)"

lemma chosen_sub: "chosen h name k0 vs \<Longrightarrow> set us \<subseteq> set vs \<Longrightarrow> chosen h name k0 us"
  unfolding chosen_def by (metis (no_types) dual_order.trans set_empty subset_empty)

lemma chosen_next: "chosen h name k0 vs \<Longrightarrow> (name, k0) \<in> set (hi_outputs h) \<Longrightarrow> Some ns \<in> set vs \<Longrightarrow>
    \<exists>as. next_of h as k0 (Some ns)"
  unfolding chosen_def next_of_def by auto

lemma chosen_mono: "continues h h' \<Longrightarrow> chosen h name k0 vs \<Longrightarrow> chosen h' name k0 vs"
  unfolding chosen_def using deployed_mono by blast

lemma address_mono: "continues h h' \<Longrightarrow> address_ok h k0 p \<Longrightarrow> address_ok h' k0 p"
  by (cases p) (auto intro: named_mono deployed_mono)

lemma pass_mono:
  assumes "continues h h'" "heap_after h' ks ks'" "pass_ok h ks name p"
  shows "pass_ok h' ks' name p"
proof -
  have "set (hi_outputs h) \<subseteq> set (hi_outputs h')" using assms(1) by (simp add: continues_def)
  then show ?thesis
    using assms(3) object_mono [OF assms(2)] object_history [OF assms(1)] chosen_mono [OF assms(1)] address_mono [OF assms(1)]
    unfolding pass_ok_def by blast
qed

section \<open>The device\<close>

text \<open>
  A watched instance: the goroutine of the broker that routes what the instance writes and the
  reader of its stream, with the identifier the reader has got to, the kanban that waits in
  their channel, the routing pass that is under way and whether the reader has closed the
  channel. A watch that has been cancelled finishes its pass, and it may still handle a
  kanban, because \<open>select\<close> chooses among the channels that are ready. A session of the kanban
  server likewise; once a send has failed its handler has returned, but its reader goes on.
\<close>

record instance_watch =
  iw_name :: string
  iw_number :: int
  iw_prevID :: string
  iw_held :: "AdaptorKanban option"
  iw_pass :: "pass option"
  iw_closed :: bool
  iw_live :: bool

record session_watch =
  sw_session :: Session
  sw_prevID :: string
  sw_held :: "AdaptorKanban option"
  sw_open :: bool

definition new_watch :: "string \<times> int \<Rightarrow> instance_watch" where
  "new_watch p = \<lparr>iw_name = fst p, iw_number = snd p, iw_prevID = initPrevID, iw_held = None,
     iw_pass = None, iw_closed = False, iw_live = True\<rparr>"

definition new_session_watch :: "Session \<Rightarrow> session_watch" where
  "new_session_watch se = \<lparr>sw_session = se, sw_prevID = initPrevID, sw_held = None, sw_open = True\<rparr>"

definition session_container :: "Session \<Rightarrow> Container" where
  "session_container se = NewContainer (se_microserviceName se) (se_processNumber se)"

definition after_key_of :: "instance_watch \<Rightarrow> string" where
  "after_key_of t = GetStreamKeyByStatusType (iw_name t) (iw_number t) StatusType_After"

text \<open>
  The state of the device: the watcher (with Redis behind it), the controller, the channel
  \<open>aionChForWatcher\<close>, the watched instances and the sessions; and what has happened so far, with
  the kanbans that the microservices have received.
\<close>

record ('r, 'q) device =
  dn_watcher :: "'r watcher"
  dn_broker :: "'q broker"
  dn_aionChForWatcher :: "AionSetting list"
  dn_watches :: "instance_watch list"
  dn_sessions :: "session_watch list"
  dn_history :: history
  dn_received :: "(Container \<times> StatusKanban option) list"

definition new_device :: "string \<Rightarrow> bool \<Rightarrow> K8sEnv \<Rightarrow> 'r \<Rightarrow> ('r, 'q) device" where
  "new_device home worker ke r = \<lparr>dn_watcher = NewWatcher r,
     dn_broker = new_broker home worker ke, dn_aionChForWatcher = [], dn_watches = [], dn_sessions = [],
     dn_history = \<lparr>hi_outputs = [], hi_arrived = [], hi_deployed = [], hi_initial = []\<rparr>, dn_received = []\<rparr>"

abbreviation dn_redis :: "('r, 'q) device \<Rightarrow> 'r" where
  "dn_redis s \<equiv> wt_redis (dn_watcher s)"

definition with_redis :: "'r \<Rightarrow> ('r, 'q) device \<Rightarrow> ('r, 'q) device" where
  "with_redis r s = s\<lparr>dn_watcher := (dn_watcher s)\<lparr>wt_redis := r\<rparr>\<rparr>"

text \<open>What becomes of a watch when its reader has read: the reader closes the channel, or it goes on.\<close>

fun after_read :: "watch_out \<Rightarrow> instance_watch \<Rightarrow> instance_watch" where
  "after_read Stop t = t\<lparr>iw_closed := True\<rparr>"
| "after_read (Skip i) t = t\<lparr>iw_prevID := i\<rparr>"
| "after_read (Deliver ak) t = t\<lparr>iw_prevID := ak_ID ak, iw_held := Some ak\<rparr>"

fun after_session_read :: "watch_out \<Rightarrow> session_watch \<Rightarrow> session_watch list" where
  "after_session_read Stop t = []"
| "after_session_read (Skip i) t = [t\<lparr>sw_prevID := i\<rparr>]"
| "after_session_read (Deliver ak) t = [t\<lparr>sw_prevID := ak_ID ak, sw_held := Some ak\<rparr>]"

fun after_progress :: "progress \<Rightarrow> instance_watch \<Rightarrow> instance_watch list" where
  "after_progress (Goes p) t = [t\<lparr>iw_pass := Some p\<rparr>]"
| "after_progress (Ends Continue) t = [t\<lparr>iw_pass := None\<rparr>]"
| "after_progress (Ends _) t = []"

text \<open>The controller notices that a watch it has not cancelled is over.\<close>

definition forget :: "'q k8s_world \<Rightarrow> instance_watch \<Rightarrow> instance_watch list \<Rightarrow> 'q broker \<Rightarrow> 'q broker" where
  "forget kw t ts b = (if iw_live t \<and> ts = [] then broker_step kw b (WatcherReturns (iw_name t) (iw_number t)) else b)"

text \<open>
  One step of the device. The process dies when a handler panics, so there is no step for that;
  a request for the controller or a project for the watcher waits in its channel until it is
  taken, which allows at least what the unbuffered channels of the code allow.
\<close>

inductive device_step :: "'r redis_api \<Rightarrow> json_codec \<Rightarrow> struct_codec \<Rightarrow> 'q k8s_world \<Rightarrow> ('r, 'q) device \<Rightarrow> ('r, 'q) device \<Rightarrow> bool"
  for api jc sc kw where
  Output: "OutputKanban (direct_service api jc) c (Some k) (dn_redis s) = (e, r') \<Longrightarrow>
    device_step api jc sc kw s ((with_redis r' s)\<lparr>dn_history := (dn_history s)\<lparr>hi_outputs :=
      hi_outputs (dn_history s) @ [(mc_serviceName c, k)]\<rparr>\<rparr>)"
| OutputStatic: "OutputStaticKanban (direct_service api jc) topic ko (dn_redis s) = (e, r') \<Longrightarrow>
    device_step api jc sc kw s (with_redis r' s)"
| DeleteStatic: "DeleteStaticKanban_req (direct_service api jc) topic i (dn_redis s) = (e, r') \<Longrightarrow>
    device_step api jc sc kw s (with_redis r' s)"
| Arrive: "device_step api jc sc kw s (s\<lparr>dn_watcher := WatchReceiveKanban api jc (dn_watcher s) (ReceivedKanban sd),
    dn_history := (dn_history s)\<lparr>hi_arrived := hi_arrived (dn_history s) @ [sd]\<rparr>\<rparr>)"
| Deployed: "handle kw (Deploy (Some as)) (dn_broker s) = (e, b') \<Longrightarrow> \<not> panicking e \<Longrightarrow>
    device_step api jc sc kw s (s\<lparr>dn_broker := b', dn_aionChForWatcher := dn_aionChForWatcher s @ [as],
      dn_watches := map (\<lambda>t. t\<lparr>iw_live := False\<rparr>) (dn_watches s) @ map new_watch (br_watchers b'),
      dn_history := (dn_history s)\<lparr>hi_deployed := hi_deployed (dn_history s) @ [as]\<rparr>\<rparr>)"
| TakeSetting: "dn_aionChForWatcher s = as # rest \<Longrightarrow>
    device_step api jc sc kw s (s\<lparr>dn_watcher := WatchReceiveKanban api jc (dn_watcher s) (NewSetting (Some as)),
      dn_aionChForWatcher := rest\<rparr>)"
| StartAsked: "wt_startCh (dn_watcher s) = c # rest \<Longrightarrow>
    handle kw (StartContainer (cn_Name c) (cn_Number c)) (dn_broker s) = (e, b') \<Longrightarrow> \<not> panicking e \<Longrightarrow>
    device_step api jc sc kw s (s\<lparr>dn_watcher := (dn_watcher s)\<lparr>wt_startCh := rest\<rparr>, dn_broker := b',
      dn_watches := dn_watches s @ (if e = None then [new_watch (cn_Name c, cn_Number c)] else [])\<rparr>)"
| Read: "dn_watches s = ts @ t # us \<Longrightarrow> iw_held t = None \<Longrightarrow> \<not> iw_closed t \<Longrightarrow>
    watch_iter api jc (after_key_of t) False (iw_prevID t) (dn_redis s) = (out, r') \<Longrightarrow>
    device_step api jc sc kw s ((with_redis r' s)\<lparr>dn_watches := ts @ after_read out t # us\<rparr>)"
| TakeKanban: "dn_watches s = ts @ t # us \<Longrightarrow> iw_held t = Some ak \<Longrightarrow> iw_pass t = None \<Longrightarrow>
    take_kanban sc ak (dn_watcher s) = (g, w') \<Longrightarrow> \<not> unwinds g \<Longrightarrow>
    device_step api jc sc kw s (s\<lparr>dn_watcher := w', dn_watches := ts @ after_progress g (t\<lparr>iw_held := None\<rparr>) @ us,
      dn_broker := forget kw t (after_progress g (t\<lparr>iw_held := None\<rparr>)) (dn_broker s)\<rparr>)"
| Pass: "dn_watches s = ts @ t # us \<Longrightarrow> iw_pass t = Some p \<Longrightarrow>
    pass_step api jc (iw_name t) p (dn_watcher s) = (g, w') \<Longrightarrow> \<not> unwinds g \<Longrightarrow>
    device_step api jc sc kw s (s\<lparr>dn_watcher := w', dn_watches := ts @ after_progress g t @ us,
      dn_broker := forget kw t (after_progress g t) (dn_broker s)\<rparr>)"
| Closed: "dn_watches s = ts @ t # us \<Longrightarrow> iw_pass t = None \<Longrightarrow> iw_held t = None \<Longrightarrow> iw_closed t \<Longrightarrow>
    device_step api jc sc kw s (s\<lparr>dn_watches := ts @ us, dn_broker := forget kw t [] (dn_broker s)\<rparr>)"
| Cancelled: "dn_watches s = ts @ t # us \<Longrightarrow> iw_pass t = None \<Longrightarrow> \<not> iw_live t \<Longrightarrow>
    device_step api jc sc kw s (s\<lparr>dn_watches := ts @ us\<rparr>)"
| Marshal: "length (wt_sent (dn_watcher s)) < length (wt_sendCh (dn_watcher s)) \<Longrightarrow>
    device_step api jc sc kw s (s\<lparr>dn_watcher := send_queued (dn_watcher s)\<rparr>)"
| Connect: "NewMicroserviceSession api jc now dir req (dn_redis s) = (se, r') \<Longrightarrow>
    device_step api jc sc kw s ((with_redis r' s)\<lparr>dn_sessions := dn_sessions s @ [new_session_watch se],
      dn_history := (dn_history s)\<lparr>hi_initial := hi_initial (dn_history s) @
        (if is_InitType req = START_SERVICE_WITHOUT_KANBAN then [(session_container se, initial_kanban now se)] else [])\<rparr>\<rparr>)"
| SessionRead: "dn_sessions s = ts @ t # us \<Longrightarrow> sw_held t = None \<Longrightarrow>
    watch_iter api jc (before_key (session_container (sw_session t))) True (sw_prevID t) (dn_redis s) = (out, r') \<Longrightarrow>
    device_step api jc sc kw s ((with_redis r' s)\<lparr>dn_sessions := ts @ after_session_read out t @ us\<rparr>)"
| SessionSend: "dn_sessions s = ts @ t # us \<Longrightarrow> sw_held t = Some ak \<Longrightarrow> sw_open t \<Longrightarrow>
    device_step api jc sc kw s (s\<lparr>dn_sessions := ts @ t\<lparr>sw_held := None\<rparr> # us,
      dn_received := dn_received s @ [(session_container (sw_session t), ak_Kanban ak)]\<rparr>)"
| SendFails: "dn_sessions s = ts @ t # us \<Longrightarrow> sw_held t = Some ak \<Longrightarrow> sw_open t \<Longrightarrow>
    device_step api jc sc kw s (s\<lparr>dn_sessions := ts @ t\<lparr>sw_held := None, sw_open := False\<rparr> # us\<rparr>)"

abbreviation device_runs where
  "device_runs api jc sc kw \<equiv> (device_step api jc sc kw)\<^sup>*\<^sup>*"

text \<open>When nothing comes in between, the steps of a pass do what \<open>WatchMicroservice\<close> does.\<close>

lemma pass_run:
  "dn_watches s = ts @ t # us \<Longrightarrow> iw_pass t = Some p \<Longrightarrow>
    pass_steps n api jc (iw_name t) (Goes p, dn_watcher s) = (Ends Continue, w') \<Longrightarrow>
    device_runs api jc sc kw s (s\<lparr>dn_watcher := w', dn_watches := ts @ t\<lparr>iw_pass := None\<rparr> # us\<rparr>)"
proof (induction n arbitrary: s t p)
  case (Suc n)
  obtain g w1 where g: "pass_step api jc (iw_name t) p (dn_watcher s) = (g, w1)" by force
  show ?case
  proof (cases g)
    case (Goes p1)
    let ?s = "s\<lparr>dn_watcher := w1, dn_watches := ts @ t\<lparr>iw_pass := Some p1\<rparr> # us\<rparr>"
    have "device_step api jc sc kw s ?s"
      using device_step.Pass [OF Suc.prems(1,2) g, of sc kw] by (simp add: Goes forget_def)
    moreover have "device_runs api jc sc kw ?s (?s\<lparr>dn_watcher := w', dn_watches := ts @ t\<lparr>iw_pass := Some p1\<rparr>\<lparr>iw_pass := None\<rparr> # us\<rparr>)"
      by (rule Suc.IH) (use Suc.prems(3) g in \<open>simp_all add: Goes\<close>)
    ultimately show ?thesis by (simp add: converse_rtranclp_into_rtranclp)
  next
    case (Ends x)
    with Suc.prems(3) g have x: "x = Continue" "w1 = w'" by auto
    have "device_step api jc sc kw s (s\<lparr>dn_watcher := w', dn_watches := ts @ t\<lparr>iw_pass := None\<rparr> # us\<rparr>)"
      using device_step.Pass [OF Suc.prems(1,2) g, of sc kw] by (simp add: Ends x forget_def)
    then show ?thesis by (rule r_into_rtranclp)
  qed
qed simp

lemma routed_run:
  assumes "dn_watches s = ts @ t # us" "iw_held t = Some ak" "iw_pass t = None" "ak_Kanban ak = Some k"
    and "WatchMicroservice api jc sc (iw_name t) ak (dn_watcher s) = (Continue, w')"
  shows "device_runs api jc sc kw s (s\<lparr>dn_watcher := w', dn_watches := ts @ t\<lparr>iw_held := None, iw_pass := None\<rparr> # us\<rparr>)"
proof -
  obtain n where n: "pass_steps n api jc (iw_name t) (take_kanban sc ak (dn_watcher s)) = (Ends Continue, w')"
    using undisturbed_steps [OF assms(4), of api jc "iw_name t" sc "dn_watcher s"] assms(5) by auto
  obtain g w1 where g: "take_kanban sc ak (dn_watcher s) = (g, w1)" by force
  show ?thesis
  proof (cases g)
    case (Goes p)
    let ?s = "s\<lparr>dn_watcher := w1, dn_watches := ts @ t\<lparr>iw_held := None, iw_pass := Some p\<rparr> # us\<rparr>"
    have "device_step api jc sc kw s ?s"
      using device_step.TakeKanban [OF assms(1-3) g, of api jc kw] by (simp add: Goes forget_def)
    moreover have "device_runs api jc sc kw ?s (?s\<lparr>dn_watcher := w',
        dn_watches := ts @ t\<lparr>iw_held := None, iw_pass := Some p\<rparr>\<lparr>iw_pass := None\<rparr> # us\<rparr>)"
      by (rule pass_run [where n = n]) (use n g in \<open>simp_all add: Goes\<close>)
    ultimately show ?thesis by (simp add: converse_rtranclp_into_rtranclp)
  next
    case (Ends x)
    with n g have x: "x = Continue" "w1 = w'" by auto
    have "device_step api jc sc kw s (s\<lparr>dn_watcher := w', dn_watches := ts @ t\<lparr>iw_held := None, iw_pass := None\<rparr> # us\<rparr>)"
      using device_step.TakeKanban [OF assms(1-3) g, of api jc kw] by (simp add: Ends x forget_def)
    then show ?thesis by (rule r_into_rtranclp)
  qed
qed

section \<open>The invariant\<close>

definition streams_ok :: "json_codec \<Rightarrow> ('r \<Rightarrow> string \<Rightarrow> (string \<times> (string, iface) gomap) list) \<Rightarrow> history \<Rightarrow> 'r \<Rightarrow> bool" where
  "streams_ok jc ent h r \<longleftrightarrow>
     (\<forall>m i e. e \<in> set (ent r (GetStreamKeyByStatusType m i StatusType_After)) \<longrightarrow>
       (\<exists>k. decodes jc e k \<and> (m, k) \<in> set (hi_outputs h))) \<and>
     (\<forall>c e. e \<in> set (ent r (before_key c)) \<longrightarrow> (\<exists>k. decodes jc e k \<and> justified h c k))"

definition watch_ok :: "history \<Rightarrow> StatusKanban list \<Rightarrow> instance_watch \<Rightarrow> bool" where
  "watch_ok h ks t \<longleftrightarrow> (\<forall>ak. iw_held t = Some ak \<longrightarrow> (\<exists>k. ak_Kanban ak = Some k \<and> (iw_name t, k) \<in> set (hi_outputs h))) \<and>
     (\<forall>p. iw_pass t = Some p \<longrightarrow> pass_ok h ks (iw_name t) p)"

definition session_ok :: "history \<Rightarrow> session_watch \<Rightarrow> bool" where
  "session_ok h t \<longleftrightarrow> (\<forall>ak. sw_held t = Some ak \<longrightarrow>
     (\<exists>k. ak_Kanban ak = Some k \<and> justified h (session_container (sw_session t)) k))"

definition receipt_ok :: "history \<Rightarrow> Container \<times> StatusKanban option \<Rightarrow> bool" where
  "receipt_ok h p \<longleftrightarrow> (\<exists>k. snd p = Some k \<and> justified h (fst p) k)"

definition watcher_ok :: "history \<Rightarrow> 'r watcher \<Rightarrow> bool" where
  "watcher_ok h w \<longleftrightarrow> (\<forall>q \<in> set (wt_sendCh w). queue_ok h (wt_kanbans w) q) \<and> (\<forall>m \<in> set (wt_sent w). forwarded h m) \<and>
     (\<forall>c \<in> set (wt_startCh w). start_asked h c) \<and> (\<forall>as. wt_aionSetting w = Some as \<longrightarrow> as \<in> set (hi_deployed h))"

definition sound :: "json_codec \<Rightarrow> ('r \<Rightarrow> string \<Rightarrow> (string \<times> (string, iface) gomap) list) \<Rightarrow> ('r, 'q) device \<Rightarrow> bool" where
  "sound jc ent s \<longleftrightarrow> streams_ok jc ent (dn_history s) (dn_redis s) \<and>
     (\<forall>t \<in> set (dn_watches s). watch_ok (dn_history s) (wt_kanbans (dn_watcher s)) t) \<and> (\<forall>t \<in> set (dn_sessions s). session_ok (dn_history s) t) \<and>
     (\<forall>p \<in> set (dn_received s). receipt_ok (dn_history s) p) \<and> watcher_ok (dn_history s) (dn_watcher s) \<and>
     set (dn_aionChForWatcher s) \<subseteq> set (hi_deployed (dn_history s))"

lemma ok_mono:
  assumes "continues h h'"
  shows "streams_ok jc ent h r \<Longrightarrow> streams_ok jc ent h' r" "heap_after h' ks ks' \<Longrightarrow> watch_ok h ks t \<Longrightarrow> watch_ok h' ks' t"
    "session_ok h u \<Longrightarrow> session_ok h' u" "receipt_ok h p \<Longrightarrow> receipt_ok h' p" "watcher_ok h w \<Longrightarrow> watcher_ok h' w"
proof -
  note mono = history_mono [OF assms]
  have o: "set (hi_outputs h) \<subseteq> set (hi_outputs h')" "set (hi_deployed h) \<subseteq> set (hi_deployed h')"
    using assms by (auto simp: continues_def)
  show "streams_ok jc ent h r \<Longrightarrow> streams_ok jc ent h' r"
    unfolding streams_ok_def using mono(4) o(1) by blast
  show "heap_after h' ks ks' \<Longrightarrow> watch_ok h ks t \<Longrightarrow> watch_ok h' ks' t"
    unfolding watch_ok_def using o(1) pass_mono [OF assms] by blast
  show "session_ok h u \<Longrightarrow> session_ok h' u" unfolding session_ok_def using mono(4) by blast
  show "receipt_ok h p \<Longrightarrow> receipt_ok h' p" unfolding receipt_ok_def using mono(4) by blast
  show "watcher_ok h w \<Longrightarrow> watcher_ok h' w"
    unfolding watcher_ok_def using mono(5,6) o(2) queue_mono [OF assms heap_refl] by blast
qed

lemma continues_refl [simp]: "continues h h" by (simp add: continues_def)

lemma with_redis_sel [simp]:
  "dn_watcher (with_redis r s) = (dn_watcher s)\<lparr>wt_redis := r\<rparr>" "dn_history (with_redis r s) = dn_history s"
  "dn_watches (with_redis r s) = dn_watches s" "dn_sessions (with_redis r s) = dn_sessions s"
  "dn_received (with_redis r s) = dn_received s" "dn_broker (with_redis r s) = dn_broker s"
  "dn_aionChForWatcher (with_redis r s) = dn_aionChForWatcher s"
  by (simp_all add: with_redis_def)

lemma watcher_ok_redis [simp]: "watcher_ok h (w\<lparr>wt_redis := r\<rparr>) = watcher_ok h w"
  by (simp add: watcher_ok_def)

text \<open>A step that adds to the history and keeps the rest up to what is shown separately.\<close>

lemma sound_step:
  assumes "sound jc ent s" "continues (dn_history s) (dn_history s')"
    and "streams_ok jc ent (dn_history s') (dn_redis s')"
    and "\<And>t. t \<in> set (dn_watches s') \<Longrightarrow> t \<in> set (dn_watches s) \<or> watch_ok (dn_history s') (wt_kanbans (dn_watcher s')) t"
    and "\<And>t. t \<in> set (dn_sessions s') \<Longrightarrow> t \<in> set (dn_sessions s) \<or> session_ok (dn_history s') t"
    and "\<And>p. p \<in> set (dn_received s') \<Longrightarrow> p \<in> set (dn_received s) \<or> receipt_ok (dn_history s') p"
    and "watcher_ok (dn_history s') (dn_watcher s')"
    and "set (dn_aionChForWatcher s') \<subseteq> set (dn_aionChForWatcher s) \<union> set (hi_deployed (dn_history s'))"
    and "heap_after (dn_history s') (wt_kanbans (dn_watcher s)) (wt_kanbans (dn_watcher s'))"
  shows "sound jc ent s'"
  using assms(1) assms(3-7) ok_mono(2) [OF assms(2,9)] ok_mono(3,4) [OF assms(2)] assms(2,8) unfolding sound_def continues_def by blast

lemma static_before [simp]: "before_key c \<noteq> GetStaticStreamKey t" "GetStaticStreamKey t \<noteq> before_key c"
  using static_key_apart [of t "cn_Name c" "cn_Number c" StatusType_Before] by (auto simp: before_key_def)

lemma after_before [simp]:
  "GetStreamKeyByStatusType m i StatusType_After \<noteq> before_key c" "before_key c \<noteq> GetStreamKeyByStatusType m i StatusType_After"
  using before_not_after [of c m i] by auto

lemma after_key_inj [simp]:
  "GetStreamKeyByStatusType m i StatusType_After = GetStreamKeyByStatusType n j StatusType_After \<longleftrightarrow> m = n \<and> i = j"
  using kanban_keys.key_inj [of StatusType_After StatusType_After m i n j] by simp

lemma before_key_eq: "GetStreamKeyByStatusType m i StatusType_Before = before_key (NewContainer m i)"
  by (simp add: before_key_def NewContainer_def)

context redis_entries
begin

text \<open>One kanban is added to a stream: by a microservice, by the routing, or at the start of a session.\<close>

lemma streams_ok_write:
  assumes "codec_documented jc" "streams_ok jc ent h r"
    and "\<And>m i k. key = GetStreamKeyByStatusType m i StatusType_After \<Longrightarrow> ko = Some k \<Longrightarrow> (m, k) \<in> set (hi_outputs h)"
    and "\<And>c k. key = before_key c \<Longrightarrow> ko = Some k \<Longrightarrow> justified h c k"
  shows "streams_ok jc ent h (snd (WriteKanban api jc key ko r))"
  unfolding streams_ok_def
proof (intro conjI allI impI)
  fix m i e
  assume "e \<in> set (ent (snd (WriteKanban api jc key ko r)) (GetStreamKeyByStatusType m i StatusType_After))"
  from write_entry [OF assms(1) this] assms(2,3) show "\<exists>k. decodes jc e k \<and> (m, k) \<in> set (hi_outputs h)"
    unfolding streams_ok_def by blast
next
  fix c e
  assume "e \<in> set (ent (snd (WriteKanban api jc key ko r)) (before_key c))"
  from write_entry [OF assms(1) this] assms(2,4) show "\<exists>k. decodes jc e k \<and> justified h c k"
    unfolding streams_ok_def by blast
qed

lemma streams_ok_subset:
  assumes "streams_ok jc ent h r" "\<And>e j. e \<in> set (ent r' j) \<Longrightarrow> e \<in> set (ent r j)"
  shows "streams_ok jc ent h r'"
  using assms unfolding streams_ok_def by blast

lemma streams_ok_iter: "streams_ok jc ent h r \<Longrightarrow> watch_iter api jc key d p r = (out, r') \<Longrightarrow> streams_ok jc ent h r'"
  by (erule streams_ok_subset) (metis iter_entries snd_conv)

lemma streams_ok_del: "streams_ok jc ent h r \<Longrightarrow> streams_ok jc ent h (snd (XDel api key is r))"
  by (erule streams_ok_subset) (simp add: XDel_def subsetD [OF del_entry])

text \<open>A step of a pass keeps what is known of the streams, the objects and the messages.\<close>

definition routing_ok :: "json_codec \<Rightarrow> history \<Rightarrow> string \<Rightarrow> 'r watcher \<Rightarrow> progress \<Rightarrow> 'r watcher \<Rightarrow> bool" where
  "routing_ok jc h name w g w' \<longleftrightarrow> streams_ok jc ent h (wt_redis w') \<and> watcher_ok h w' \<and>
     heap_after h (wt_kanbans w) (wt_kanbans w') \<and> (\<forall>p. g = Goes p \<longrightarrow> pass_ok h (wt_kanbans w') name p)"

lemma take_sound:
  assumes "ak_Kanban ak = Some k" "(name, k) \<in> set (hi_outputs h)" "streams_ok jc ent h (wt_redis w)" "watcher_ok h w"
    and "take_kanban sc ak w = (g, w')"
  shows "routing_ok jc h name w g w'"
proof -
  consider (ends) "w' = w" "\<And>p. g \<noteq> Goes p" | (goes) "w' = new_kanban k w" "g = Goes (Choosing (length (wt_kanbans w)))"
    using assms(1,5) by (auto simp: take_kanban_def split: if_splits sum.splits option.splits)
  then show ?thesis
  proof cases
    case ends
    with assms(3,4) show ?thesis by (simp add: routing_ok_def)
  next
    case goes
    have "watcher_ok h w'"
      using assms(4) queue_mono [OF continues_refl heap_new] by (auto simp: goes watcher_ok_def new_kanban_def)
    moreover have "pass_ok h (wt_kanbans w') name (Choosing (length (wt_kanbans w)))"
      using assms(2) by (auto simp: goes pass_ok_def object_of_def chosen_def)
    ultimately show ?thesis using assms(3) by (simp add: routing_ok_def goes new_kanban_def)
  qed
qed

lemma send_sound:
  assumes p: "pass_ok h (wt_kanbans w) name (Sending a ns d dv vs)" and ok: "streams_ok jc ent h (wt_redis w)" "watcher_ok h w"
  shows "routing_ok jc h name w (Goes (Looping a vs)) (send_remote ns d dv a w)"
proof -
  from p obtain k0 as' k where k0: "(name, k0) \<in> set (hi_outputs h)" "object_of h (wt_kanbans w) k0 a"
    "chosen h name k0 (Some ns # vs)" and k: "as' \<in> set (hi_deployed h)" "named h k0 k" "d = target_device k ns"
    "map_of (as_Devices as') d = Some (Some dv)" by (auto simp: pass_ok_def)
  from chosen_next [OF k0(3,1)] obtain as where nx: "next_of h as k0 (Some ns)" by auto
  have "next_number (wt_kanbans w ! a) ns = next_number k ns"
    using named_same(2) [OF object_named [OF k0(2)]] named_same(2) [OF k(2)] by simp
  then have q: "send_remote ns d dv a w = w\<lparr>wt_sendCh := wt_sendCh w @ [queued_remote as' k a (Some ns)]\<rparr>"
    using k(3,4) by (simp add: send_remote_def SendFileToDevice_def queued_remote_def)
  have "remote as' k (Some ns)" using k(3,4) by (simp add: remote_def)
  with nx k(1,2) k0(2) have "queue_ok h (wt_kanbans w) (queued_remote as' k a (Some ns))"
    unfolding queue_ok_def by blast
  with ok(2) have "watcher_ok h (send_remote ns d dv a w)" by (auto simp: q watcher_ok_def)
  moreover have "pass_ok h (wt_kanbans w) name (Looping a vs)"
    using k0 chosen_sub [OF k0(3)] by (auto simp: pass_ok_def)
  ultimately show ?thesis using ok(1) by (simp add: routing_ok_def q)
qed

lemma name_sound:
  assumes jc: "codec_documented jc" and as: "as \<in> set (hi_deployed h)"
    and p: "pass_ok h (wt_kanbans w) name (Naming a ns vs)" and ok: "streams_ok jc ent h (wt_redis w)" "watcher_ok h w"
  shows "routing_ok jc h name w (Goes (Asking a ns vs)) (write_local api jc as ns a w)"
proof -
  let ?k = "wt_kanbans w ! a"
  from p obtain k0 where k0: "(name, k0) \<in> set (hi_outputs h)" "object_of h (wt_kanbans w) k0 a"
    "chosen h name k0 (Some ns # vs)" by (auto simp: pass_ok_def)
  from chosen_next [OF k0(3,1)] obtain as0 where nx: "next_of h as0 k0 (Some ns)" by auto
  have k: "named h k0 ?k" using k0(2) by (simp add: object_of_def)
  let ?c = "started_local k0 (Some ns)"
  have "next_number (own_name as k0) ns = next_number k0 ns" by simp
  then have w': "write_local api jc as ns a w = w\<lparr>wt_kanbans := (wt_kanbans w)[a := own_name as ?k],
      wt_redis := snd (WriteKanban api jc (before_key ?c) (Some (own_name as k0)) (wt_redis w))\<rparr>"
    unfolding write_local_def own_name_def [symmetric] Let_def
    by (simp add: named_same [OF k] before_key_eq started_local_def)
  have "justified h ?c (own_name as k0)"
    using nx as unfolding justified_def routed_to_def by blast
  then have "streams_ok jc ent h (snd (WriteKanban api jc (before_key ?c) (Some (own_name as k0)) (wt_redis w)))"
    by (intro streams_ok_write [OF jc ok(1)]) auto
  moreover have hp: "heap_after h (wt_kanbans w) ((wt_kanbans w)[a := own_name as ?k])" using as by simp
  moreover have "watcher_ok h (write_local api jc as ns a w)"
    using ok(2) queue_mono [OF continues_refl hp] by (auto simp: w' watcher_ok_def)
  moreover have "pass_ok h ((wt_kanbans w)[a := own_name as ?k]) name (Asking a ns vs)"
    using k0 object_mono [OF hp] by (auto simp: pass_ok_def)
  ultimately show ?thesis by (simp add: routing_ok_def w')
qed

lemma ask_sound:
  assumes p: "pass_ok h (wt_kanbans w) name (Asking a ns vs)" and ok: "streams_ok jc ent h (wt_redis w)" "watcher_ok h w"
  shows "routing_ok jc h name w (Goes (Looping a vs)) (ask_start ns a w)"
proof -
  from p obtain k0 where k0: "(name, k0) \<in> set (hi_outputs h)" "object_of h (wt_kanbans w) k0 a"
    "chosen h name k0 (Some ns # vs)" by (auto simp: pass_ok_def)
  from chosen_next [OF k0(3,1)] obtain as0 where nx: "next_of h as0 k0 (Some ns)" by auto
  have "next_number (wt_kanbans w ! a) ns = next_number k0 ns" using named_same(2) [OF object_named [OF k0(2)]] .
  then have w': "ask_start ns a w = w\<lparr>wt_startCh := wt_startCh w @ [started_local k0 (Some ns)]\<rparr>"
    by (simp add: ask_start_def started_local_def)
  have "start_asked h (started_local k0 (Some ns))" using nx unfolding start_asked_def by blast
  with ok(2) have "watcher_ok h (ask_start ns a w)" by (auto simp: w' watcher_ok_def)
  moreover have "pass_ok h (wt_kanbans w) name (Looping a vs)"
    using k0 chosen_sub [OF k0(3)] by (auto simp: pass_ok_def)
  ultimately show ?thesis using ok(1) by (simp add: routing_ok_def w')
qed

lemma choose_sound:
  assumes p: "pass_ok h (wt_kanbans w) name (Choosing a)" and as: "as \<in> set (hi_deployed h)"
    and vs: "GetNextServiceList as name (sk_ConnectionKey (wt_kanbans w ! a)) = Inr vs"
  shows "pass_ok h (wt_kanbans w) name (Looping a vs)"
proof -
  from p obtain k0 where k0: "(name, k0) \<in> set (hi_outputs h)" "object_of h (wt_kanbans w) k0 a"
    by (auto simp: pass_ok_def)
  then have "sk_ConnectionKey (wt_kanbans w ! a) = sk_ConnectionKey k0" using named_same(4) [OF object_named] by blast
  with as vs have "chosen h name k0 vs" unfolding chosen_def by auto
  with k0 show ?thesis by (auto simp: pass_ok_def)
qed

lemma loop_sound:
  assumes p: "pass_ok h (wt_kanbans w) name (Looping a (Some ns # vs))" and as: "as \<in> set (hi_deployed h)"
  shows "find_hop as ns (wt_kanbans w ! a) = Inr ToLocal \<Longrightarrow> pass_ok h (wt_kanbans w) name (Naming a ns vs)"
    "find_hop as ns (wt_kanbans w ! a) = Inr (ToDevice d dv) \<Longrightarrow> pass_ok h (wt_kanbans w) name (Sending a ns d dv vs)"
proof -
  from p obtain k0 where k0: "(name, k0) \<in> set (hi_outputs h)" "object_of h (wt_kanbans w) k0 a"
    "chosen h name k0 (Some ns # vs)" by (auto simp: pass_ok_def)
  then show "pass_ok h (wt_kanbans w) name (Naming a ns vs)" by (auto simp: pass_ok_def)
  assume "find_hop as ns (wt_kanbans w ! a) = Inr (ToDevice d dv)"
  with find_hop_cases [where as = as and ns = ns and k = "wt_kanbans w ! a"] k0(2) as have "address_ok h k0 (Sending a ns d dv vs)"
    by (auto simp: object_of_def)
  with k0 show "pass_ok h (wt_kanbans w) name (Sending a ns d dv vs)" unfolding pass_ok_def by auto
qed

lemma pass_sound:
  assumes jc: "codec_documented jc" and p: "pass_ok h (wt_kanbans w) name p"
    and ok: "streams_ok jc ent h (wt_redis w)" "watcher_ok h w" and st: "pass_step api jc name p w = (g, w')"
  shows "routing_ok jc h name w g w'"
proof -
  have as: "as \<in> set (hi_deployed h)" if "wt_aionSetting w = Some as" for as
    using ok(2) that by (simp add: watcher_ok_def)
  have same: "routing_ok jc h name w (Goes p') w" if "pass_ok h (wt_kanbans w) name p'" for p'
    using ok that by (simp add: routing_ok_def)
  have ends: "routing_ok jc h name w (Ends x) w" for x using ok by (simp add: routing_ok_def)
  show ?thesis
  proof (cases p)
    case (Choosing a)
    have "routing_ok jc h name w (Goes (Looping a vs)) w"
      if "wt_aionSetting w = Some as" "GetNextServiceList as name (sk_ConnectionKey (wt_kanbans w ! a)) = Inr vs" for as vs
      using same [OF choose_sound [OF p [unfolded Choosing] as [OF that(1)] that(2)]] .
    with st Choosing ends show ?thesis by (auto split: option.splits sum.splits)
  next
    case (Looping a vs)
    show ?thesis
    proof (cases vs)
      case Nil
      with st Looping ends show ?thesis by auto
    next
      case (Cons v us)
      have "routing_ok jc h name w (Goes (Naming a ns us)) w"
        if "v = Some ns" "wt_aionSetting w = Some as" "find_hop as ns (wt_kanbans w ! a) = Inr ToLocal" for as ns
        using same [OF loop_sound(1) [OF p [unfolded Looping Cons that(1)] as [OF that(2)] that(3)]] .
      moreover have "routing_ok jc h name w (Goes (Sending a ns d dv us)) w"
        if "v = Some ns" "wt_aionSetting w = Some as" "find_hop as ns (wt_kanbans w ! a) = Inr (ToDevice d dv)" for as ns d dv
        using same [OF loop_sound(2) [OF p [unfolded Looping Cons that(1)] as [OF that(2)] that(3)]] .
      ultimately show ?thesis
        using st Looping Cons ends by (auto split: option.splits sum.splits hop.splits)
    qed
  next
    case (Sending a ns d dv vs)
    with st p ok send_sound show ?thesis by auto
  next
    case (Naming a ns vs)
    with st p ok ends name_sound [OF jc as] show ?thesis by (auto split: option.splits)
  next
    case (Asking a ns vs)
    with st p ok ask_sound show ?thesis by auto
  qed
qed

lemma progress_ok:
  assumes "routing_ok jc h (iw_name t) w g w'" "\<And>ak. iw_held t = Some ak \<Longrightarrow> \<exists>k. ak_Kanban ak = Some k \<and> (iw_name t, k) \<in> set (hi_outputs h)"
  shows "\<forall>t' \<in> set (after_progress g t). watch_ok h (wt_kanbans w') t'"
proof (cases g)
  case (Goes p)
  with assms show ?thesis by (auto simp: watch_ok_def routing_ok_def)
next
  case (Ends x)
  with assms show ?thesis by (cases x) (auto simp: watch_ok_def)
qed

lemma receive_sound:
  assumes "codec_documented jc" "sd \<in> set (hi_arrived h)"
    and "streams_ok jc ent h (wt_redis w)" "watcher_ok h w"
    and "w' = WatchReceiveKanban api jc w (ReceivedKanban sd)"
  shows "streams_ok jc ent h (wt_redis w') \<and> watcher_ok h w'"
proof -
  let ?key = "before_key (container_of sd)"
  have "w' = w\<lparr>wt_redis := snd (WriteKanban api jc ?key (sd_AfterKanban sd) (wt_redis w)),
      wt_startCh := wt_startCh w @ [container_of sd]\<rparr>"
    by (simp add: assms(5) container_of_def before_key_eq)
  moreover have "streams_ok jc ent h (snd (WriteKanban api jc ?key (sd_AfterKanban sd) (wt_redis w)))"
    using assms(2) by (intro streams_ok_write [OF assms(1,3)]) (auto simp: justified_def arrived_for_def)
  ultimately show ?thesis
    using assms(2,4) by (auto simp: watcher_ok_def start_asked_def)
qed

lemma receive_kanbans: "wt_kanbans (WatchReceiveKanban api jc w m) = wt_kanbans w"
  by (cases m) simp_all

lemma output_sound:
  assumes "codec_documented jc" "streams_ok jc ent h r" "(mc_serviceName c, k) \<in> set (hi_outputs h)"
    and "OutputKanban (direct_service api jc) c (Some k) r = (e, r')"
  shows "streams_ok jc ent h r'"
proof -
  have "r' = snd (WriteKanban api jc (GetStreamKeyByStatusType (mc_serviceName c) (to_int (sk_ProcessNumber k)) StatusType_After)
      (Some k) r)"
    using assms(4) by (auto simp: OutputKanban_direct split: prod.splits option.splits)
  with assms(3) show ?thesis by (auto intro!: streams_ok_write [OF assms(1,2)])
qed

lemma static_sound:
  assumes "codec_documented jc" "streams_ok jc ent h r"
  shows "OutputStaticKanban (direct_service api jc) topic ko r = (e, r') \<Longrightarrow> streams_ok jc ent h r'"
    "DeleteStaticKanban_req (direct_service api jc) topic i r = (e, r') \<Longrightarrow> streams_ok jc ent h r'"
proof -
  assume "OutputStaticKanban (direct_service api jc) topic ko r = (e, r')"
  then have "r' = snd (WriteKanban api jc (GetStaticStreamKey topic) ko r)"
    by (auto simp: OutputStaticKanban_def direct_service_def SendStaticKanban_def direct_def split: prod.splits)
  then show "streams_ok jc ent h r'"
    using static_key_apart [of topic] by (auto intro!: streams_ok_write [OF assms])
next
  assume "DeleteStaticKanban_req (direct_service api jc) topic i r = (e, r')"
  then have "r' = snd (XDel api (GetStaticStreamKey topic) [i] r)"
    by (auto simp: DeleteStaticKanban_req_def direct_service_def DeleteStaticKanban_def DeleteKanban_def direct_def split: prod.splits)
  then show "streams_ok jc ent h r'" using streams_ok_del [OF assms(2)] by simp
qed

lemma session_sound:
  assumes "codec_documented jc" "streams_ok jc ent h r"
    and "NewMicroserviceSession api jc now dir req r = (se, r')"
    and "is_InitType req = START_SERVICE_WITHOUT_KANBAN \<Longrightarrow> (session_container se, initial_kanban now se) \<in> set (hi_initial h)"
  shows "streams_ok jc ent h r'"
proof (cases "is_InitType req = START_SERVICE_WITHOUT_KANBAN")
  case True
  with assms(3) have "r' = snd (WriteKanban api jc (before_key (session_container se)) (Some (initial_kanban now se)) r)"
    by (auto simp: NewMicroserviceSession_def setKanban_def session_container_def before_key_eq Let_def)
  with assms(4) True show ?thesis by (auto intro!: streams_ok_write [OF assms(1,2)] simp: justified_def)
next
  case False
  with assms(2,3) show ?thesis by (simp add: NewMicroserviceSession_def Let_def)
qed

lemma read_sound:
  assumes "streams_ok jc ent h r" "watch_iter api jc (after_key_of t) False (iw_prevID t) r = (out, r')" "watch_ok h ks t"
  shows "watch_ok h ks (after_read out t)"
proof (cases out)
  case (Deliver ak)
  have "\<exists>k. ak_Kanban ak = Some k \<and> (iw_name t, k) \<in> set (hi_outputs h)"
    by (rule iter_delivers_entry) (use assms(1,2) Deliver in \<open>auto simp: streams_ok_def after_key_of_def\<close>)
  then show ?thesis using assms(3) by (simp add: Deliver watch_ok_def)
qed (use assms(3) in \<open>auto simp: watch_ok_def\<close>)

lemma session_read_sound:
  assumes "streams_ok jc ent h r" "sw_held t = None"
    and "watch_iter api jc (before_key (session_container (sw_session t))) True (sw_prevID t) r = (out, r')"
  shows "\<forall>t' \<in> set (after_session_read out t). session_ok h t'"
proof (cases out)
  case (Deliver ak)
  have "\<exists>k. ak_Kanban ak = Some k \<and> justified h (session_container (sw_session t)) k"
    by (rule iter_delivers_entry) (use assms(1,3) Deliver in \<open>auto simp: streams_ok_def\<close>)
  then show ?thesis by (simp add: Deliver session_ok_def)
qed (use assms(2) in \<open>auto simp: session_ok_def\<close>)

lemma step_sound:
  assumes "device_step api jc sc kw s s'" "codec_documented jc" "sound jc ent s"
  shows "sound jc ent s'"
  using assms(1)
proof cases
  case (Output c k e r')
  let ?h = "(dn_history s)\<lparr>hi_outputs := hi_outputs (dn_history s) @ [(mc_serviceName c, k)]\<rparr>"
  have x: "continues (dn_history s) ?h" by (auto simp: continues_def)
  have "streams_ok jc ent ?h r'"
    by (rule output_sound [OF assms(2) _ _ Output(2)]) (use assms(3) ok_mono(1) [OF x] in \<open>auto simp: sound_def\<close>)
  then show ?thesis
    using assms(3) ok_mono(5) [OF x] by (intro sound_step [OF assms(3)]) (auto simp: Output(1) sound_def x)
next
  case (OutputStatic topic ko e r')
  have "streams_ok jc ent (dn_history s) r'"
    using assms(3) by (intro static_sound(1) [OF assms(2) _ OutputStatic(2)]) (simp add: sound_def)
  with assms(3) show ?thesis by (simp add: OutputStatic(1) sound_def)
next
  case (DeleteStatic topic i e r')
  have "streams_ok jc ent (dn_history s) r'"
    using assms(3) by (intro static_sound(2) [OF assms(2) _ DeleteStatic(2)]) (simp add: sound_def)
  with assms(3) show ?thesis by (simp add: DeleteStatic(1) sound_def)
next
  case (Arrive sd)
  let ?h = "(dn_history s)\<lparr>hi_arrived := hi_arrived (dn_history s) @ [sd]\<rparr>"
  have x: "continues (dn_history s) ?h" by (auto simp: continues_def)
  have "streams_ok jc ent ?h (dn_redis s)" "watcher_ok ?h (dn_watcher s)"
    using assms(3) ok_mono(1,5) [OF x] by (auto simp: sound_def)
  from receive_sound [OF assms(2) _ this refl, of sd] show ?thesis
    by (intro sound_step [OF assms(3)]) (auto simp: Arrive(1) x receive_kanbans simp del: WatchReceiveKanban.simps)
next
  case (Deployed as e b')
  let ?h = "(dn_history s)\<lparr>hi_deployed := hi_deployed (dn_history s) @ [as]\<rparr>"
  have x: "continues (dn_history s) ?h" by (auto simp: continues_def)
  have "watch_ok ?h (wt_kanbans (dn_watcher s)) t" if "t \<in> set (dn_watches s')" for t
    using that assms(3) ok_mono(2) [OF x heap_refl] by (fastforce simp: Deployed(1) sound_def watch_ok_def new_watch_def)
  with assms(3) ok_mono(1,5) [OF x] show ?thesis
    by (intro sound_step [OF assms(3)]) (auto simp: Deployed(1) x sound_def)
next
  case (TakeSetting as rest)
  with assms(3) show ?thesis
    by (intro sound_step [OF assms(3)]) (auto simp: sound_def watcher_ok_def)
next
  case (StartAsked c rest e b')
  with assms(3) show ?thesis
    by (intro sound_step [OF assms(3)]) (auto simp: sound_def watcher_ok_def watch_ok_def new_watch_def split: if_splits)
next
  case (Read ts t us out r')
  have ok: "streams_ok jc ent (dn_history s) (dn_redis s)" "watch_ok (dn_history s) (wt_kanbans (dn_watcher s)) t"
    using assms(3) by (auto simp: sound_def Read(2))
  from streams_ok_iter [OF ok(1) Read(5)] read_sound [OF ok(1) Read(5) ok(2)] assms(3) show ?thesis
    by (intro sound_step [OF assms(3)]) (auto simp: Read(1,2) sound_def)
next
  case (TakeKanban ts t us ak g w')
  have ok: "streams_ok jc ent (dn_history s) (dn_redis s)" "watcher_ok (dn_history s) (dn_watcher s)"
    "watch_ok (dn_history s) (wt_kanbans (dn_watcher s)) t"
    using assms(3) TakeKanban(2) by (auto simp: sound_def)
  from ok(3) TakeKanban(3) obtain k where k: "ak_Kanban ak = Some k" "(iw_name t, k) \<in> set (hi_outputs (dn_history s))"
    by (auto simp: watch_ok_def)
  have r: "routing_ok jc (dn_history s) (iw_name (t\<lparr>iw_held := None\<rparr>)) (dn_watcher s) g w'"
    using take_sound [OF k ok(1,2) TakeKanban(5)] by simp
  have "\<forall>t' \<in> set (after_progress g (t\<lparr>iw_held := None\<rparr>)). watch_ok (dn_history s) (wt_kanbans w') t'"
    using progress_ok [OF r] by simp
  with r assms(3) show ?thesis
    by (intro sound_step [OF assms(3)]) (auto simp: TakeKanban(1,2) sound_def routing_ok_def)
next
  case (Pass ts t us p g w')
  have ok: "streams_ok jc ent (dn_history s) (dn_redis s)" "watcher_ok (dn_history s) (dn_watcher s)"
    "watch_ok (dn_history s) (wt_kanbans (dn_watcher s)) t"
    using assms(3) Pass(2) by (auto simp: sound_def)
  then have "pass_ok (dn_history s) (wt_kanbans (dn_watcher s)) (iw_name t) p" using Pass(3) by (simp add: watch_ok_def)
  from pass_sound [OF assms(2) this ok(1,2) Pass(4)]
  have r: "routing_ok jc (dn_history s) (iw_name t) (dn_watcher s) g w'" .
  have "\<forall>t' \<in> set (after_progress g t). watch_ok (dn_history s) (wt_kanbans w') t'"
    using progress_ok [OF r] ok(3) by (simp add: watch_ok_def)
  with r assms(3) show ?thesis
    by (intro sound_step [OF assms(3)]) (auto simp: Pass(1,2) sound_def routing_ok_def)
next
  case (Closed ts t us)
  with assms(3) show ?thesis by (auto simp: sound_def)
next
  case Marshal
  let ?w = "dn_watcher s"
  from Marshal(2) have q: "wt_sendCh ?w ! length (wt_sent ?w) \<in> set (wt_sendCh ?w)" by simp
  have "watcher_ok (dn_history s) (send_queued ?w)"
    using assms(3) queue_marshalled [of "dn_history s" "wt_kanbans ?w"] q by (auto simp: sound_def watcher_ok_def send_queued_def)
  with assms(3) show ?thesis
    by (intro sound_step [OF assms(3)]) (auto simp: Marshal(1) sound_def send_queued_def)
next
  case (Cancelled ts t us)
  with assms(3) show ?thesis by (auto simp: sound_def)
next
  case (Connect now dir req se r')
  let ?h = "(dn_history s)\<lparr>hi_initial := hi_initial (dn_history s) @
        (if is_InitType req = START_SERVICE_WITHOUT_KANBAN then [(session_container se, initial_kanban now se)] else [])\<rparr>"
  have x: "continues (dn_history s) ?h" by (auto simp: continues_def)
  have "streams_ok jc ent ?h r'"
    by (rule session_sound [OF assms(2) _ Connect(2)]) (use assms(3) ok_mono(1) [OF x] in \<open>auto simp: sound_def\<close>)
  then show ?thesis
    using assms(3) ok_mono(5) [OF x]
    by (intro sound_step [OF assms(3)]) (auto simp: Connect(1) sound_def x session_ok_def new_session_watch_def)
next
  case (SessionRead ts t us out r')
  have "streams_ok jc ent (dn_history s) (dn_redis s)" using assms(3) by (simp add: sound_def)
  from streams_ok_iter [OF this SessionRead(4)] session_read_sound [OF this SessionRead(3,4)] assms(3) show ?thesis
    by (intro sound_step [OF assms(3)]) (auto simp: SessionRead(1,2) sound_def)
next
  case (SessionSend ts t us ak)
  then have "receipt_ok (dn_history s) (session_container (sw_session t), ak_Kanban ak)"
    using assms(3) by (auto simp: sound_def session_ok_def receipt_ok_def)
  with assms(3) show ?thesis
    by (intro sound_step [OF assms(3)]) (auto simp: SessionSend(1,2) sound_def session_ok_def)
next
  case (SendFails ts t us ak)
  with assms(3) show ?thesis by (intro sound_step [OF assms(3)]) (auto simp: sound_def session_ok_def)
qed

lemma runs_sound:
  "device_runs api jc sc kw s s' \<Longrightarrow> codec_documented jc \<Longrightarrow> sound jc ent s \<Longrightarrow> sound jc ent s'"
  by (induction rule: rtranclp_induct) (auto intro: step_sound)

lemma new_device_sound: "(\<And>j. ent r j = []) \<Longrightarrow> sound jc ent (new_device home worker ke r)"
  by (simp add: sound_def new_device_def streams_ok_def watcher_ok_def NewWatcher_def)

lemma reachable_sound:
  "device_runs api jc sc kw (new_device home worker ke r) s \<Longrightarrow> codec_documented jc \<Longrightarrow> (\<And>j. ent r j = []) \<Longrightarrow> sound jc ent s"
  using runs_sound new_device_sound by blast

end

text \<open>A loaded project has no nil among its next services.\<close>

lemma chosen_filled:
  assumes "chosen h name k0 vs" "\<forall>as \<in> set (hi_deployed h). wf_setting as"
  shows "None \<notin> set vs"
proof (cases "vs = []")
  case False
  with assms(1) obtain as us where as: "as \<in> set (hi_deployed h)"
    "GetNextServiceList as name (sk_ConnectionKey k0) = Inr us" "set vs \<subseteq> set us" by (auto simp: chosen_def)
  with assms(2) next_services_ok [OF _ as(2)] show ?thesis by auto
qed simp

text \<open>
  The device controller sends in the order in which the watches have queued, and each message
  once, with the header that it was queued with.
\<close>

definition carries :: "SendKanban \<Rightarrow> queued_kanban \<Rightarrow> bool" where
  "carries m q \<longleftrightarrow> sd_DeviceName m = qd_DeviceName q \<and> sd_DeviceAddr m = qd_DeviceAddr q \<and>
     sd_NextService m = qd_NextService q \<and> sd_NextNumber m = qd_NextNumber q"

definition in_order :: "'r watcher \<Rightarrow> bool" where
  "in_order w \<longleftrightarrow> (\<exists>qs rest. wt_sendCh w = qs @ rest \<and> list_all2 carries (wt_sent w) qs)"

text \<open>What a step does to the channel of the device controller.\<close>

definition queues_on :: "'r watcher \<Rightarrow> 'r watcher \<Rightarrow> bool" where
  "queues_on w w' \<longleftrightarrow> (\<exists>qs. wt_sendCh w' = wt_sendCh w @ qs) \<and> wt_sent w' = wt_sent w"

lemma queues_refl [simp]: "queues_on w w" "queues_on w (w\<lparr>wt_redis := r\<rparr>)" "queues_on w (w\<lparr>wt_startCh := c\<rparr>)"
  "queues_on w (WatchReceiveKanban api jc w m)"
  by (simp_all add: queues_on_def) (cases m; simp add: queues_on_def)

lemma take_queues: "take_kanban sc ak w = (g, w') \<Longrightarrow> queues_on w w'"
  by (auto simp: take_kanban_def queues_on_def new_kanban_def split: if_splits sum.splits option.splits)

lemma pass_queues: "pass_step api jc name p w = (g, w') \<Longrightarrow> queues_on w w'"
  by (cases "(api, jc, name, p, w)" rule: pass_step.cases)
    (auto simp: queues_on_def send_remote_def SendFileToDevice_def write_local_def ask_start_def Let_def
      split: option.splits sum.splits hop.splits)

lemma step_queues:
  "device_step api jc sc kw s s' \<Longrightarrow> queues_on (dn_watcher s) (dn_watcher s') \<or>
    length (wt_sent (dn_watcher s)) < length (wt_sendCh (dn_watcher s)) \<and> dn_watcher s' = send_queued (dn_watcher s)"
  by (erule device_step.cases) (auto dest: take_queues pass_queues simp del: WatchReceiveKanban.simps)

lemma in_order_queues: "in_order w \<Longrightarrow> queues_on w w' \<Longrightarrow> in_order w'"
  unfolding in_order_def queues_on_def by (metis append_assoc)

lemma in_order_send:
  assumes "in_order w" "length (wt_sent w) < length (wt_sendCh w)"
  shows "in_order (send_queued w)"
proof -
  from assms(1) obtain qs rest where q: "wt_sendCh w = qs @ rest" "list_all2 carries (wt_sent w) qs"
    by (auto simp: in_order_def)
  from list_all2_lengthD [OF q(2)] assms(2) q(1) obtain x xs where x: "rest = x # xs" by (cases rest) auto
  have "wt_sendCh w ! length (wt_sent w) = x"
    using list_all2_lengthD [OF q(2)] by (simp add: q(1) x)
  then have "list_all2 carries (wt_sent (send_queued w)) (qs @ [x])"
    using assms(2) q(2) by (simp add: send_queued_def list_all2_appendI carries_def marshalled_def)
  moreover have "wt_sendCh (send_queued w) = (qs @ [x]) @ xs" using assms(2) by (simp add: send_queued_def q(1) x)
  ultimately show ?thesis unfolding in_order_def by blast
qed

lemma runs_in_order: "device_runs api jc sc kw s s' \<Longrightarrow> in_order (dn_watcher s) \<Longrightarrow> in_order (dn_watcher s')"
  by (induction rule: rtranclp_induct) (auto dest!: step_queues intro: in_order_queues in_order_send)

lemma new_device_in_order: "in_order (dn_watcher (new_device home worker ke r))"
  by (simp add: in_order_def new_device_def NewWatcher_def)

section \<open>Properties\<close>

text \<open>
  A run for the examples: a project is deployed and taken over, its microservice outputs a
  kanban, which is read and routed, and a next service connects and is sent it.
\<close>

definition ex_run_codec :: json_codec where
  "ex_run_codec = \<lparr>jc_marshal = (\<lambda>k. case k of None \<Rightarrow> Inl (Error ''nil'')
       | Some x \<Rightarrow> (if x = ex_kanban\<lparr>sk_NextDeviceName := sk_NextDeviceName x\<rparr> then Inr (sk_NextDeviceName x) else Inl (Error ''unknown''))),
     jc_unmarshal = (\<lambda>s. Inr (ex_kanban\<lparr>sk_NextDeviceName := s\<rparr>))\<rparr>"

lemma ex_run_codec_documented: "codec_documented ex_run_codec"
  by (auto simp: codec_documented_def ex_run_codec_def split: if_splits)

definition ex_start :: "(ref_redis, string) device" where
  "ex_start = new_device ''/var/lib/aion'' False (pd_k8sEnv ex_pod) (\<lambda>_. [])"

definition ex_deployed :: "(ref_redis, string) device" where
  "ex_deployed = (let b = snd (handle ex_world (Deploy (Some ex_local)) (dn_broker ex_start)) in
     ex_start\<lparr>dn_watcher := (dn_watcher ex_start)\<lparr>wt_aionSetting := Some ex_local\<rparr>, dn_broker := b,
       dn_watches := map new_watch (br_watchers b), dn_history := (dn_history ex_start)\<lparr>hi_deployed := [ex_local]\<rparr>\<rparr>)"

definition ex_output :: "(ref_redis, string) device" where
  "ex_output = (with_redis (snd (OutputKanban (direct_service ref_api ex_run_codec) ex_client (Some ex_kanban) (dn_redis ex_deployed)))
     ex_deployed)\<lparr>dn_history := (dn_history ex_deployed)\<lparr>hi_outputs := [(''a'', ex_kanban)]\<rparr>\<rparr>"

definition ex_read :: "(ref_redis, string) device" where
  "ex_read = ex_output\<lparr>dn_watches := [(new_watch (''a'', 1))\<lparr>iw_prevID := ''10'', iw_held := Some \<lparr>ak_ID = ''10'', ak_Kanban = Some ex_kanban\<rparr>\<rparr>]\<rparr>"

definition ex_handed_on :: "(ref_redis, string) device" where
  "ex_handed_on = ex_read\<lparr>dn_watcher := snd (WatchMicroservice ref_api ex_run_codec ex_struct_codec ''a''
       \<lparr>ak_ID = ''10'', ak_Kanban = Some ex_kanban\<rparr> (dn_watcher ex_read)),
     dn_watches := [(new_watch (''a'', 1))\<lparr>iw_prevID := ''10''\<rparr>]\<rparr>"

definition ex_sent_on :: "(ref_redis, string) device" where
  "ex_sent_on = (let se = newSession ''c'' 1 ''''; ak = \<lparr>ak_ID = ''10'', ak_Kanban = Some (own_name ex_local ex_kanban)\<rparr> in
     (with_redis (snd (watch_iter ref_api ex_run_codec (before_key (NewContainer ''c'' 1)) True initPrevID (dn_redis ex_handed_on)))
       ex_handed_on)\<lparr>dn_sessions := [(new_session_watch se)\<lparr>sw_prevID := ''10''\<rparr>],
         dn_received := [(NewContainer ''c'' 1, Some (own_name ex_local ex_kanban))]\<rparr>)"

lemma ref_read_keeps: "snd (watch_iter ref_api jc key False p r) = r"
  by (simp add: watch_iter_def XReadOne_def ref_api_def split: list.splits sum.splits)

lemma ex_run_read: "device_runs ref_api ex_run_codec ex_struct_codec ex_world ex_start ex_read"
proof -
  let ?step = "device_step ref_api ex_run_codec ex_struct_codec ex_world"
  let ?b = "snd (handle ex_world (Deploy (Some ex_local)) (dn_broker ex_start))"
  have d: "handle ex_world (Deploy (Some ex_local)) (dn_broker ex_start) = (None, ?b)"
    by (rule prod_eqI) (code_simp, simp)
  from device_step.Deployed [OF d, of ref_api ex_run_codec ex_struct_codec]
  have 1: "?step ex_start (ex_deployed\<lparr>dn_watcher := dn_watcher ex_start, dn_aionChForWatcher := [ex_local]\<rparr>)"
    by (simp add: ex_deployed_def Let_def) (simp add: ex_start_def new_device_def NewWatcher_def)
  have 2: "?step (ex_deployed\<lparr>dn_watcher := dn_watcher ex_start, dn_aionChForWatcher := [ex_local]\<rparr>) ex_deployed"
    using device_step.TakeSetting [of "ex_deployed\<lparr>dn_watcher := dn_watcher ex_start, dn_aionChForWatcher := [ex_local]\<rparr>"
      ex_local "[]" ref_api ex_run_codec ex_struct_codec ex_world]
    by (simp add: ex_deployed_def Let_def) (simp add: ex_start_def new_device_def NewWatcher_def)
  have "mc_serviceName ex_client = ''a''" by (simp add: ex_client_def)
  with device_step.Output [where s = ex_deployed and c = ex_client and k = ex_kanban, OF prod.collapse [symmetric]]
  have 3: "?step ex_deployed ex_output"
    by (simp add: ex_output_def) (simp add: ex_deployed_def Let_def ex_start_def new_device_def)
  have w3: "dn_watches ex_output = [] @ new_watch (''a'', 1) # []"
    by code_simp
  have "fst (watch_iter ref_api ex_run_codec (after_key_of (new_watch (''a'', 1))) False initPrevID (dn_redis ex_output)) =
      Deliver \<lparr>ak_ID = ''10'', ak_Kanban = Some ex_kanban\<rparr>" by code_simp
  then have rd: "watch_iter ref_api ex_run_codec (after_key_of (new_watch (''a'', 1))) False (iw_prevID (new_watch (''a'', 1))) (dn_redis ex_output) =
      (Deliver \<lparr>ak_ID = ''10'', ak_Kanban = Some ex_kanban\<rparr>, dn_redis ex_output)"
    by (intro prod_eqI) (simp_all add: new_watch_def ref_read_keeps)
  have 4: "?step ex_output ex_read"
    using device_step.Read [OF w3 _ _ rd] by (simp add: ex_read_def new_watch_def with_redis_def)
  note more = converse_rtranclp_into_rtranclp [of ?step]
  show ?thesis
    by (rule more, rule 1, rule more, rule 2, rule more, rule 3, rule more, rule 4, rule rtranclp.rtrancl_refl)
qed

lemma ex_run: "device_runs ref_api ex_run_codec ex_struct_codec ex_world ex_start ex_sent_on"
proof -
  let ?step = "device_step ref_api ex_run_codec ex_struct_codec ex_world"
  let ?t = "(new_watch (''a'', 1))\<lparr>iw_prevID := ''10'', iw_held := Some \<lparr>ak_ID = ''10'', ak_Kanban = Some ex_kanban\<rparr>\<rparr>"
  have w4: "dn_watches ex_read = [] @ ?t # []" by (simp add: ex_read_def)
  have "fst (WatchMicroservice ref_api ex_run_codec ex_struct_codec ''a'' \<lparr>ak_ID = ''10'', ak_Kanban = Some ex_kanban\<rparr> (dn_watcher ex_read)) = Continue"
    by code_simp
  then have wm: "WatchMicroservice ref_api ex_run_codec ex_struct_codec (iw_name ?t) \<lparr>ak_ID = ''10'', ak_Kanban = Some ex_kanban\<rparr> (dn_watcher ex_read) =
     (Continue, dn_watcher ex_handed_on)"
    by (intro prod_eqI) (simp_all add: new_watch_def ex_handed_on_def)
  have 5: "?step\<^sup>*\<^sup>* ex_read ex_handed_on"
    using routed_run [OF w4 _ _ _ wm] by (simp add: ex_handed_on_def new_watch_def)
  let ?se = "newSession ''c'' 1 ''''" and ?ak = "\<lparr>ak_ID = ''10'', ak_Kanban = Some (own_name ex_local ex_kanban)\<rparr>"
  let ?s = "ex_handed_on\<lparr>dn_sessions := [new_session_watch ?se]\<rparr>"
  have "NewMicroserviceSession ref_api ex_run_codec '''' '''' (init_of (NewContainer ''c'' 1)) (dn_redis ex_handed_on) = (?se, dn_redis ex_handed_on)"
    by (simp add: NewMicroserviceSession_def init_of_def NewContainer_def to_int_to_int32 fits_int32_def)
  from device_step.Connect [OF this] have 6: "?step ex_handed_on ?s"
    by (simp add: init_of_def with_redis_def) (simp add: ex_handed_on_def ex_read_def ex_output_def ex_deployed_def Let_def ex_start_def new_device_def)
  let ?r = "snd (watch_iter ref_api ex_run_codec (before_key (NewContainer ''c'' 1)) True initPrevID (dn_redis ex_handed_on))"
  have "fst (watch_iter ref_api ex_run_codec (before_key (NewContainer ''c'' 1)) True initPrevID (dn_redis ex_handed_on)) = Deliver ?ak"
    by code_simp
  then have sr: "watch_iter ref_api ex_run_codec (before_key (session_container (sw_session (new_session_watch ?se)))) True
      (sw_prevID (new_session_watch ?se)) (dn_redis ?s) = (Deliver ?ak, ?r)"
    by (intro prod_eqI) (simp_all add: new_session_watch_def session_container_def newSession_def)
  have s6: "dn_sessions ?s = [] @ new_session_watch ?se # []" by simp
  have none: "dn_received ex_handed_on = []"
    by (simp add: ex_handed_on_def ex_read_def ex_output_def ex_deployed_def Let_def ex_start_def new_device_def)
  let ?s' = "(with_redis ?r ?s)\<lparr>dn_sessions := [(new_session_watch ?se)\<lparr>sw_prevID := ''10'', sw_held := Some ?ak\<rparr>]\<rparr>"
  have 7: "?step ?s ?s'"
    using device_step.SessionRead [OF s6 _ sr] by (simp add: new_session_watch_def)
  have 8: "?step ?s' ex_sent_on"
    using device_step.SessionSend [where s = ?s' and ts = "[]" and us = "[]" and ak = ?ak
        and t = "(new_session_watch ?se)\<lparr>sw_prevID := ''10'', sw_held := Some ?ak\<rparr>"] none
    by (simp add: ex_sent_on_def Let_def with_redis_def new_session_watch_def session_container_def newSession_def)
  note more = rtranclp.rtrancl_into_rtrancl [of ?step]
  show ?thesis
    by (rule more, rule more, rule more, rule rtranclp_trans, rule ex_run_read, rule 5, rule 6, rule 7, rule 8)
qed

lemma ex_start_empty: "ref_ent (\<lambda>_. []) j = []"
  by (simp add: ref_ent_def)

text \<open>
  C3. Nothing reaches a microservice without a reason. In whatever order the parts of a device
  take their turns, also when a project is deployed in the middle of a routing pass, and
  whichever commands the Redis server fails, every kanban that a microservice is sent is one
  that a microservice of the device output and a deployed project names it for, with the own
  device's name in it, or one that another device sent for it, or the one made for its own
  start; every start that is asked for is that of such a next service or of one that another
  device has named. Every message that is handed to the stream for another device is for a next
  service that a deployed project names for a kanban that was output, it is addressed to a
  device of a deployed project that the kanban was for when it was queued, and it carries that
  kanban, unchanged but for the device name: that can be the own device's, which a later
  local delivery of the same pass has written into it.
\<close>

theorem delivery_justified:
  assumes "redis_entries api ent" "codec_documented jc" "\<And>j. ent r j = []"
    and "device_runs api jc sc kw (new_device home worker ke r) s"
  shows "(\<forall>(c, ko) \<in> set (dn_received s). \<exists>k. ko = Some k \<and>
      (routed_to (dn_history s) c k \<or> arrived_for (dn_history s) c k \<or> (c, k) \<in> set (hi_initial (dn_history s)))) \<and>
    (\<forall>m \<in> set (wt_sent (dn_watcher s)). forwarded (dn_history s) m) \<and>
    (\<forall>c \<in> set (wt_startCh (dn_watcher s)). start_asked (dn_history s) c)"
  using redis_entries.reachable_sound [OF assms(1,4,2,3)]
  by (auto simp: sound_def watcher_ok_def receipt_ok_def justified_def)

theorem delivery_justified_witness:
  "\<exists>k. k = own_name ex_local ex_kanban \<and> (NewContainer ''c'' 1, Some k) \<in> set (dn_received ex_sent_on) \<and>
    (routed_to (dn_history ex_sent_on) (NewContainer ''c'' 1) k \<or> arrived_for (dn_history ex_sent_on) (NewContainer ''c'' 1) k \<or>
      (NewContainer ''c'' 1, k) \<in> set (hi_initial (dn_history ex_sent_on)))"
proof -
  have "(NewContainer ''c'' 1, Some (own_name ex_local ex_kanban)) \<in> set (dn_received ex_sent_on)"
    by (simp add: ex_sent_on_def Let_def)
  with delivery_justified [OF ref_redis_entries ex_run_codec_documented ex_start_empty ex_run [unfolded ex_start_def]]
  show ?thesis by fastforce
qed

text \<open>
  C8. The routing goroutines do not panic, at any time in the life of a device: when the watcher
  has taken over a project and every project that was deployed is filled in, as a loaded one
  is, then whatever kanban waits for a watched instance is handled without a panic, in one go
  or step by step, and whatever pass is under way goes on without one, also when the project
  has been replaced since the pass began. The projects that reach the watcher are the deployed
  ones, and the kanbans are never nil.
\<close>

theorem device_no_panic:
  assumes "redis_entries api ent" "codec_documented jc" "\<And>j. ent r j = []"
    and "device_runs api jc sc kw (new_device home worker ke r) s"
    and "\<forall>as \<in> set (hi_deployed (dn_history s)). wf_setting as" "wt_aionSetting (dn_watcher s) \<noteq> None"
    and "t \<in> set (dn_watches s)"
  shows "(\<forall>ak. iw_held t = Some ak \<longrightarrow>
      fst (WatchMicroservice api jc sc (iw_name t) ak (dn_watcher s)) \<in> {Continue, ReturnWatch} \<and>
      \<not> unwinds (fst (take_kanban sc ak (dn_watcher s)))) \<and>
    (\<forall>p. iw_pass t = Some p \<longrightarrow> \<not> unwinds (fst (pass_step api jc (iw_name t) p (dn_watcher s))))"
proof -
  note snd = redis_entries.reachable_sound [OF assms(1,4,2,3)]
  from assms(6) obtain as where as: "wt_aionSetting (dn_watcher s) = Some as" by auto
  with snd assms(5) have wf: "wf_setting as" by (auto simp: sound_def watcher_ok_def)
  from snd assms(7) have ok: "watch_ok (dn_history s) (wt_kanbans (dn_watcher s)) t" by (simp add: sound_def)
  have "fst (WatchMicroservice api jc sc (iw_name t) ak (dn_watcher s)) \<in> {Continue, ReturnWatch} \<and>
      \<not> unwinds (fst (take_kanban sc ak (dn_watcher s)))" if "iw_held t = Some ak" for ak
  proof -
    from ok that obtain k where k: "ak_Kanban ak = Some k" by (auto simp: watch_ok_def)
    then have "ak = \<lparr>ak_ID = ak_ID ak, ak_Kanban = Some k\<rparr>" by simp
    with WatchMicroservice_ok [OF wf as] take_kanban_ok [OF wf as k] show ?thesis by metis
  qed
  moreover have "\<not> unwinds (fst (pass_step api jc (iw_name t) p (dn_watcher s)))" if "iw_pass t = Some p" for p
  proof (rule pass_step_ok [OF wf as])
    from ok that have "pass_ok (dn_history s) (wt_kanbans (dn_watcher s)) (iw_name t) p" by (simp add: watch_ok_def)
    then show "None \<notin> set (pass_list p)" using assms(5) chosen_filled unfolding pass_ok_def by blast
  qed
  ultimately show ?thesis by blast
qed

theorem device_no_panic_witness:
  "fst (WatchMicroservice ref_api ex_run_codec ex_struct_codec ''a'' \<lparr>ak_ID = ''10'', ak_Kanban = Some ex_kanban\<rparr>
     (dn_watcher ex_read)) \<in> {Continue, ReturnWatch}"
proof -
  let ?t = "(new_watch (''a'', 1))\<lparr>iw_prevID := ''10'', iw_held := Some \<lparr>ak_ID = ''10'', ak_Kanban = Some ex_kanban\<rparr>\<rparr>"
  have s: "hi_deployed (dn_history ex_read) = [ex_local]" "wt_aionSetting (dn_watcher ex_read) = Some ex_local"
    "dn_watches ex_read = [?t]"
    by (simp_all add: ex_read_def ex_output_def ex_deployed_def Let_def)
  from device_no_panic [OF ref_redis_entries ex_run_codec_documented ex_start_empty ex_run_read [unfolded ex_start_def], of ?t]
  show ?thesis using ex_local_facts(1) by (simp add: s new_watch_def)
qed

text \<open>A watch that has not been cancelled is one the controller knows of.\<close>

definition live_watches :: "instance_watch list \<Rightarrow> (string \<times> int) list" where
  "live_watches ts = map (\<lambda>t. (iw_name t, iw_number t)) (filter iw_live ts)"

lemma live_watches_simps [simp]:
  "live_watches [] = []" "live_watches (ts @ us) = live_watches ts @ live_watches us"
  "live_watches (t # ts) = (if iw_live t then [(iw_name t, iw_number t)] else []) @ live_watches ts"
  "live_watches (map new_watch ps) = ps" "live_watches (map (\<lambda>t. t\<lparr>iw_live := False\<rparr>) ts) = []"
  by (simp_all add: live_watches_def comp_def new_watch_def)

lemma live_after [simp]:
  "live_watches [after_read out t] = live_watches [t]"
  "live_watches (after_progress g t) = (if after_progress g t = [] then [] else live_watches [t])"
  by (cases out; simp) (cases "(g, t)" rule: after_progress.cases; simp)

lemma count_remove: "count_list (remove1 x xs) y = count_list xs y - (if x = y then 1 else 0)"
  by (induction xs) (auto simp: count_list_0_iff)

lemma started_watches:
  assumes "startMicroserviceByNum kw name n b = (e, b')"
  shows "br_watchers b' = br_watchers b @ (if e = None then [(name, n)] else [])"
proof -
  obtain e1 b1 where o: "on_container (StartMicroservice kw n) name b = (e1, b1)" by fastforce
  then have "br_watchers b1 = br_watchers b" using serve_other(1) [of "StartMicroservice kw n" name b] by simp
  with assms o show ?thesis by (cases e1) (auto simp: startMicroserviceByNum_def Let_def)
qed

definition watches_known :: "('r, 'q) device \<Rightarrow> bool" where
  "watches_known s \<longleftrightarrow> broker_inv (dn_broker s) \<and>
     (\<forall>p. count_list (live_watches (dn_watches s)) p = count_list (br_watchers (dn_broker s)) p)"

lemma forget_known:
  assumes "broker_inv b" "\<And>p. count_list (live_watches (ts @ t # us)) p = count_list (br_watchers b) p"
    and "live_watches vs = (if vs = [] then [] else live_watches [t])"
  shows "broker_inv (forget kw t vs b) \<and>
    (\<forall>p. count_list (live_watches (ts @ vs @ us)) p = count_list (br_watchers (forget kw t vs b)) p)"
proof (cases "iw_live t \<and> vs = []")
  case True
  then have "count_list (br_watchers b) p = count_list (live_watches ts) p + (if (iw_name t, iw_number t) = p then 1 else 0) +
      count_list (live_watches us) p" for p
    using assms(2) [of p, symmetric] by simp
  with True brk.step_inv [OF assms(1), of kw "WatcherReturns (iw_name t) (iw_number t)"] show ?thesis
    by (simp add: forget_def count_remove)
next
  case False
  with assms show ?thesis by (auto simp: forget_def)
qed

lemma step_known:
  assumes "device_step api jc sc kw s s'" "watches_known s"
  shows "watches_known s'"
  using assms(1)
proof cases
  case (Deployed as e b')
  then show ?thesis
    using brk.step_inv [of "dn_broker s" kw "Message (Deploy (Some as))"] assms(2) by (simp add: watches_known_def)
next
  case (StartAsked c rest e b')
  then show ?thesis
    using brk.step_inv [of "dn_broker s" kw "Message (StartContainer (cn_Name c) (cn_Number c))"] assms(2)
      started_watches [of kw "cn_Name c" "cn_Number c" "dn_broker s" e b']
    by (auto simp: watches_known_def new_watch_def)
next
  case (Read ts t us out r')
  have "live_watches (ts @ after_read out t # us) = live_watches (ts @ t # us)"
    using live_after(1) [of out t] by (simp del: live_after)
  with assms(2) show ?thesis by (simp add: Read(1,2) watches_known_def)
next
  case (TakeKanban ts t us ak g w')
  have "broker_inv (dn_broker s)" "\<And>p. count_list (live_watches (ts @ t # us)) p = count_list (br_watchers (dn_broker s)) p"
    using assms(2) unfolding watches_known_def TakeKanban(2) by blast+
  moreover have "live_watches (after_progress g (t\<lparr>iw_held := None\<rparr>)) =
      (if after_progress g (t\<lparr>iw_held := None\<rparr>) = [] then [] else live_watches [t])" by simp
  ultimately show ?thesis
    using forget_known [of "dn_broker s" ts t us "after_progress g (t\<lparr>iw_held := None\<rparr>)" kw]
    by (simp add: TakeKanban(1) watches_known_def del: live_watches_simps live_after)
next
  case (Pass ts t us p g w')
  have "broker_inv (dn_broker s)" "\<And>p. count_list (live_watches (ts @ t # us)) p = count_list (br_watchers (dn_broker s)) p"
    using assms(2) unfolding watches_known_def Pass(2) by blast+
  from forget_known [OF this live_after(2), of kw g] show ?thesis
    by (simp add: Pass(1) watches_known_def del: live_watches_simps live_after)
next
  case (Closed ts t us)
  have "broker_inv (dn_broker s)" "\<And>p. count_list (live_watches (ts @ t # us)) p = count_list (br_watchers (dn_broker s)) p"
    using assms(2) unfolding watches_known_def Closed(2) by blast+
  from forget_known [OF this, of "[]" kw] show ?thesis
    by (simp add: Closed(1) watches_known_def)
qed (use assms(2) in \<open>auto simp: watches_known_def\<close>)

lemma new_device_known: "watches_known (new_device home worker ke r)"
  using new_broker_inv [of home worker ke] by (simp add: watches_known_def new_device_def) (simp add: new_broker_def)

lemma runs_known: "device_runs api jc sc kw s s' \<Longrightarrow> watches_known s \<Longrightarrow> watches_known s'"
  by (induction rule: rtranclp_induct) (auto intro: step_known)

text \<open>
  C9. On a whole device, whatever happens to its streams, its cluster and its projects, an
  instance of a microservice that does not allow multiple starts has at most one watch that has
  not been cancelled, and no instance has more of them than it counts as started and not stopped
  since. A cancelled watch is not bounded by this: until it notices, it finishes its pass and may
  take another kanban, also beside a new watch of the same instance.
\<close>

theorem uncancelled_watch_once:
  assumes "device_runs api jc sc kw (new_device home worker ke r) s"
  shows "(allows_multiple (dn_broker s) name \<or> count_list (live_watches (dn_watches s)) (name, i) \<le> 1) \<and>
    int (count_list (live_watches (dn_watches s)) (name, i)) \<le> cnt (dn_broker s) name i"
proof -
  from runs_known [OF assms new_device_known] have "watches_known s" .
  then have "int (count_list (live_watches (dn_watches s)) (name, i)) \<le> cnt (dn_broker s) name i"
    "allows_multiple (dn_broker s) name \<or> cnt (dn_broker s) name i \<le> 1"
    by (simp_all add: watches_known_def broker_inv_def watchers_ok_def cnt_multiple)
  then show ?thesis by auto
qed

theorem uncancelled_watch_once_witness:
  "allows_multiple (dn_broker ex_sent_on) ''a'' \<or> count_list (live_watches (dn_watches ex_sent_on)) (''a'', 1) \<le> 1"
  using uncancelled_watch_once [OF ex_run [unfolded ex_start_def]] by blast

text \<open>
  The case that the property leaves out: after the project has been deployed again, the watch
  that was cancelled takes the kanban that waits for it, beside the new watch.
\<close>

lemma cancelled_watch_overlaps:
  "\<exists>s t u. device_runs ref_api ex_run_codec ex_struct_codec ex_world ex_start s \<and> dn_watches s = [t, u] \<and>
    (iw_name t, iw_number t) = (iw_name u, iw_number u) \<and> \<not> iw_live t \<and> iw_pass t = Some (Choosing 0) \<and> iw_live u"
proof -
  let ?step = "device_step ref_api ex_run_codec ex_struct_codec ex_world"
  let ?ak = "\<lparr>ak_ID = ''10'', ak_Kanban = Some ex_kanban\<rparr>"
  let ?t = "(new_watch (''a'', 1))\<lparr>iw_prevID := ''10'', iw_held := Some ?ak\<rparr>"
  define b where "b = snd (handle ex_world (Deploy (Some ex_local)) (dn_broker ex_read))"
  let ?s = "ex_read\<lparr>dn_broker := b, dn_aionChForWatcher := dn_aionChForWatcher ex_read @ [ex_local],
      dn_watches := map (\<lambda>t. t\<lparr>iw_live := False\<rparr>) (dn_watches ex_read) @ map new_watch (br_watchers b),
      dn_history := (dn_history ex_read)\<lparr>hi_deployed := hi_deployed (dn_history ex_read) @ [ex_local]\<rparr>\<rparr>"
  have d: "handle ex_world (Deploy (Some ex_local)) (dn_broker ex_read) = (None, b)"
    unfolding b_def by (rule prod_eqI) (code_simp, simp)
  have b: "br_watchers b = [(''a'', 1)]" unfolding b_def by code_simp
  have 1: "?step ex_read ?s" using device_step.Deployed [OF d, of ref_api ex_run_codec ex_struct_codec] by simp
  have w: "dn_watches ?s = [] @ ?t\<lparr>iw_live := False\<rparr> # [new_watch (''a'', 1)]"
    by (simp add: b) (simp add: ex_read_def)
  have h: "iw_held (?t\<lparr>iw_live := False\<rparr>) = Some ?ak" "iw_pass (?t\<lparr>iw_live := False\<rparr>) = None"
    by (simp_all add: new_watch_def)
  have "wt_kanbans (dn_watcher ex_read) = []" by code_simp
  then have t: "take_kanban ex_struct_codec ?ak (dn_watcher ?s) = (Goes (Choosing 0), new_kanban ex_kanban (dn_watcher ?s))"
    by (simp add: take_kanban_def ex_kanban_def serviceBrokerName_def)
  note 2 = device_step.TakeKanban [OF w h t, of ref_api ex_run_codec ex_world, simplified]
  note more = rtranclp.rtrancl_into_rtrancl [of ?step]
  show ?thesis
    by (rule exI, rule exI [of _ "?t\<lparr>iw_live := False, iw_held := None, iw_pass := Some (Choosing 0)\<rparr>"],
        rule exI [of _ "new_watch (''a'', 1)"], rule conjI, rule more, rule more, rule ex_run_read, rule 1, rule 2)
      (simp add: new_watch_def)
qed

end
