(* ===== verification/Files.thy ===== *)
theory Files
  imports Paths Proto
begin

text \<open>
  The file system the program runs on. It is outside the repository, so it is a parameter: a
  record of the operations of Go's package os that the code calls, over a state 'f of the
  disk. A read of an open file is modelled by the bytes left and may be short, as
  \<open>os.File.Read\<close> documents. The locale \<open>disk\<close> is what the documentation of the operations says
  of a disk on which nothing fails; \<open>ref_os\<close>, a concrete disk, is one.
\<close>

section \<open>The operations\<close>

datatype file_mode = ModeDir | ModeRegular | ModeOther

text \<open>The result of a stat: the mode, an error that \<open>os.IsNotExist\<close> knows, or another error.\<close>

datatype stat_result = Stat file_mode | NotExist | StatFails

record 'f os_api =
  os_getwd :: "string result"
  os_stat :: "'f \<Rightarrow> string \<Rightarrow> stat_result"
  os_size :: "'f \<Rightarrow> string \<Rightarrow> 64 word"
  os_open :: "'f \<Rightarrow> string \<Rightarrow> bytes result"
  os_walk :: "'f \<Rightarrow> string \<Rightarrow> (string \<times> stat_result) list"
  os_read :: "bytes \<Rightarrow> nat option"
  os_mkdir :: "'f \<Rightarrow> string \<Rightarrow> 'f"
  os_mkdirall :: "'f \<Rightarrow> string \<Rightarrow> 'f"
  os_create :: "'f \<Rightarrow> string \<Rightarrow> 'f result"
  os_write :: "'f \<Rightarrow> string \<Rightarrow> bytes \<Rightarrow> go_error option \<times> 'f"
  os_remove :: "'f \<Rightarrow> string \<Rightarrow> 'f"

text \<open>
  One read with a buffer that is not empty: the end of the file, an error, or between one
  byte and a full buffer of the bytes left.
\<close>

datatype read_result = ReadEOF | ReadError | ReadBytes bytes

definition read_file :: "'f os_api \<Rightarrow> nat \<Rightarrow> bytes \<Rightarrow> read_result \<times> bytes" where
  "read_file os buf rest =
     (if rest = [] then (ReadEOF, [])
      else (case os_read os rest of
          None \<Rightarrow> (ReadError, rest)
        | Some n \<Rightarrow> (let k = max 1 (min n buf) in (ReadBytes (take k rest), drop k rest))))"

lemma read_file_Bytes:
  "read_file os buf rest = (ReadBytes b, r) \<Longrightarrow> rest = b @ r \<and> b \<noteq> []"
  by (cases rest) (auto simp: read_file_def Let_def split: option.splits)

lemma read_file_Bytes_length: "read_file os buf rest = (ReadBytes b, r) \<Longrightarrow> length r < length rest"
  by (drule read_file_Bytes) auto

lemma read_file_buf: "read_file os buf rest = (ReadBytes b, r) \<Longrightarrow> 0 < buf \<Longrightarrow> length b \<le> buf"
  by (auto simp: read_file_def Let_def min_def max_def split: option.splits if_splits)

lemma read_file_EOF: "fst (read_file os buf rest) = ReadEOF \<longleftrightarrow> rest = []"
  by (auto simp: read_file_def Let_def split: option.splits)

text \<open>\<open>io.Copy\<close> from an open file: all the bytes left, or an error.\<close>

function read_all :: "'f os_api \<Rightarrow> bytes \<Rightarrow> bytes option" where
  "read_all os rest =
     (case read_file os 32768 rest of
        (ReadEOF, r) \<Rightarrow> Some []
      | (ReadError, r) \<Rightarrow> None
      | (ReadBytes b, r) \<Rightarrow> (case read_all os r of None \<Rightarrow> None | Some bs \<Rightarrow> Some (b @ bs)))"
  by pat_completeness auto
termination
  by (relation "measure (\<lambda>(os, rest). length rest)") (auto dest!: sym [of _ "read_file _ _ _"] read_file_Bytes_length)

declare read_all.simps [simp del]

lemma read_all_Some: "read_all os rest = Some bs \<Longrightarrow> bs = rest"
proof (induction os rest arbitrary: bs rule: read_all.induct)
  case (1 os rest)
  obtain x r where rf: "read_file os 32768 rest = (x, r)" by fastforce
  show ?case
  proof (cases x)
    case ReadEOF
    with rf 1(2) read_file_EOF [of os 32768 rest] show ?thesis
      by (subst (asm) read_all.simps) simp
  next
    case ReadError
    with rf 1(2) show ?thesis by (subst (asm) read_all.simps) simp
  next
    case (ReadBytes b)
    with 1(2) rf obtain cs where "read_all os r = Some cs" "bs = b @ cs"
      by (subst (asm) (2) read_all.simps) (auto split: option.splits)
    with 1(1) [OF rf [symmetric] ReadBytes] ReadBytes rf read_file_Bytes [of os 32768 rest b r]
    show ?thesis by auto
  qed
qed

lemma read_all_total: "(\<And>bs. os_read os bs \<noteq> None) \<Longrightarrow> read_all os rest = Some rest"
proof (induction os rest rule: read_all.induct)
  case (1 os rest)
  obtain x r where rf: "read_file os 32768 rest = (x, r)" by fastforce
  show ?case
  proof (cases x)
    case ReadEOF
    with rf read_file_EOF [of os 32768 rest] show ?thesis
      by (subst read_all.simps) simp
  next
    case ReadError
    with rf 1(2) [of rest] show ?thesis
      by (auto simp: read_file_def Let_def split: if_splits option.splits)
  next
    case (ReadBytes b)
    with 1(1) [OF rf [symmetric]] 1(2) have "read_all os r = Some r" by blast
    with rf ReadBytes read_file_Bytes [of os 32768 rest b r] show ?thesis
      by (subst read_all.simps) simp
  qed
qed

section \<open>A disk on which nothing fails\<close>

locale disk =
  fixes os :: "'f os_api"
  assumes read_ok: "os_read os bs \<noteq> None"
    and mkdirall: "os_stat os f p = NotExist \<Longrightarrow> os_stat os (os_mkdirall os f p) p = Stat ModeDir"
    and mkdirall_file: "os_stat os f q = Stat ModeRegular \<Longrightarrow>
      os_stat os (os_mkdirall os f p) q = Stat ModeRegular \<and> os_open os (os_mkdirall os f p) q = os_open os f q"
    and mkdirall_dir: "os_stat os f q = Stat ModeDir \<Longrightarrow> os_stat os (os_mkdirall os f p) q = Stat ModeDir"
    and mkdirall_other: "os_stat os f q = NotExist \<Longrightarrow> \<not> above q p \<Longrightarrow>
      os_stat os (os_mkdirall os f p) q = NotExist"
    and mkdirall_new: "os_stat os f q = NotExist \<Longrightarrow>
      os_stat os (os_mkdirall os f p) q = NotExist \<or> os_stat os (os_mkdirall os f p) q = Stat ModeDir"
    and create: "os_stat os f (PathDir p) = Stat ModeDir \<Longrightarrow>
      os_stat os f p = NotExist \<or> os_stat os f p = Stat ModeRegular \<Longrightarrow> \<exists>f'. os_create os f p = Inr f'"
    and create_orphan: "os_stat os f (PathDir p) = NotExist \<Longrightarrow> \<exists>e. os_create os f p = Inl (Error e)"
    and write_self: "os_create os f p = Inr f' \<Longrightarrow>
      fst (os_write os f' p d) = None \<and>
      os_open os (snd (os_write os f' p d)) p = Inr d \<and>
      os_stat os (snd (os_write os f' p d)) p = Stat ModeRegular"
    and write_other: "os_create os f p = Inr f' \<Longrightarrow> q \<noteq> p \<Longrightarrow>
      os_open os (snd (os_write os f' p d)) q = os_open os f q \<and>
      os_stat os (snd (os_write os f' p d)) q = os_stat os f q"
begin

lemma read_all: "read_all os bs = Some bs"
  by (rule read_all_total) (rule read_ok)

end

section \<open>A concrete disk\<close>

text \<open>Paths with what is there: a file with its bytes, or a directory.\<close>

type_synonym ref_disk = "(string, bytes option) gomap"

fun ref_stat :: "ref_disk \<Rightarrow> string \<Rightarrow> stat_result" where
  "ref_stat f p = (case map_of f p of None \<Rightarrow> NotExist | Some None \<Rightarrow> Stat ModeDir | Some (Some d) \<Rightarrow> Stat ModeRegular)"

definition ref_put_dir :: "string \<Rightarrow> ref_disk \<Rightarrow> ref_disk" where
  "ref_put_dir p f = (if map_of f p = None then put p None f else f)"

definition ref_parents :: "string \<Rightarrow> string list" where
  "ref_parents p = p # map (\<lambda>i. take i p) (filter (\<lambda>i. 0 < i \<and> p ! i = slash) [0..<length p])"

definition ref_os :: "ref_disk os_api" where
  "ref_os =
     \<lparr>os_getwd = Inr ''/'',
      os_stat = ref_stat,
      os_size = (\<lambda>f p. case map_of f p of Some (Some d) \<Rightarrow> of_nat (length d) | _ \<Rightarrow> 0),
      os_open = (\<lambda>f p. case map_of f p of Some (Some d) \<Rightarrow> Inr d | _ \<Rightarrow> Inl (Error ''open'')),
      os_walk = (\<lambda>f p. map (\<lambda>(q, x). (q, ref_stat f q)) (filter (\<lambda>(q, x). q = p \<or> has_prefix q (p @ [slash])) f)),
      os_read = (\<lambda>bs. Some 3),
      os_mkdir = (\<lambda>f p. ref_put_dir p f),
      os_mkdirall = (\<lambda>f p. fold ref_put_dir (ref_parents p) f),
      os_create = (\<lambda>f p. case map_of f (PathDir p) of
          Some None \<Rightarrow> (case map_of f p of Some None \<Rightarrow> Inl (Error ''is a directory'') | _ \<Rightarrow> Inr (put p (Some []) f))
        | _ \<Rightarrow> Inl (Error ''no such file or directory'')),
      os_write = (\<lambda>f p d. (None, put p (Some d) f)),
      os_remove = (\<lambda>f p. del p f)\<rparr>"

lemma map_of_ref_put_dir:
  "map_of (ref_put_dir p f) q = (if q = p \<and> map_of f p = None then Some None else map_of f q)"
  by (simp add: ref_put_dir_def)

lemma map_of_ref_put_dirs:
  "map_of (fold ref_put_dir ps f) q = (if q \<in> set ps \<and> map_of f q = None then Some None else map_of f q)"
  by (induction ps arbitrary: f) (auto simp: map_of_ref_put_dir)

lemma ref_parents_above:
  assumes "q \<in> set (ref_parents p)"
  shows "above q p"
proof (cases "q = p")
  case False
  with assms obtain i where "q = take i p" "p ! i = slash" "i < length p"
    by (auto simp: ref_parents_def)
  then have "p = (q @ [slash]) @ drop (Suc i) p" using id_take_nth_drop [of i p] by simp
  then show ?thesis unfolding above_def has_prefix_iff by blast
qed (simp add: above_def)

lemma ref_stat_simps:
  "ref_stat f p = NotExist \<longleftrightarrow> map_of f p = None"
  "ref_stat f p = Stat ModeDir \<longleftrightarrow> map_of f p = Some None"
  "ref_stat f p = Stat ModeRegular \<longleftrightarrow> (\<exists>d. map_of f p = Some (Some d))"
  by (auto split: option.splits)

lemma ref_mkdirall: "map_of (os_mkdirall ref_os f p) q
    = (if q \<in> set (ref_parents p) \<and> map_of f q = None then Some None else map_of f q)"
  by (simp add: ref_os_def map_of_ref_put_dirs)

lemma ref_os_simps:
  "os_stat ref_os = ref_stat"
  "os_read ref_os bs = Some 3"
  "os_write ref_os f p d = (None, put p (Some d) f)"
  "os_open ref_os f p = (case map_of f p of Some (Some d) \<Rightarrow> Inr d | _ \<Rightarrow> Inl (Error ''open''))"
  by (simp_all add: ref_os_def)

lemma ref_create:
  "os_create ref_os f p =
     (if map_of f (PathDir p) = Some None
      then if map_of f p = Some None then Inl (Error ''is a directory'') else Inr (put p (Some []) f)
      else Inl (Error ''no such file or directory''))"
  by (auto simp: ref_os_def split: option.splits)

lemma ref_create_Inr: "os_create ref_os f p = Inr f' \<Longrightarrow> f' = put p (Some []) f"
  by (simp add: ref_create split: if_splits)

interpretation ref: disk ref_os
proof
  fix f p q assume "os_stat ref_os f q = NotExist" "\<not> above q p"
  then show "os_stat ref_os (os_mkdirall ref_os f p) q = NotExist"
    using ref_parents_above unfolding ref_os_simps ref_stat_simps ref_mkdirall by auto
next
  fix f p f' d q assume "os_create ref_os f p = Inr f'" "q \<noteq> p"
  then have "map_of (put p (Some d) f') q = map_of f q" by (auto dest: ref_create_Inr)
  then show "os_open ref_os (snd (os_write ref_os f' p d)) q = os_open ref_os f q \<and>
      os_stat ref_os (snd (os_write ref_os f' p d)) q = os_stat ref_os f q"
    unfolding ref_os_simps snd_conv ref_stat.simps by simp
qed (auto simp: ref_os_simps ref_stat_simps ref_mkdirall ref_create ref_parents_def simp del: ref_stat.simps)

end
