(* ===== verification/Baggage.thy ===== *)
theory Baggage
  imports Files
begin

text \<open>
  The files that are about to be sent (cmd/send-anything/app/baggage/content.go): an open
  file with the position of its reads, the cached MD5 digest and the name under which it is
  sent, and the collection of the files of a directory tree. MD5 is a parameter.
\<close>

section \<open>One file\<close>

text \<open>
  The open file is its content and the bytes that are left to read; \<open>None\<close> stands for the nil
  pointer, on which every read and seek returns an error.
\<close>

record baggage_file =
  bg_file :: "bytes option"
  bg_rest :: bytes
  bg_fileName :: string
  bg_fileDir :: string
  bg_size :: "64 word"
  bg_hash :: "bytes option"

definition createFileInfo :: "'f os_api \<Rightarrow> 'f \<Rightarrow> string \<Rightarrow> bool \<Rightarrow> baggage_file result" where
  "createFileInfo os fs path holdDirInfo =
     (case PathAbs (os_getwd os) path of
        Inl e \<Rightarrow> Inl e
      | Inr p \<Rightarrow>
     (case os_stat os fs p of
        NotExist \<Rightarrow> Inl (Error ''stat: no such file or directory'')
      | StatFails \<Rightarrow> Inl (Error ''stat'')
      | Stat m \<Rightarrow>
          (if m \<noteq> ModeRegular then Inl (Error ''is not file'')
           else (case os_open os fs p of
              Inl e \<Rightarrow> Inl e
            | Inr d \<Rightarrow>
                Inr \<lparr>bg_file = Some d, bg_rest = d, bg_fileName = snd (PathSplit p),
                  bg_fileDir = (if holdDirInfo then fst (PathSplit p) else ''.''),
                  bg_size = os_size os fs p, bg_hash = None\<rparr>))))"

definition CreateFileInfo :: "'f os_api \<Rightarrow> 'f \<Rightarrow> string \<Rightarrow> baggage_file result" where
  "CreateFileInfo os fs path = createFileInfo os fs path False"

definition IsExist :: "baggage_file \<Rightarrow> bool" where
  "IsExist f \<longleftrightarrow> bg_file f \<noteq> None"

definition GetChunk :: "'f os_api \<Rightarrow> nat \<Rightarrow> baggage_file \<Rightarrow> read_result \<times> baggage_file" where
  "GetChunk os buf f =
     (case bg_file f of
        None \<Rightarrow> (ReadError, f)
      | Some d \<Rightarrow> (case read_file os buf (bg_rest f) of (x, r) \<Rightarrow> (x, f\<lparr>bg_rest := r\<rparr>)))"

definition Name :: "baggage_file \<Rightarrow> string" where "Name f = bg_fileName f"

definition Dir :: "baggage_file \<Rightarrow> string" where "Dir f = bg_fileDir f"

definition Path :: "baggage_file \<Rightarrow> string" where
  "Path f = PathJoin [bg_fileDir f, bg_fileName f]"

definition Size :: "baggage_file \<Rightarrow> 64 word" where "Size f = bg_size f"

definition compute_hash :: "(bytes \<Rightarrow> bytes) \<Rightarrow> 'f os_api \<Rightarrow> baggage_file \<Rightarrow> bytes result \<times> baggage_file" where
  "compute_hash md5 os f =
     (case bg_file f of
        None \<Rightarrow> (Inl (Error ''invalid argument''), f)
      | Some d \<Rightarrow>
          (case read_all os d of
             None \<Rightarrow> (Inl (Error ''read''), f\<lparr>bg_rest := d\<rparr>)
           | Some content \<Rightarrow> (Inr (md5 content), f\<lparr>bg_rest := d, bg_hash := Some (md5 content)\<rparr>)))"

text \<open>The digest is computed once, from the start of the file, and rewinds it.\<close>

definition Hash :: "(bytes \<Rightarrow> bytes) \<Rightarrow> 'f os_api \<Rightarrow> baggage_file \<Rightarrow> bytes result \<times> baggage_file" where
  "Hash md5 os f =
     (case bg_hash f of
        Some h \<Rightarrow> if h \<noteq> [] then (Inr h, f) else compute_hash md5 os f
      | None \<Rightarrow> compute_hash md5 os f)"

section \<open>Several files\<close>

text \<open>
  The loop that goes on after an error and reports all of them at the end. The panics of
  the calls would unwind; the calls have none.
\<close>

fun create_loop :: "'f os_api \<Rightarrow> 'f \<Rightarrow> string list \<Rightarrow> bool \<Rightarrow> baggage_file list \<times> go_error list" where
  "create_loop os fs [] hold = ([], [])"
| "create_loop os fs (path # paths) hold =
     (case create_loop os fs paths hold of
        (fInfo, errLog) \<Rightarrow>
          (case createFileInfo os fs path hold of
             Inl e \<Rightarrow> (fInfo, e # errLog)
           | Inr f \<Rightarrow> (f # fInfo, errLog)))"

definition createFilesInfo :: "'f os_api \<Rightarrow> 'f \<Rightarrow> string list \<Rightarrow> bool \<Rightarrow> baggage_file list result" where
  "createFilesInfo os fs filePaths hold =
     (case create_loop os fs filePaths hold of
        (fInfo, errLog) \<Rightarrow>
          (if errLog \<noteq> [] then Inl (Error (join '' '' (map err_text errLog))) else Inr fInfo))"

definition CreateFilesInfo :: "'f os_api \<Rightarrow> 'f \<Rightarrow> string list \<Rightarrow> baggage_file list result" where
  "CreateFilesInfo os fs filePaths = createFilesInfo os fs filePaths False"

definition IsAllExist :: "baggage_file list \<Rightarrow> bool" where
  "IsAllExist fs \<longleftrightarrow> list_all IsExist fs"

definition Len :: "baggage_file list \<Rightarrow> int" where
  "Len fs = int (length fs)"

definition isInclude :: "string \<Rightarrow> string list \<Rightarrow> bool" where
  "isInclude target xs \<longleftrightarrow> list_ex (\<lambda>v. v = target) xs"

text \<open>
  The walk over a tree. \<open>filepath.Walk\<close> calls the function on every entry in order, with the
  error of reading it, skips what is below a directory for which it returns SkipDir, and
  stops at the first other error; \<open>os_walk\<close> gives the entries.
\<close>

function walk_loop :: "'f os_api \<Rightarrow> string list \<Rightarrow> (string \<times> stat_result) list \<Rightarrow> string list result" where
  "walk_loop os skipDir [] = Inr []"
| "walk_loop os skipDir ((path, st) # es) =
     (case st of
        NotExist \<Rightarrow> Inl (Error ''lstat: no such file or directory'')
      | StatFails \<Rightarrow> Inl (Error ''lstat'')
      | Stat m \<Rightarrow>
     (case PathAbs (os_getwd os) path of
        Inl e \<Rightarrow> Inl e
      | Inr p \<Rightarrow>
          (let p = (if IsAbs path then path else p)
           in if m = ModeDir then
                (if isInclude p skipDir
                 then walk_loop os skipDir (dropWhile (\<lambda>e. has_prefix (fst e) (path @ [slash])) es)
                 else walk_loop os skipDir es)
              else if m = ModeRegular then
                (case walk_loop os skipDir es of Inl e \<Rightarrow> Inl e | Inr ps \<Rightarrow> Inr (p # ps))
              else Inl (Error ''unknown path''))))"
  by pat_completeness auto
termination
  by (relation "measure (\<lambda>(os, skip, es). length es)") (auto simp: less_Suc_eq_le length_dropWhile_le)

definition getFilePathAllInTree :: "'f os_api \<Rightarrow> 'f \<Rightarrow> string \<Rightarrow> string list \<Rightarrow> string list result" where
  "getFilePathAllInTree os fs root skipDir =
     (case PathAbs (os_getwd os) root of
        Inl e \<Rightarrow> Inl e
      | Inr r \<Rightarrow> walk_loop os skipDir (os_walk os fs r))"

definition CreateFilesInfoByDir :: "'f os_api \<Rightarrow> 'f \<Rightarrow> string \<Rightarrow> baggage_file list result" where
  "CreateFilesInfoByDir os fs path =
     (case getFilePathAllInTree os fs path [] of
        Inl e \<Rightarrow> Inl e
      | Inr fPaths \<Rightarrow> createFilesInfo os fs fPaths True)"

section \<open>What the files hold\<close>

text \<open>
  A file as it is handed to the sender: open, at its start, and with the content that its
  path has on the disk.
\<close>

definition fresh :: "'f os_api \<Rightarrow> 'f \<Rightarrow> string \<Rightarrow> baggage_file \<Rightarrow> bool" where
  "fresh os fs p f \<longleftrightarrow>
     os_stat os fs p = Stat ModeRegular \<and>
     (\<exists>d. os_open os fs p = Inr d \<and> bg_file f = Some d \<and> bg_rest f = d) \<and>
     bg_hash f = None \<and> bg_size f = os_size os fs p \<and> bg_fileName f = snd (PathSplit p)"

lemma createFileInfo_fresh:
  assumes "createFileInfo os fs path hold = Inr f"
  shows "\<exists>p. PathAbs (os_getwd os) path = Inr p \<and> fresh os fs p f \<and>
    bg_fileDir f = (if hold then fst (PathSplit p) else ''.'')"
  using assms
  by (auto simp: createFileInfo_def fresh_def split: sum.splits stat_result.splits if_splits)

lemma create_loop_ok:
  "snd (create_loop os fs ps hold) = [] \<Longrightarrow>
   map Inr (fst (create_loop os fs ps hold)) = map (\<lambda>p. createFileInfo os fs p hold) ps"
  by (induction ps) (auto split: sum.splits prod.splits)

lemma createFilesInfo_ok:
  "createFilesInfo os fs ps hold = Inr fl \<Longrightarrow> map Inr fl = map (\<lambda>p. createFileInfo os fs p hold) ps"
  using create_loop_ok [of os fs ps hold]
  by (auto simp: createFilesInfo_def split: prod.splits if_splits)

text \<open>The second digest is the first one; a digest leaves the file at its start.\<close>

lemma Hash_fresh:
  assumes "bg_file f = Some d" "bg_hash f = None" "Hash md5 os f = (Inr h, f')"
  shows "h = md5 d" "f' = f\<lparr>bg_rest := d, bg_hash := Some h\<rparr>"
  using assms by (auto simp: Hash_def compute_hash_def split: option.splits dest: read_all_Some)

lemma Hash_again:
  assumes "bg_file f = Some d" "bg_hash f = Some (md5 d)" "Hash md5 os f = (Inr h, f')"
  shows "h = md5 d"
  using assms by (auto simp: Hash_def compute_hash_def split: option.splits if_splits dest: read_all_Some)

end
