(* ===== verification/SendClient.thy ===== *)
theory SendClient
  imports Baggage
begin

text \<open>
  The sending half of send-anything (cmd/send-anything/app/client.go): a kanban and the files
  it names are sent to another device as a stream of messages, a file as its information, its
  chunks and an end mark, a directory as the files of its tree between two marks, and the
  stream ends with the number of files. The stream is a parameter, a function that sends a
  message over a state 's; the libraries that pack, hash and retry return errors, they do not
  panic. \<open>file_messages\<close> is what a file looks like on the wire.
\<close>

section \<open>Sending one message\<close>

text \<open>
  What the client is given: the packing of messages, the disk and its state, MD5, the home
  directory of the configuration, the send of the stream and the retry library.
\<close>

record ('a, 'f, 's) client =
  cl_codec :: "'a any_codec"
  cl_os :: "'f os_api"
  cl_fs :: 'f
  cl_md5 :: "bytes \<Rightarrow> bytes"
  cl_home :: string
  cl_send :: "'a SendContext \<Rightarrow> 's \<Rightarrow> go_error option \<times> 's"
  cl_retry :: "'s retrier"

definition chunkSize :: nat where "chunkSize = 128 * 1024"

definition connRetryCount :: nat where "connRetryCount = 10"

definition sendToServer :: "('a, 'f, 's) client \<Rightarrow> 'a SendContext \<Rightarrow> 's \<Rightarrow> go_error option \<times> 's" where
  "sendToServer c req s = cl_retry c connRetryCount (cl_send c req) s"

definition sendToServerNotifyFailure :: "('a, 'f, 's) client \<Rightarrow> 's \<Rightarrow> go_error option \<times> 's" where
  "sendToServerNotifyFailure c s = sendToServer c \<lparr>sc_Code = SendingFile_FAILED, sc_Context = None\<rparr> s"

definition sendKanban :: "('a, 'f, 's) client \<Rightarrow> SendKanban \<Rightarrow> 's \<Rightarrow> go_error option \<times> 's" where
  "sendKanban c m s =
     (case pack_kanban (cl_codec c) m of
        Inl e \<Rightarrow> (Some e, s)
      | Inr a \<Rightarrow> cl_send c \<lparr>sc_Code = SendingKanban, sc_Context = Some a\<rparr> s)"

text \<open>The end of the stream is sent even if its content cannot be packed; a send error comes first.\<close>

definition sendEOS :: "('a, 'f, 's) client \<Rightarrow> int \<Rightarrow> 's \<Rightarrow> go_error option \<times> 's" where
  "sendEOS c fileCnt s =
     (case pack_stream (cl_codec c) \<lparr>si_FileCount = to_int32 fileCnt\<rparr> of
        Inl e \<Rightarrow>
          (case cl_send c \<lparr>sc_Code = EOS, sc_Context = None\<rparr> s of
             (Some e', s') \<Rightarrow> (Some e', s')
           | (None, s') \<Rightarrow> (Some e, s'))
      | Inr a \<Rightarrow> cl_send c \<lparr>sc_Code = EOS, sc_Context = Some a\<rparr> s)"

section \<open>Sending a file\<close>

record sentFileInfo =
  sf_dirName :: string
  sf_relDirPath :: string

definition createFileInfo_msg ::
  "('a, 'f, 's) client \<Rightarrow> baggage_file \<Rightarrow> string \<Rightarrow> int32 \<Rightarrow> UploadRequestCode \<Rightarrow> 's \<Rightarrow>
   go_error option \<times> baggage_file \<times> 's" where
  "createFileInfo_msg c f relDir chunkCnt code s =
     (case Hash (cl_md5 c) (cl_os c) f of
        (Inl e, f') \<Rightarrow> (Some e, f', s)
      | (Inr hash, f') \<Rightarrow>
          (case pack_file (cl_codec c)
              \<lparr>fi_Size = Size f', fi_ChunkCnt = chunkCnt, fi_Hash = hash, fi_Name = Name f', fi_RelDir = relDir\<rparr> of
             Inl e \<Rightarrow> (Some e, f', s)
           | Inr a \<Rightarrow> (case sendToServer c \<lparr>sc_Code = code, sc_Context = Some a\<rparr> s of
                (r, s') \<Rightarrow> (r, f', s'))))"

text \<open>The number of chunks that is announced is the truncated quotient; the receiver does not read it.\<close>

definition sendFileInfo :: "('a, 'f, 's) client \<Rightarrow> baggage_file \<Rightarrow> string \<Rightarrow> 's \<Rightarrow> go_error option \<times> baggage_file \<times> 's" where
  "sendFileInfo c f relDir s =
     createFileInfo_msg c f relDir (to_int32 (sint (Size f) div int chunkSize)) SendingFile_Info s"

definition sendEOF :: "('a, 'f, 's) client \<Rightarrow> baggage_file \<Rightarrow> string \<Rightarrow> int32 \<Rightarrow> 's \<Rightarrow> go_error option \<times> baggage_file \<times> 's" where
  "sendEOF c f relDir chunkCnt s = createFileInfo_msg c f relDir chunkCnt SendingFile_EOF s"

definition createRequestChunkFile :: "'a any_codec \<Rightarrow> bytes \<Rightarrow> string \<Rightarrow> int32 \<Rightarrow> 'a SendContext result" where
  "createRequestChunkFile cd chunk name refNum =
     (case pack_chunk cd \<lparr>ck_Context = chunk, ck_Name = name, ck_RefNum = refNum\<rparr> of
        Inl e \<Rightarrow> Inl e
      | Inr a \<Rightarrow> Inr \<lparr>sc_Code = SendingFile_CONT, sc_Context = Some a\<rparr>)"

definition sendFileChunk :: "('a, 'f, 's) client \<Rightarrow> bytes \<Rightarrow> string \<Rightarrow> int32 \<Rightarrow> 's \<Rightarrow> go_error option \<times> 's" where
  "sendFileChunk c chunk fName refNum s =
     (case createRequestChunkFile (cl_codec c) chunk fName refNum of
        Inl e \<Rightarrow> (Some e, s)
      | Inr req \<Rightarrow> sendToServer c req s)"

lemma GetChunk_Bytes:
  "GetChunk os buf f = (ReadBytes b, f') \<Longrightarrow> f' = f\<lparr>bg_rest := bg_rest f'\<rparr> \<and> bg_rest f = b @ bg_rest f' \<and> b \<noteq> []"
  by (auto simp: GetChunk_def split: option.splits prod.splits dest: read_file_Bytes)

lemma GetChunk_Bytes_length: "GetChunk os buf f = (ReadBytes b, f') \<Longrightarrow> length (bg_rest f') < length (bg_rest f)"
  by (drule GetChunk_Bytes) auto

text \<open>The loop over the chunks; the count wraps around at 32 bits as it does in the code.\<close>

function content_loop :: "('a, 'f, 's) client \<Rightarrow> baggage_file \<Rightarrow> int32 \<Rightarrow> 's \<Rightarrow> int32 result \<times> baggage_file \<times> 's" where
  "content_loop c f sendChunkCnt s =
     (case GetChunk (cl_os c) chunkSize f of
        (ReadEOF, f') \<Rightarrow> (Inr sendChunkCnt, f', s)
      | (ReadError, f') \<Rightarrow> (Inl (Error ''failed getting file chunk''), f', s)
      | (ReadBytes chunk, f') \<Rightarrow>
          (case sendFileChunk c chunk (Name f') sendChunkCnt s of
             (Some e, s') \<Rightarrow> (Inl e, f', s')
           | (None, s') \<Rightarrow> content_loop c f' (sendChunkCnt + 1) s'))"
  by pat_completeness auto
termination
  by (relation "measure (\<lambda>(c, f, n, s). length (bg_rest f))")
    (auto dest!: sym [of _ "GetChunk _ _ _"] GetChunk_Bytes_length)

declare content_loop.simps [simp del]

definition sendFileContent :: "('a, 'f, 's) client \<Rightarrow> baggage_file \<Rightarrow> 's \<Rightarrow> int32 result \<times> baggage_file \<times> 's" where
  "sendFileContent c f s = content_loop c f 0 s"

definition sendFile :: "('a, 'f, 's) client \<Rightarrow> baggage_file \<Rightarrow> string \<Rightarrow> 's \<Rightarrow> sentFileInfo result \<times> 's" where
  "sendFile c file relDir s =
     (if \<not> IsExist file then (Inl (Error ''skip sending a file''), s)
      else (case sendFileInfo c file relDir s of
         (Some e, f1, s1) \<Rightarrow> (Inl e, s1)
       | (None, f1, s1) \<Rightarrow>
      (case sendFileContent c f1 s1 of
         (Inl e, f2, s2) \<Rightarrow> (Inl e, s2)
       | (Inr chunkCnt, f2, s2) \<Rightarrow>
      (case sendEOF c f2 relDir chunkCnt s2 of
         (Some e, f3, s3) \<Rightarrow> (Inl e, s3)
       | (None, f3, s3) \<Rightarrow> (Inr \<lparr>sf_dirName = Name f3, sf_relDirPath = relDir\<rparr>, s3)))))"

section \<open>Which files\<close>

definition getAbsPath :: "string \<Rightarrow> string \<Rightarrow> string" where
  "getAbsPath root relPath = (if IsAbs relPath then relPath else PathJoin [root, relPath])"

text \<open>\<open>filepath.HasPrefix\<close> compares bytes.\<close>

definition isSendable :: "string result \<Rightarrow> string \<Rightarrow> string \<Rightarrow> bool" where
  "isSendable wd target relPathFrom =
     (case PathAbs wd target of
        Inl e \<Rightarrow> False
      | Inr t \<Rightarrow> (case PathAbs wd relPathFrom of Inl e \<Rightarrow> False | Inr r \<Rightarrow> has_prefix t r))"

definition take_path :: "'f os_api \<Rightarrow> 'f \<Rightarrow> string \<Rightarrow> string \<Rightarrow> baggage_file list result" where
  "take_path os fs relPathFrom path =
     (let p = getAbsPath relPathFrom path
      in if \<not> isSendable (os_getwd os) p relPathFrom then Inl (Error ''file is not allowd sending'')
         else (case os_stat os fs p of
            NotExist \<Rightarrow> Inl (Error ''failed getting stat'')
          | StatFails \<Rightarrow> Inl (Error ''failed getting stat'')
          | Stat m \<Rightarrow>
              (if m = ModeDir then CreateFilesInfoByDir os fs p
               else if m = ModeRegular then
                 (case CreateFileInfo os fs p of Inl e \<Rightarrow> Inl e | Inr f \<Rightarrow> Inr [f])
               else Inl (Error ''unknown FileSystem type''))))"

definition takeFiles :: "'f os_api \<Rightarrow> 'f \<Rightarrow> string \<Rightarrow> string list list \<Rightarrow> baggage_file list result" where
  "takeFiles os fs relPathFrom pathsList =
     (case rmap (take_path os fs relPathFrom) (concat pathsList) of
        Inl e \<Rightarrow> Inl e
      | Inr fss \<Rightarrow> Inr (concat fss))"

section \<open>Sending files and directories\<close>

record sentDirInfo =
  sdi_fileCnt :: int
  sdi_dirName :: string
  sdi_relParentDirPath :: string
  sdi_files :: "sentFileInfo list"

record sentItemInfo =
  si_files :: "sentFileInfo list"
  si_dirs :: "sentDirInfo list"

definition newSentItemInfo :: sentItemInfo where
  "newSentItemInfo = \<lparr>si_files = [], si_dirs = []\<rparr>"

definition sentFileCnt :: "sentItemInfo \<Rightarrow> int" where
  "sentFileCnt i = (\<Sum>d\<leftarrow>si_dirs i. sdi_fileCnt d) + int (length (si_files i))"

definition createDirInfo ::
  "('a, 'f, 's) client \<Rightarrow> sentDirInfo \<Rightarrow> int \<Rightarrow> UploadRequestCode \<Rightarrow> 's \<Rightarrow> go_error option \<times> 's" where
  "createDirInfo c dirInfo fileCnt code s =
     (case pack_dir (cl_codec c) \<lparr>di_FileCnt = word_of_int fileCnt, di_DirName = sdi_dirName dirInfo,
         di_RelParentPath = sdi_relParentDirPath dirInfo\<rparr> of
        Inl e \<Rightarrow> (Some e, s)
      | Inr a \<Rightarrow> sendToServer c \<lparr>sc_Code = code, sc_Context = Some a\<rparr> s)"

definition sendDirInfo :: "('a, 'f, 's) client \<Rightarrow> sentDirInfo \<Rightarrow> int \<Rightarrow> 's \<Rightarrow> go_error option \<times> 's" where
  "sendDirInfo c dirInfo fileCnt s = createDirInfo c dirInfo fileCnt SendingDirInfo s"

definition sendEndOfDir :: "('a, 'f, 's) client \<Rightarrow> sentDirInfo \<Rightarrow> 's \<Rightarrow> go_error option \<times> 's" where
  "sendEndOfDir c dirInfo s = createDirInfo c dirInfo (sdi_fileCnt dirInfo) EndOfSendingDir s"

text \<open>The files of a directory, each under its directory relative to the one that is sent.\<close>

fun dir_loop :: "('a, 'f, 's) client \<Rightarrow> string \<Rightarrow> baggage_file list \<Rightarrow> sentDirInfo \<Rightarrow> 's \<Rightarrow> sentDirInfo result \<times> 's" where
  "dir_loop c dirPath [] dirInfo s = (Inr dirInfo, s)"
| "dir_loop c dirPath (f # files) dirInfo s =
     (case PathRel dirPath (Path f) of
        Inl e \<Rightarrow> (Inl e, s)
      | Inr relPath \<Rightarrow>
          (case sendFile c f (PathDir relPath) s of
             (Inl e, s') \<Rightarrow> (Inl e, s')
           | (Inr info, s') \<Rightarrow>
               dir_loop c dirPath files
                 (dirInfo\<lparr>sdi_fileCnt := sdi_fileCnt dirInfo + 1, sdi_files := sdi_files dirInfo @ [info]\<rparr>) s'))"

definition sendDir :: "('a, 'f, 's) client \<Rightarrow> string \<Rightarrow> string \<Rightarrow> 's \<Rightarrow> sentDirInfo result \<times> 's" where
  "sendDir c dirPath aionHome s =
     (case takeFiles (cl_os c) (cl_fs c) aionHome [[dirPath]] of
        Inl e \<Rightarrow> (Inl e, s)
      | Inr files \<Rightarrow>
     (let dirInfo = \<lparr>sdi_fileCnt = 0, sdi_dirName = PathBase dirPath, sdi_relParentDirPath = ''.'', sdi_files = []\<rparr>;
          dirPath = (if IsAbs dirPath then dirPath else PathJoin [aionHome, dirPath])
      in (case sendDirInfo c dirInfo (int (length files)) s of
            (Some e, s1) \<Rightarrow> (Inl e, s1)
          | (None, s1) \<Rightarrow>
         (case dir_loop c dirPath files dirInfo s1 of
            (Inl e, s2) \<Rightarrow> (Inl e, s2)
          | (Inr d, s2) \<Rightarrow>
         (case sendEndOfDir c d s2 of
            (Some e, s3) \<Rightarrow> (Inl e, s3)
          | (None, s3) \<Rightarrow> (Inr d, s3))))))"

fun files_loop :: "('a, 'f, 's) client \<Rightarrow> string \<Rightarrow> baggage_file list \<Rightarrow> 's \<Rightarrow> sentFileInfo list result \<times> 's" where
  "files_loop c aionHome [] s = (Inr [], s)"
| "files_loop c aionHome (f # files) s =
     (case (if IsAbs (Path f) then PathRel aionHome (Path f) else Inr (Path f)) of
        Inl e \<Rightarrow> (Inl e, s)
      | Inr relPath \<Rightarrow>
          (case sendFile c f (PathDir relPath) s of
             (Inl e, s') \<Rightarrow> (Inl e, s')
           | (Inr info, s') \<Rightarrow>
               (case files_loop c aionHome files s' of
                  (Inl e, s'') \<Rightarrow> (Inl e, s'')
                | (Inr infos, s'') \<Rightarrow> (Inr (info # infos), s''))))"

definition sendFiles :: "('a, 'f, 's) client \<Rightarrow> string list \<Rightarrow> string \<Rightarrow> 's \<Rightarrow> sentFileInfo list result \<times> 's" where
  "sendFiles c filePaths aionHome s =
     (case takeFiles (cl_os c) (cl_fs c) aionHome [filePaths] of
        Inl e \<Rightarrow> (Inl e, s)
      | Inr files \<Rightarrow> files_loop c aionHome files s)"

text \<open>What is neither a directory nor a regular file is passed over.\<close>

fun anything_loop ::
  "('a, 'f, 's) client \<Rightarrow> string \<Rightarrow> string list \<Rightarrow> sentItemInfo \<Rightarrow> 's \<Rightarrow> sentItemInfo result \<times> 's" where
  "anything_loop c root [] itemInfo s = (Inr itemInfo, s)"
| "anything_loop c root (p # paths) itemInfo s =
     (let p = getAbsPath root p
      in (case os_stat (cl_os c) (cl_fs c) p of
            Stat ModeDir \<Rightarrow>
              (case sendDir c p root s of
                 (Inl e, s') \<Rightarrow> (Inl e, s')
               | (Inr d, s') \<Rightarrow> anything_loop c root paths (itemInfo\<lparr>si_dirs := si_dirs itemInfo @ [d]\<rparr>) s')
          | Stat ModeRegular \<Rightarrow>
              (case sendFiles c [p] root s of
                 (Inl e, s') \<Rightarrow> (Inl e, s')
               | (Inr f, s') \<Rightarrow> anything_loop c root paths (itemInfo\<lparr>si_files := si_files itemInfo @ f\<rparr>) s')
          | Stat ModeOther \<Rightarrow> anything_loop c root paths itemInfo s
          | NotExist \<Rightarrow> (Inl (Error ''failed getting stat''), s)
          | StatFails \<Rightarrow> (Inl (Error ''failed getting stat''), s)))"

definition sendAnything :: "('a, 'f, 's) client \<Rightarrow> string list \<Rightarrow> 's \<Rightarrow> int result \<times> 's" where
  "sendAnything c paths s =
     (case anything_loop c (Clean (cl_home c)) paths newSentItemInfo s of
        (Inl e, s') \<Rightarrow> (Inl e, s')
      | (Inr itemInfo, s') \<Rightarrow> (Inr (sentFileCnt itemInfo), s'))"

section \<open>Sending a kanban\<close>

text \<open>
  The deferred end of the stream: its error replaces an error that is being returned and is
  dropped when there is none.
\<close>

definition deferred_eos :: "('a, 'f, 's) client \<Rightarrow> int \<Rightarrow> go_error option \<Rightarrow> 's \<Rightarrow> go_error option \<times> 's" where
  "deferred_eos c sendFileCnt err s =
     (case sendEOS c sendFileCnt s of
        (None, s') \<Rightarrow> (err, s')
      | (Some e, s') \<Rightarrow>
          (case err of
             None \<Rightarrow> (None, s')
           | Some (Panic p) \<Rightarrow> (Some (Panic p), s')
           | Some (Error e') \<Rightarrow> (Some e, s')))"

text \<open>
  \<open>dial\<close> and \<open>open\<close> are the errors of connecting and of opening the stream. The reply of the
  server is only logged.
\<close>

definition sendToOtherDeviceClient ::
  "('a, 'f, 's) client \<Rightarrow> go_error option \<Rightarrow> go_error option \<Rightarrow> SendKanban \<Rightarrow> 's \<Rightarrow> go_error option \<times> 's" where
  "sendToOtherDeviceClient c dial open_stream m s =
     (if dial \<noteq> None then (dial, s)
      else if open_stream \<noteq> None then (open_stream, s)
      else (case sendKanban c m s of
         (Some e, s1) \<Rightarrow> (Some e, s1)
       | (None, s1) \<Rightarrow>
      (case sd_AfterKanban m of
         None \<Rightarrow> deferred_eos c 0 (Some nil_deref) s1
       | Some k \<Rightarrow>
           (if sk_FileList k = [] then deferred_eos c 0 None s1
            else (case sendAnything c (sk_FileList k) s1 of
               (Inr n, s2) \<Rightarrow> deferred_eos c n None s2
             | (Inl (Panic p), s2) \<Rightarrow> deferred_eos c 0 (Some (Panic p)) s2
             | (Inl (Error e), s2) \<Rightarrow>
                 deferred_eos c (- 1) (Some (Error e)) (snd (sendToServerNotifyFailure c s2)))))))"

end
