(* ===== verification/SendServer.thy ===== *)
theory SendServer
  imports SendClient
begin

text \<open>
  The receiving half of send-anything (cmd/send-anything/app/server.go): the messages of one
  upload stream are parsed, files are collected chunk by chunk, written below the data
  directory of the next microservice and checked against their MD5 digest, and the kanban is
  handed on to the service broker. The stream is the list of the messages that arrive before
  it ends; a receive at its end returns an error.
\<close>

record ('a, 'f) server =
  rv_codec :: "'a any_codec"
  rv_os :: "'f os_api"
  rv_md5 :: "bytes \<Rightarrow> bytes"
  rv_dataDir :: string

type_synonym 'a messages = "'a SendContext list"

definition maxAlloc :: int where "maxAlloc = 2 ^ 48"

text \<open>\<open>make\<close> panics on a capacity that is negative or too large to allocate.\<close>

definition make_slice :: "int \<Rightarrow> 64 word \<Rightarrow> unit result" where
  "make_slice elem n =
     (if sint n < 0 \<or> elem * sint n > maxAlloc then Inl (Panic ''makeslice: cap out of range'') else Inr ())"

section \<open>One file\<close>

record receivingFileBuilder =
  rb_relPath :: string
  rb_size :: "64 word"
  rb_fileStack :: bytes
  rb_expectRefNum :: int32

record outputFileInfo =
  of_dirName :: string
  of_path :: string

definition newReceivingFileBuilder :: "FileInfo \<Rightarrow> receivingFileBuilder result" where
  "newReceivingFileBuilder fInfo =
     (case make_slice 1 (fi_Size fInfo) of
        Inl e \<Rightarrow> Inl e
      | Inr _ \<Rightarrow> Inr \<lparr>rb_relPath = PathJoin [fi_RelDir fInfo, fi_Name fInfo], rb_size = fi_Size fInfo,
          rb_fileStack = [], rb_expectRefNum = 0\<rparr>)"

definition enqueue :: "bytes \<Rightarrow> receivingFileBuilder \<Rightarrow> receivingFileBuilder" where
  "enqueue content fb =
     fb\<lparr>rb_fileStack := rb_fileStack fb @ content, rb_expectRefNum := rb_expectRefNum fb + 1\<rparr>"

definition dequeue :: "'f os_api \<Rightarrow> string \<Rightarrow> receivingFileBuilder \<Rightarrow> 'f \<Rightarrow> go_error option \<times> receivingFileBuilder \<times> 'f" where
  "dequeue os rootPath fb fs =
     (let fPath = PathJoin [rootPath, rb_relPath fb]
      in (case os_create os fs fPath of
            Inl e \<Rightarrow> (Some e, fb, fs)
          | Inr fs1 \<Rightarrow>
              (case os_write os fs1 fPath (rb_fileStack fb) of
                 (Some e, fs2) \<Rightarrow> (Some e, fb, fs2)
               | (None, fs2) \<Rightarrow> (None, fb\<lparr>rb_expectRefNum := 0\<rparr>, fs2))))"

definition receiveFileCont :: "'a any_codec \<Rightarrow> 'a SendContext \<Rightarrow> receivingFileBuilder \<Rightarrow> receivingFileBuilder result" where
  "receiveFileCont cd m file =
     (case unpack_chunk cd (sc_Context m) of
        Inl e \<Rightarrow> Inl e
      | Inr chunk \<Rightarrow>
          (if ck_RefNum chunk \<noteq> rb_expectRefNum file then Inl (Error ''sending data order is not correct'')
           else if PathBase (rb_relPath file) \<noteq> ck_Name chunk then Inl (Error ''sending data has no consistent'')
           else Inr (enqueue (ck_Context chunk) file)))"

text \<open>The digest of an open file; a file that cannot be read has the empty digest.\<close>

definition getMD5 :: "('a, 'f) server \<Rightarrow> bytes \<Rightarrow> bytes" where
  "getMD5 sv d = (case read_all (rv_os sv) d of None \<Rightarrow> [] | Some content \<Rightarrow> rv_md5 sv content)"

text \<open>
  Making a directory when there is none. A stat error other than not-exist leaves the file
  info nil, and the test on it is a nil dereference; the error of making it is only logged.
\<close>

definition ensure_dir :: "'f os_api \<Rightarrow> ('f \<Rightarrow> string \<Rightarrow> 'f) \<Rightarrow> string \<Rightarrow> 'f \<Rightarrow> 'f result" where
  "ensure_dir os mkdir d fs =
     (case os_stat os fs d of
        NotExist \<Rightarrow> Inr (mkdir fs d)
      | StatFails \<Rightarrow> Inl nil_deref
      | Stat m \<Rightarrow> (if m = ModeDir then Inr fs else Inr (mkdir fs d)))"

definition receiveEOF ::
  "('a, 'f) server \<Rightarrow> 'a SendContext \<Rightarrow> FileInfo \<Rightarrow> receivingFileBuilder \<Rightarrow> string \<Rightarrow> 'f \<Rightarrow> go_error option \<times> 'f" where
  "receiveEOF sv m fInfo file outputDirPath fs =
     (case unpack_file (rv_codec sv) (sc_Context m) of
        Inl e \<Rightarrow> (Some e, fs)
      | Inr fInfoEOF \<Rightarrow>
     (let outputDir = PathJoin [outputDirPath, fi_RelDir fInfoEOF];
          filePath = PathJoin [outputDir, fi_Name fInfoEOF]
      in (case ensure_dir (rv_os sv) (os_mkdirall (rv_os sv)) outputDir fs of
            Inl e \<Rightarrow> (Some e, fs)
          | Inr fs1 \<Rightarrow>
         (case dequeue (rv_os sv) outputDir file fs1 of
            (Some e, file', fs2) \<Rightarrow> (Some e, fs2)
          | (None, file', fs2) \<Rightarrow>
         (case os_open (rv_os sv) fs2 filePath of
            Inl e \<Rightarrow> (Some e, fs2)
          | Inr d \<Rightarrow>
              (if fi_Hash fInfo \<noteq> getMD5 sv d
               then (Some (Error ''Received file is broken''), os_remove (rv_os sv) fs2 filePath)
               else (None, fs2)))))))"

text \<open>The loop over the chunks of a file; a receive with no message left returns an error.\<close>

fun file_loop ::
  "('a, 'f) server \<Rightarrow> FileInfo \<Rightarrow> string \<Rightarrow> receivingFileBuilder \<Rightarrow> 'a messages \<Rightarrow> 'f \<Rightarrow>
   receivingFileBuilder result \<times> 'a messages \<times> 'f" where
  "file_loop sv fileInfo out file [] fs = (Inl (Error ''failed receiving kanban''), [], fs)"
| "file_loop sv fileInfo out file (m # ms) fs =
     (if sc_Code m = SendingFile_CONT then
        (case receiveFileCont (rv_codec sv) m file of
           Inl e \<Rightarrow> (Inl e, ms, fs)
         | Inr file' \<Rightarrow> file_loop sv fileInfo out file' ms fs)
      else if sc_Code m = SendingFile_EOF then
        (case receiveEOF sv m fileInfo file out fs of
           (Some e, fs') \<Rightarrow> (Inl e, ms, fs')
         | (None, fs') \<Rightarrow> (Inr file, ms, fs'))
      else (Inl (Error ''got unknown code''), ms, fs))"

definition downloadFile ::
  "('a, 'f) server \<Rightarrow> FileInfo \<Rightarrow> string \<Rightarrow> 'a messages \<Rightarrow> 'f \<Rightarrow> outputFileInfo result \<times> 'a messages \<times> 'f" where
  "downloadFile sv fileInfo out ms fs =
     (case newReceivingFileBuilder fileInfo of
        Inl e \<Rightarrow> (Inl e, ms, fs)
      | Inr file \<Rightarrow>
          (case file_loop sv fileInfo out file ms fs of
             (Inl e, ms', fs') \<Rightarrow> (Inl e, ms', fs')
           | (Inr file', ms', fs') \<Rightarrow>
               (Inr \<lparr>of_dirName = PathDir (rb_relPath file'), of_path = getAbsPath out (rb_relPath file')\<rparr>, ms', fs')))"

definition receiveFileInfo ::
  "('a, 'f) server \<Rightarrow> 'a SendContext \<Rightarrow> string \<Rightarrow> 'a messages \<Rightarrow> 'f \<Rightarrow> outputFileInfo result \<times> 'a messages \<times> 'f" where
  "receiveFileInfo sv m dirPath ms fs =
     (case unpack_file (rv_codec sv) (sc_Context m) of
        Inl e \<Rightarrow> (Inl e, ms, fs)
      | Inr content \<Rightarrow> downloadFile sv content dirPath ms fs)"

text \<open>What is left of the stream is shorter.\<close>

lemma file_loop_length: "length (fst (snd (file_loop sv fi out fb ms g))) \<le> length ms"
  by (induction ms arbitrary: fb g) (auto simp: le_SucI split: sum.splits prod.splits option.splits)

lemma receiveFileInfo_length: "length (fst (snd (receiveFileInfo sv m d ms fs))) \<le> length ms"
proof -
  have "length (fst (snd (downloadFile sv fi d ms fs))) \<le> length ms" for fi
    using file_loop_length [of sv fi d "projr (newReceivingFileBuilder fi)" ms fs]
    by (auto simp: downloadFile_def split: sum.splits prod.splits)
  then show ?thesis by (simp add: receiveFileInfo_def split: sum.splits)
qed

section \<open>Directories and the whole stream\<close>

record outputDirInfo =
  od_fileCnt :: int
  od_dirName :: string
  od_path :: string
  od_files :: "outputFileInfo list"

record outputItemInfo =
  oi_files :: "outputFileInfo list"
  oi_dirs :: "outputDirInfo list"

definition newOutputItemInfo :: outputItemInfo where
  "newOutputItemInfo = \<lparr>oi_files = [], oi_dirs = []\<rparr>"

definition item_list :: "outputItemInfo \<Rightarrow> string list" where
  "item_list i = map od_path (oi_dirs i) @ map of_path (oi_files i)"

definition ReceivedFileCnt :: "outputItemInfo \<Rightarrow> int" where
  "ReceivedFileCnt i = (\<Sum>d\<leftarrow>oi_dirs i. od_fileCnt d) + int (length (oi_files i))"

function dir_files_loop ::
  "('a, 'f) server \<Rightarrow> outputDirInfo \<Rightarrow> 'a messages \<Rightarrow> 'f \<Rightarrow> outputDirInfo result \<times> 'a messages \<times> 'f" where
  "dir_files_loop sv info [] fs = (Inl (Error ''failed receiving kanban''), [], fs)"
| "dir_files_loop sv info (m # ms) fs =
     (if sc_Code m = SendingFile_Info then
        (case receiveFileInfo sv m (od_path info) ms fs of
           (Inl e, ms', fs') \<Rightarrow> (Inl e, ms', fs')
         | (Inr f, ms', fs') \<Rightarrow>
             dir_files_loop sv (info\<lparr>od_files := od_files info @ [f], od_fileCnt := od_fileCnt info + 1\<rparr>) ms' fs')
      else if sc_Code m = EndOfSendingDir then (Inr info, ms, fs)
      else (Inl (Error ''got unknown code''), ms, fs))"
  by pat_completeness auto
termination
proof (relation "measure (\<lambda>(sv, info, ms, fs). length ms)", goal_cases)
  case (2 sv info m ms fs x y f ms' fs')
  then have "receiveFileInfo sv m (od_path info) ms fs = (Inr f, ms', fs')" by auto
  with receiveFileInfo_length [of sv m "od_path info" ms fs] show ?case by simp
qed simp

definition downloadDir ::
  "('a, 'f) server \<Rightarrow> DirInfo \<Rightarrow> string \<Rightarrow> 'a messages \<Rightarrow> 'f \<Rightarrow> outputDirInfo result \<times> 'a messages \<times> 'f" where
  "downloadDir sv dirInfo parentDirPath ms fs =
     (case make_slice 8 (di_FileCnt dirInfo) of
        Inl e \<Rightarrow> (Inl e, ms, fs)
      | Inr _ \<Rightarrow> dir_files_loop sv \<lparr>od_fileCnt = 0, od_dirName = di_DirName dirInfo,
          od_path = PathJoin [parentDirPath, di_DirName dirInfo], od_files = []\<rparr> ms fs)"

definition receiveDirInfo ::
  "('a, 'f) server \<Rightarrow> 'a SendContext \<Rightarrow> string \<Rightarrow> 'a messages \<Rightarrow> 'f \<Rightarrow> outputDirInfo result \<times> 'a messages \<times> 'f" where
  "receiveDirInfo sv m writableDirRoot ms fs =
     (case unpack_dir (rv_codec sv) (sc_Context m) of
        Inl e \<Rightarrow> (Inl e, ms, fs)
      | Inr content \<Rightarrow> downloadDir sv content (PathJoin [writableDirRoot, di_RelParentPath content]) ms fs)"

definition receiveEOS :: "'a any_codec \<Rightarrow> 'a SendContext \<Rightarrow> int \<Rightarrow> go_error option" where
  "receiveEOS cd m receivedFileCnt =
     (case unpack_stream cd (sc_Context m) of
        Inl e \<Rightarrow> Some e
      | Inr eos \<Rightarrow>
          (if si_FileCount eos \<noteq> to_int32 receivedFileCnt
           then Some (Error ''sent files count and received files count is NOT equal'') else None))"

lemma dir_files_loop_length: "length (fst (snd (dir_files_loop sv info ms fs))) \<le> length ms"
proof (induction sv info ms fs rule: dir_files_loop.induct)
  case (2 sv info m ms fs)
  obtain r ms' fs' where r: "receiveFileInfo sv m (od_path info) ms fs = (r, ms', fs')"
    by (metis prod_cases3)
  then have "length ms' \<le> length ms" using receiveFileInfo_length [of sv m "od_path info" ms fs] by simp
  with 2 r show ?case by (cases r) force+
qed simp

lemma receiveDirInfo_length: "length (fst (snd (receiveDirInfo sv m d ms fs))) \<le> length ms"
  by (auto simp: receiveDirInfo_def downloadDir_def intro: dir_files_loop_length split: sum.splits)

text \<open>
  The messages after the kanban. At a code that the loop does not know it stops without an
  error when as many items came as the kanban names files; a nil kanban is a nil dereference.
\<close>

function anything_recv ::
  "('a, 'f) server \<Rightarrow> string \<Rightarrow> outputItemInfo \<Rightarrow> SendKanban \<Rightarrow> 'a messages \<Rightarrow> 'f \<Rightarrow>
   go_error option \<times> SendKanban \<times> 'a messages \<times> 'f" where
  "anything_recv sv out i k [] fs = (Some (Error ''failed receiving kanban''), k, [], fs)"
| "anything_recv sv out i k (m # ms) fs =
     (if sc_Code m = SendingFile_Info then
        (case receiveFileInfo sv m out ms fs of
           (Inl e, ms', fs') \<Rightarrow> (Some e, k, ms', fs')
         | (Inr f, ms', fs') \<Rightarrow> anything_recv sv out (i\<lparr>oi_files := oi_files i @ [f]\<rparr>) k ms' fs')
      else if sc_Code m = SendingDirInfo then
        (case receiveDirInfo sv m out ms fs of
           (Inl e, ms', fs') \<Rightarrow> (Some e, k, ms', fs')
         | (Inr d, ms', fs') \<Rightarrow> anything_recv sv out (i\<lparr>oi_dirs := oi_dirs i @ [d]\<rparr>) k ms' fs')
      else if sc_Code m = EOS then
        (case receiveEOS (rv_codec sv) m (ReceivedFileCnt i) of
           Some e \<Rightarrow> (Some e, k, ms, fs)
         | None \<Rightarrow>
             (case sd_AfterKanban k of
                None \<Rightarrow> (Some nil_deref, k, ms, fs)
              | Some a \<Rightarrow> (None, k\<lparr>sd_AfterKanban := Some (a\<lparr>sk_FileList := item_list i\<rparr>)\<rparr>, ms, fs)))
      else
        (case sd_AfterKanban k of
           None \<Rightarrow> (Some nil_deref, k, ms, fs)
         | Some a \<Rightarrow>
             (if length (item_list i) \<noteq> length (sk_FileList a)
              then (Some (Error ''enough files haven't received yet''), k, ms, fs)
              else (None, k, ms, fs))))"
  by pat_completeness auto
termination
proof (relation "measure (\<lambda>(sv, out, i, k, ms, fs). length ms)", goal_cases)
  case (2 sv out i k m ms fs x y f ms' fs')
  then have "receiveFileInfo sv m out ms fs = (Inr f, ms', fs')" by auto
  with receiveFileInfo_length [of sv m out ms fs] show ?case by simp
next
  case (3 sv out i k m ms fs x y f ms' fs')
  then have "receiveDirInfo sv m out ms fs = (Inr f, ms', fs')" by auto
  with receiveDirInfo_length [of sv m out ms fs] show ?case by simp
qed simp

declare dir_files_loop.simps [simp del] anything_recv.simps [simp del]

definition downloadAnything ::
  "('a, 'f) server \<Rightarrow> SendKanban \<Rightarrow> string \<Rightarrow> 'a messages \<Rightarrow> 'f \<Rightarrow> go_error option \<times> SendKanban \<times> 'a messages \<times> 'f" where
  "downloadAnything sv k out ms fs = anything_recv sv out newOutputItemInfo k ms fs"

definition receiveSendingKanban ::
  "('a, 'f) server \<Rightarrow> 'a SendContext \<Rightarrow> string \<Rightarrow> 'f \<Rightarrow> (SendKanban \<times> string \<times> 'f) result" where
  "receiveSendingKanban sv m dirPath fs =
     (case unpack_kanban (rv_codec sv) (sc_Context m) of
        Inl e \<Rightarrow> Inl e
      | Inr k \<Rightarrow>
          (let d = GetMsDataPath dirPath (sd_NextService k) (to_int (sd_NextNumber k))
           in (case ensure_dir (rv_os sv) (os_mkdir (rv_os sv)) d fs of
                 Inl e \<Rightarrow> Inl e
               | Inr fs' \<Rightarrow> Inr (k, d, fs'))))"

text \<open>
  The reply, the kanbans sent to the channel of the service broker and the disk. The kanban
  is sent by a deferred call, so it is handed on however the download ends.
\<close>

definition messageParserInSendAnythingServer ::
  "('a, 'f) server \<Rightarrow> string \<Rightarrow> 'a messages \<Rightarrow> 'f \<Rightarrow> (string \<times> UploadStatusCode) result \<times> SendKanban list \<times> 'f" where
  "messageParserInSendAnythingServer sv dirPath ms fs =
     (case ms of
        [] \<Rightarrow> (Inr (''cant receive message'', UploadStatus_Failed), [], fs)
      | m # ms1 \<Rightarrow>
          (if sc_Code m \<noteq> SendingKanban then (Inr (''got unknown code'', UploadStatus_Failed), [], fs)
           else (case receiveSendingKanban sv m dirPath fs of
              Inl (Panic p) \<Rightarrow> (Inl (Panic p), [], fs)
            | Inl (Error e) \<Rightarrow> (Inr (e, UploadStatus_Failed), [], fs)
            | Inr (k, out, fs1) \<Rightarrow>
                (case downloadAnything sv k out ms1 fs1 of
                   (Some (Panic p), k', ms2, fs2) \<Rightarrow> (Inl (Panic p), [k'], fs2)
                 | (Some (Error e), k', ms2, fs2) \<Rightarrow> (Inr (e, UploadStatus_Failed), [k'], fs2)
                 | (None, k', ms2, fs2) \<Rightarrow> (Inr (''ok'', UploadStatus_OK), [k'], fs2)))))"

definition SendToOtherDevices ::
  "('a, 'f) server \<Rightarrow> 'a messages \<Rightarrow> 'f \<Rightarrow> UploadStatus result \<times> SendKanban list \<times> 'f" where
  "SendToOtherDevices sv ms fs =
     (case messageParserInSendAnythingServer sv (rv_dataDir sv) ms fs of
        (Inl e, out, fs') \<Rightarrow> (Inl e, out, fs')
      | (Inr (message, code), out, fs') \<Rightarrow>
          (Inr \<lparr>us_Message = ''[SendToOtherDevices server] '' @ message, us_StatusCode = code\<rparr>, out, fs'))"

section \<open>The service broker's side\<close>

text \<open>
  The kanbans that the service broker sends are sent on one after the other. An error is
  logged; a panic ends the process.
\<close>

fun conn_recv :: "(SendKanban \<Rightarrow> 's \<Rightarrow> go_error option \<times> 's) \<Rightarrow> SendKanban list \<Rightarrow> 's \<Rightarrow> go_error option \<times> 's" where
  "conn_recv client [] s = (None, s)"
| "conn_recv client (k # ks) s =
     (case client k s of
        (Some (Panic p), s') \<Rightarrow> (Some (Panic p), s')
      | (_, s') \<Rightarrow> conn_recv client ks s')"

text \<open>
  The loop towards the service broker, by what it selects: the end of the context, the closed
  channel, or a kanban with the outcome of sending it.
\<close>

datatype conn_event = ConnDone | ChannelClosed | Received SendKanban "go_error option"

fun ServiceBrokerConn :: "conn_event list \<Rightarrow> SendKanban list" where
  "ServiceBrokerConn [] = []"
| "ServiceBrokerConn (ConnDone # es) = []"
| "ServiceBrokerConn (ChannelClosed # es) = []"
| "ServiceBrokerConn (Received k None # es) = k # ServiceBrokerConn es"
| "ServiceBrokerConn (Received k (Some e) # es) = ServiceBrokerConn es"

end
