(* ===== verification/SendAnything.thy ===== *)
theory SendAnything
  imports SendServer
begin

text \<open>
  The two halves of send-anything together: what the receiver makes of the messages of the
  sender. \<open>linked\<close> is a stream that delivers every message in order between a sender and a
  receiver that pack and hash alike and whose disks do not fail.
\<close>

section \<open>A stream that delivers\<close>

definition codec_total :: "'a any_codec \<Rightarrow> bool" where
  "codec_total cd \<longleftrightarrow>
     (\<forall>m. \<exists>a. pack_kanban cd m = Inr a) \<and> (\<forall>m. \<exists>a. pack_file cd m = Inr a) \<and>
     (\<forall>m. \<exists>a. pack_dir cd m = Inr a) \<and> (\<forall>m. \<exists>a. pack_chunk cd m = Inr a) \<and>
     (\<forall>m. \<exists>a. pack_stream cd m = Inr a)"

definition linked :: "('a, 'f, 'a messages) client \<Rightarrow> ('a, 'g) server \<Rightarrow> bool" where
  "linked c sv \<longleftrightarrow>
     (\<forall>m s. cl_send c m s = (None, s @ [m])) \<and> retry_documented (cl_retry c) \<and>
     codec_ok (cl_codec c) \<and> codec_total (cl_codec c) \<and> disk (cl_os c) \<and>
     disk (rv_os sv) \<and> rv_codec sv = cl_codec c \<and> rv_md5 sv = cl_md5 c"

lemma linkedD:
  assumes "linked c sv"
  shows "cl_send c m s = (None, s @ [m])" "retry_documented (cl_retry c)" "codec_ok (cl_codec c)"
    "codec_total (cl_codec c)" "disk (cl_os c)" "disk (rv_os sv)" "rv_codec sv = cl_codec c" "rv_md5 sv = cl_md5 c"
  using assms by (auto simp: linked_def)

lemma pack_kanbanE:
  assumes "linked c sv"
  obtains a where "pack_kanban (cl_codec c) m = Inr a" "unpack_kanban (cl_codec c) (Some a) = Inr m"
  using linkedD(3,4) [OF assms] by (metis codec_okD(1) codec_total_def)

lemma pack_fileE:
  assumes "linked c sv"
  obtains a where "pack_file (cl_codec c) m = Inr a" "unpack_file (cl_codec c) (Some a) = Inr m"
  using linkedD(3,4) [OF assms] by (metis codec_okD(2) codec_total_def)

lemma pack_dirE:
  assumes "linked c sv"
  obtains a where "pack_dir (cl_codec c) m = Inr a" "unpack_dir (cl_codec c) (Some a) = Inr m"
  using linkedD(3,4) [OF assms] by (metis codec_okD(3) codec_total_def)

lemma pack_chunkE:
  assumes "linked c sv"
  obtains a where "pack_chunk (cl_codec c) m = Inr a" "unpack_chunk (cl_codec c) (Some a) = Inr m"
  using linkedD(3,4) [OF assms] by (metis codec_okD(4) codec_total_def)

lemma pack_streamE:
  assumes "linked c sv"
  obtains a where "pack_stream (cl_codec c) m = Inr a" "unpack_stream (cl_codec c) (Some a) = Inr m"
  using linkedD(3,4) [OF assms] by (metis codec_okD(5) codec_total_def)

lemma sendToServer_linked:
  assumes "linked c sv"
  shows "sendToServer c m s = (None, s @ [m])"
proof -
  have "attempts connRetryCount (cl_send c m) s = (True, s @ [m])"
    by (simp add: connRetryCount_def numeral_eq_Suc linkedD(1) [OF assms])
  with retry_documentedD(1,2) [OF linkedD(2) [OF assms], of connRetryCount "cl_send c m" s]
  show ?thesis by (simp add: sendToServer_def connRetryCount_def prod_eq_iff)
qed

section \<open>The content of a file\<close>

lemma GetChunk_linked:
  assumes "linked c sv" "bg_file f = Some d" "bg_rest f \<noteq> []"
  shows "\<exists>b r. GetChunk (cl_os c) chunkSize f = (ReadBytes b, f\<lparr>bg_rest := r\<rparr>) \<and> bg_rest f = b @ r"
proof -
  obtain x r where rf: "read_file (cl_os c) chunkSize (bg_rest f) = (x, r)" by fastforce
  have "x \<noteq> ReadEOF" using rf read_file_EOF [of "cl_os c" chunkSize "bg_rest f"] assms(3) by auto
  moreover have "x \<noteq> ReadError"
    using rf disk.read_ok [OF linkedD(5) [OF assms(1)], of "bg_rest f"] assms(3)
    by (auto simp: read_file_def Let_def split: option.splits)
  ultimately obtain b where "x = ReadBytes b" by (cases x) auto
  with rf assms(2) read_file_Bytes [of "cl_os c" chunkSize "bg_rest f" b r]
  show ?thesis by (auto simp: GetChunk_def)
qed

text \<open>The receiver's loop collects what the sender's loop has cut into chunks.\<close>

lemma content_linked:
  assumes "linked c sv" "bg_file f = Some d"
  shows "\<exists>n' ms. content_loop c f n s = (Inr n', f\<lparr>bg_rest := []\<rparr>, s @ ms) \<and>
    (\<forall>fi out fb rest g. PathBase (rb_relPath fb) = bg_fileName f \<longrightarrow> rb_expectRefNum fb = n \<longrightarrow>
       file_loop sv fi out fb (ms @ rest) g =
       file_loop sv fi out (fb\<lparr>rb_fileStack := rb_fileStack fb @ bg_rest f, rb_expectRefNum := n'\<rparr>) rest g)"
  using assms(2)
proof (induction "length (bg_rest f)" arbitrary: f n s rule: less_induct)
  case less
  show ?case
  proof (cases "bg_rest f = []")
    case True
    then have "f\<lparr>bg_rest := []\<rparr> = f" by simp
    moreover from True less.prems have "GetChunk (cl_os c) chunkSize f = (ReadEOF, f\<lparr>bg_rest := []\<rparr>)"
      by (simp add: GetChunk_def read_file_def)
    ultimately show ?thesis
      using True by (subst content_loop.simps) (intro exI [of _ n] exI [of _ "[]"], auto)
  next
    case False
    obtain b r where gc: "GetChunk (cl_os c) chunkSize f = (ReadBytes b, f\<lparr>bg_rest := r\<rparr>)"
      and br: "bg_rest f = b @ r"
      using GetChunk_linked [OF assms(1) less.prems False] by blast
    let ?f = "f\<lparr>bg_rest := r\<rparr>"
    obtain a where a: "pack_chunk (cl_codec c) \<lparr>ck_Context = b, ck_Name = bg_fileName f, ck_RefNum = n\<rparr> = Inr a"
      "unpack_chunk (cl_codec c) (Some a) = Inr \<lparr>ck_Context = b, ck_Name = bg_fileName f, ck_RefNum = n\<rparr>"
      using pack_chunkE [OF assms(1)] by blast
    let ?m = "\<lparr>sc_Code = SendingFile_CONT, sc_Context = Some a\<rparr>"
    have send: "sendFileChunk c b (Name ?f) n s = (None, s @ [?m])"
      by (simp add: sendFileChunk_def createRequestChunkFile_def Name_def a(1) sendToServer_linked [OF assms(1)])
    have "length (bg_rest ?f) < length (bg_rest f)" using GetChunk_Bytes_length [OF gc] by simp
    then obtain n' ms where rest: "content_loop c ?f (n + 1) (s @ [?m]) = (Inr n', ?f\<lparr>bg_rest := []\<rparr>, (s @ [?m]) @ ms)"
      and recv: "\<And>fi out fb rest g. PathBase (rb_relPath fb) = bg_fileName f \<Longrightarrow> rb_expectRefNum fb = n + 1 \<Longrightarrow>
        file_loop sv fi out fb (ms @ rest) g =
        file_loop sv fi out (fb\<lparr>rb_fileStack := rb_fileStack fb @ r, rb_expectRefNum := n'\<rparr>) rest g"
      using less.hyps [of ?f "n + 1" "s @ [?m]"] less.prems by auto
    have loop: "content_loop c f n s = (Inr n', f\<lparr>bg_rest := []\<rparr>, s @ (?m # ms))"
      using rest by (subst content_loop.simps) (simp add: gc send)
    have one: "receiveFileCont (rv_codec sv) ?m fb = Inr (enqueue b fb)"
      if "PathBase (rb_relPath fb) = bg_fileName f" "rb_expectRefNum fb = n" for fb
      using that by (simp add: receiveFileCont_def linkedD(7) [OF assms(1)] a(2))
    have "file_loop sv fi out fb ((?m # ms) @ rest) g =
       file_loop sv fi out (fb\<lparr>rb_fileStack := rb_fileStack fb @ bg_rest f, rb_expectRefNum := n'\<rparr>) rest g"
      if h: "PathBase (rb_relPath fb) = bg_fileName f" "rb_expectRefNum fb = n" for fi out fb rest g
      using recv [of "enqueue b fb" fi out rest g] h by (simp add: one [OF h] enqueue_def br)
    with loop show ?thesis by blast
  qed
qed

section \<open>One file\<close>

text \<open>A file that the sender has opened, with content d, under a plain name.\<close>

definition sendable_file :: "baggage_file \<Rightarrow> string \<Rightarrow> bytes \<Rightarrow> bool" where
  "sendable_file f n d \<longleftrightarrow>
     bg_file f = Some d \<and> bg_rest f = d \<and> bg_hash f = None \<and> bg_fileName f = n \<and> plain_name n \<and>
     0 \<le> sint (bg_size f) \<and> sint (bg_size f) \<le> maxAlloc"

text \<open>Where the receiver has room for a file: the directory can be made and the name is not a directory's.\<close>

definition room :: "'g os_api \<Rightarrow> 'g \<Rightarrow> string list \<Rightarrow> string \<Rightarrow> bool" where
  "room os g ns n \<longleftrightarrow>
     (os_stat os g (abs_path ns) = NotExist \<or> os_stat os g (abs_path ns) = Stat ModeDir) \<and>
     (os_stat os g (abs_path (ns @ [n])) = NotExist \<or> os_stat os g (abs_path (ns @ [n])) = Stat ModeRegular)"

text \<open>A disk after a file has been stored: the directory is there, the other files are as they were.\<close>

definition stored :: "'g os_api \<Rightarrow> 'g \<Rightarrow> string list \<Rightarrow> string \<Rightarrow> bytes \<Rightarrow> 'g \<Rightarrow> bool" where
  "stored os g ns n d g' \<longleftrightarrow>
     os_stat os g' (abs_path ns) = Stat ModeDir \<and>
     os_stat os g' (abs_path (ns @ [n])) = Stat ModeRegular \<and> os_open os g' (abs_path (ns @ [n])) = Inr d \<and>
     (\<forall>q. q \<noteq> abs_path (ns @ [n]) \<longrightarrow>
        (os_stat os g q = Stat ModeRegular \<longrightarrow> os_stat os g' q = Stat ModeRegular \<and> os_open os g' q = os_open os g q) \<and>
        (os_stat os g q = Stat ModeDir \<longrightarrow> os_stat os g' q = Stat ModeDir) \<and>
        (os_stat os g q = NotExist \<longrightarrow> os_stat os g' q = NotExist \<or> os_stat os g' q = Stat ModeDir) \<and>
        (os_stat os g q = NotExist \<longrightarrow> \<not> above q (abs_path ns) \<longrightarrow> os_stat os g' q = NotExist))"

lemma storedD:
  assumes "stored os g ns n d g'"
  shows "os_stat os g' (abs_path ns) = Stat ModeDir"
    "os_stat os g' (abs_path (ns @ [n])) = Stat ModeRegular" "os_open os g' (abs_path (ns @ [n])) = Inr d"
    "q \<noteq> abs_path (ns @ [n]) \<Longrightarrow> os_stat os g q = Stat ModeRegular \<Longrightarrow>
       os_stat os g' q = Stat ModeRegular \<and> os_open os g' q = os_open os g q"
    "q \<noteq> abs_path (ns @ [n]) \<Longrightarrow> os_stat os g q = Stat ModeDir \<Longrightarrow> os_stat os g' q = Stat ModeDir"
    "q \<noteq> abs_path (ns @ [n]) \<Longrightarrow> os_stat os g q = NotExist \<Longrightarrow> \<not> above q (abs_path ns) \<Longrightarrow>
       os_stat os g' q = NotExist"
    "q \<noteq> abs_path (ns @ [n]) \<Longrightarrow> os_stat os g q = NotExist \<Longrightarrow>
       os_stat os g' q = NotExist \<or> os_stat os g' q = Stat ModeDir"
  using assms unfolding stored_def by blast+

lemma not_prefix_longer: "\<not> has_prefix p (p @ x # xs)"
  by (auto simp: has_prefix_iff)

lemma abs_path_snoc: "ns \<noteq> [] \<Longrightarrow> abs_path (ns @ [n]) = abs_path ns @ slash # n"
  by (simp add: abs_path_def join_snoc)

lemma ensure_dir_disk:
  assumes "disk os" "room os g ns n" "ns \<noteq> []"
  shows "\<exists>g1. ensure_dir os (os_mkdirall os) (abs_path ns) g = Inr g1 \<and> room os g1 ns n \<and>
    os_stat os g1 (abs_path ns) = Stat ModeDir \<and>
    (\<forall>q. (os_stat os g q = Stat ModeRegular \<longrightarrow> os_stat os g1 q = Stat ModeRegular \<and> os_open os g1 q = os_open os g q) \<and>
        (os_stat os g q = Stat ModeDir \<longrightarrow> os_stat os g1 q = Stat ModeDir) \<and>
        (os_stat os g q = NotExist \<longrightarrow> os_stat os g1 q = NotExist \<or> os_stat os g1 q = Stat ModeDir) \<and>
        (os_stat os g q = NotExist \<longrightarrow> \<not> above q (abs_path ns) \<longrightarrow> os_stat os g1 q = NotExist))"
proof (cases "os_stat os g (abs_path ns) = Stat ModeDir")
  case True
  with assms(2) show ?thesis by (simp add: ensure_dir_def)
next
  case False
  let ?g = "os_mkdirall os g (abs_path ns)"
  from False assms(2) have ne: "os_stat os g (abs_path ns) = NotExist" by (simp add: room_def)
  have np: "\<not> above (abs_path (ns @ [n])) (abs_path ns)"
    by (auto simp: above_def abs_path_snoc [OF assms(3)] not_prefix_longer)
  have dir: "os_stat os ?g (abs_path ns) = Stat ModeDir" by (rule disk.mkdirall [OF assms(1) ne])
  moreover have "room os ?g ns n"
    using assms(2) dir disk.mkdirall_other [OF assms(1) _ np, of g] disk.mkdirall_file [OF assms(1), of g _ "abs_path ns"]
    by (auto simp: room_def)
  ultimately show ?thesis
    using ne disk.mkdirall_other [OF assms(1)] disk.mkdirall_new [OF assms(1)] disk.mkdirall_file [OF assms(1)] disk.mkdirall_dir [OF assms(1)]
    by (simp add: ensure_dir_def)
qed

lemma write_disk:
  assumes "disk os" "room os g ns n" "os_stat os g (abs_path ns) = Stat ModeDir"
    "\<forall>m \<in> set ns. plain_name m" "plain_name n" "ns \<noteq> []"
  shows "\<exists>g1 g2. os_create os g (abs_path (ns @ [n])) = Inr g1 \<and>
    os_write os g1 (abs_path (ns @ [n])) d = (None, g2) \<and> stored os g ns n d g2"
proof -
  let ?p = "abs_path (ns @ [n])"
  have "os_stat os g (PathDir ?p) = Stat ModeDir" using assms(3) by (simp add: PathDir_abs [OF assms(4,5)])
  then obtain g1 where g1: "os_create os g ?p = Inr g1"
    using disk.create [OF assms(1), of g ?p] assms(2) by (auto simp: room_def)
  have ne: "abs_path ns \<noteq> ?p" by (simp add: abs_path_snoc [OF assms(6)])
  obtain g2 where g2: "os_write os g1 ?p d = (None, g2)"
    using disk.write_self [OF assms(1) g1, of d] by (cases "os_write os g1 ?p d") auto
  have "stored os g ns n d g2"
    using disk.write_self [OF assms(1) g1, of d] disk.write_other [OF assms(1) g1, of _ d] ne assms(3)
    by (simp add: stored_def g2)
  with g1 g2 show ?thesis by blast
qed

lemma info_linked:
  assumes "linked c sv" "bg_file f = Some d" "bg_hash f = None \<or> bg_hash f = Some (cl_md5 c d)"
  shows "\<exists>a f'. createFileInfo_msg c f rd cnt code s = (None, f', s @ [\<lparr>sc_Code = code, sc_Context = Some a\<rparr>]) \<and>
    unpack_file (cl_codec c) (Some a) = Inr \<lparr>fi_Size = bg_size f, fi_ChunkCnt = cnt, fi_Hash = cl_md5 c d,
      fi_Name = bg_fileName f, fi_RelDir = rd\<rparr> \<and>
    bg_file f' = Some d \<and> bg_hash f' = Some (cl_md5 c d) \<and> bg_fileName f' = bg_fileName f \<and> bg_size f' = bg_size f \<and>
    (bg_hash f = None \<longrightarrow> bg_rest f' = d)"
proof -
  have ra: "read_all (cl_os c) d = Some d" by (rule disk.read_all [OF linkedD(5) [OF assms(1)]])
  obtain f' where f': "Hash (cl_md5 c) (cl_os c) f = (Inr (cl_md5 c d), f')" "bg_file f' = Some d"
    "bg_hash f' = Some (cl_md5 c d)" "bg_fileName f' = bg_fileName f" "bg_size f' = bg_size f"
    "bg_hash f = None \<longrightarrow> bg_rest f' = d"
    using assms(2,3) ra by (cases "cl_md5 c d = []") (auto simp: Hash_def compute_hash_def)
  obtain a where "pack_file (cl_codec c) \<lparr>fi_Size = bg_size f, fi_ChunkCnt = cnt, fi_Hash = cl_md5 c d,
      fi_Name = bg_fileName f, fi_RelDir = rd\<rparr> = Inr a"
    "unpack_file (cl_codec c) (Some a) = Inr \<lparr>fi_Size = bg_size f, fi_ChunkCnt = cnt, fi_Hash = cl_md5 c d,
      fi_Name = bg_fileName f, fi_RelDir = rd\<rparr>"
    using pack_fileE [OF assms(1)] by blast
  with f' show ?thesis
    by (simp add: createFileInfo_msg_def Size_def Name_def sendToServer_linked [OF assms(1)])
qed

text \<open>The end of a file: what has been collected is written and its digest compared.\<close>

lemma receiveEOF_disk:
  assumes "disk (rv_os sv)" "unpack_file (rv_codec sv) (sc_Context m) = Inr fe"
    "fi_RelDir fe = ''.''" "fi_Name fe = n" "rb_relPath fb = n" "fi_Hash fi = rv_md5 sv (rb_fileStack fb)"
    "room (rv_os sv) g ns n" "\<forall>k \<in> set ns. plain_name k" "plain_name n" "ns \<noteq> []"
  shows "\<exists>g'. receiveEOF sv m fi fb (abs_path ns) g = (None, g') \<and> stored (rv_os sv) g ns n (rb_fileStack fb) g'"
proof -
  let ?os = "rv_os sv" and ?p = "abs_path (ns @ [n])" and ?d = "rb_fileStack fb"
  obtain g1 where g1: "ensure_dir ?os (os_mkdirall ?os) (abs_path ns) g = Inr g1" "room ?os g1 ns n"
    "os_stat ?os g1 (abs_path ns) = Stat ModeDir"
    and keep: "\<And>q. (os_stat ?os g q = Stat ModeRegular \<longrightarrow> os_stat ?os g1 q = Stat ModeRegular \<and> os_open ?os g1 q = os_open ?os g q) \<and>
        (os_stat ?os g q = Stat ModeDir \<longrightarrow> os_stat ?os g1 q = Stat ModeDir) \<and>
        (os_stat ?os g q = NotExist \<longrightarrow> os_stat ?os g1 q = NotExist \<or> os_stat ?os g1 q = Stat ModeDir) \<and>
        (os_stat ?os g q = NotExist \<longrightarrow> \<not> above q (abs_path ns) \<longrightarrow> os_stat ?os g1 q = NotExist)"
    using ensure_dir_disk [OF assms(1,7,10)] by blast
  obtain g2 g3 where wr: "os_create ?os g1 ?p = Inr g2" "os_write ?os g2 ?p ?d = (None, g3)"
    and st: "stored ?os g1 ns n ?d g3"
    using write_disk [OF assms(1) g1(2,3) assms(8-10)] by blast
  have jn: "PathJoin [abs_path ns, n] = ?p" by (rule Join_name [OF assms(8,9)])
  have "getMD5 sv ?d = rv_md5 sv ?d" by (simp add: getMD5_def disk.read_all [OF assms(1)])
  then have "receiveEOF sv m fi fb (abs_path ns) g = (None, g3)"
    using storedD(3) [OF st]
    by (simp add: receiveEOF_def assms(2-6) Join_dot [OF assms(8)] jn g1(1) dequeue_def wr)
  moreover have "stored ?os g ns n ?d g3"
    unfolding stored_def
  proof (intro conjI allI impI)
    fix q assume q: "q \<noteq> ?p" "os_stat ?os g q = Stat ModeRegular"
    with keep have "os_stat ?os g1 q = Stat ModeRegular" "os_open ?os g1 q = os_open ?os g q" by auto
    with storedD(4) [OF st q(1)] show "os_stat ?os g3 q = Stat ModeRegular" "os_open ?os g3 q = os_open ?os g q" by auto
  next
    fix q assume "q \<noteq> ?p" "os_stat ?os g q = Stat ModeDir"
    with keep storedD(5) [OF st] show "os_stat ?os g3 q = Stat ModeDir" by auto
  next
    fix q assume "q \<noteq> ?p" "os_stat ?os g q = NotExist" "\<not> above q (abs_path ns)"
    with keep storedD(6) [OF st] show "os_stat ?os g3 q = NotExist" by auto
  next
    fix q assume q: "q \<noteq> ?p" "os_stat ?os g q = NotExist"
    with keep have "os_stat ?os g1 q = NotExist \<or> os_stat ?os g1 q = Stat ModeDir" by auto
    with storedD(5,7) [OF st q(1)] show "os_stat ?os g3 q = NotExist \<or> os_stat ?os g3 q = Stat ModeDir" by auto
  qed (rule storedD(1-3) [OF st])+
  ultimately show ?thesis by blast
qed

text \<open>The wire format of one file as the receiver reads it.\<close>

definition file_arrives ::
  "('a, 'g) server \<Rightarrow> string \<Rightarrow> bytes \<Rightarrow> 'a SendContext \<Rightarrow> 'a messages \<Rightarrow> bool" where
  "file_arrives sv n d m ms \<longleftrightarrow> sc_Code m = SendingFile_Info \<and>
     (\<forall>ns rest g. ns \<noteq> [] \<longrightarrow> (\<forall>k \<in> set ns. plain_name k) \<longrightarrow> room (rv_os sv) g ns n \<longrightarrow>
        (\<exists>g'. receiveFileInfo sv m (abs_path ns) (ms @ rest) g
            = (Inr \<lparr>of_dirName = ''.'', of_path = abs_path (ns @ [n])\<rparr>, rest, g') \<and>
           stored (rv_os sv) g ns n d g'))"

text \<open>The messages of one file: its information, its chunks and the end mark.\<close>

lemma file_wire:
  assumes lk: "linked c sv" and sf: "sendable_file f n d"
  obtains a ms n' b cnt where
    "sendFile c f rd s = (Inr \<lparr>sf_dirName = n, sf_relDirPath = rd\<rparr>,
       s @ \<lparr>sc_Code = SendingFile_Info, sc_Context = Some a\<rparr> # (ms @ [\<lparr>sc_Code = SendingFile_EOF, sc_Context = Some b\<rparr>]))"
    "unpack_file (rv_codec sv) (Some a) = Inr \<lparr>fi_Size = bg_size f, fi_ChunkCnt = cnt, fi_Hash = cl_md5 c d,
       fi_Name = n, fi_RelDir = rd\<rparr>"
    "unpack_file (rv_codec sv) (Some b) = Inr \<lparr>fi_Size = bg_size f, fi_ChunkCnt = n', fi_Hash = cl_md5 c d,
       fi_Name = n, fi_RelDir = rd\<rparr>"
    "\<And>fi out fb rest g. PathBase (rb_relPath fb) = n \<Longrightarrow> rb_expectRefNum fb = 0 \<Longrightarrow>
       file_loop sv fi out fb (ms @ rest) g =
       file_loop sv fi out (fb\<lparr>rb_fileStack := rb_fileStack fb @ d, rb_expectRefNum := n'\<rparr>) rest g"
proof -
  have f: "bg_file f = Some d" "bg_rest f = d" "bg_hash f = None" "bg_fileName f = n"
    using sf by (auto simp: sendable_file_def)
  let ?cnt = "to_int32 (sint (Size f) div int chunkSize)"
  obtain a f1 where i1: "createFileInfo_msg c f rd ?cnt SendingFile_Info s
      = (None, f1, s @ [\<lparr>sc_Code = SendingFile_Info, sc_Context = Some a\<rparr>])"
    and ua: "unpack_file (cl_codec c) (Some a) = Inr \<lparr>fi_Size = bg_size f, fi_ChunkCnt = ?cnt, fi_Hash = cl_md5 c d,
      fi_Name = n, fi_RelDir = rd\<rparr>"
    and f1: "bg_file f1 = Some d" "bg_hash f1 = Some (cl_md5 c d)" "bg_fileName f1 = n" "bg_size f1 = bg_size f" "bg_rest f1 = d"
    using info_linked [OF lk f(1) disjI1 [OF f(3)], of rd ?cnt SendingFile_Info s] f(3,4) by auto
  let ?s1 = "s @ [\<lparr>sc_Code = SendingFile_Info, sc_Context = Some a\<rparr>]"
  obtain n' ms where c2: "content_loop c f1 0 ?s1 = (Inr n', f1\<lparr>bg_rest := []\<rparr>, ?s1 @ ms)"
    and recv: "\<And>fi out fb rest g. PathBase (rb_relPath fb) = n \<Longrightarrow> rb_expectRefNum fb = 0 \<Longrightarrow>
       file_loop sv fi out fb (ms @ rest) g =
       file_loop sv fi out (fb\<lparr>rb_fileStack := rb_fileStack fb @ d, rb_expectRefNum := n'\<rparr>) rest g"
    using content_linked [OF lk f1(1), of 0 ?s1] f1(3,5) by auto
  have f2: "bg_file (f1\<lparr>bg_rest := []\<rparr>) = Some d" "bg_hash (f1\<lparr>bg_rest := []\<rparr>) = Some (cl_md5 c d)"
    "bg_fileName (f1\<lparr>bg_rest := []\<rparr>) = n" using f1 by simp_all
  obtain b f3 where i3: "createFileInfo_msg c (f1\<lparr>bg_rest := []\<rparr>) rd n' SendingFile_EOF (?s1 @ ms)
      = (None, f3, (?s1 @ ms) @ [\<lparr>sc_Code = SendingFile_EOF, sc_Context = Some b\<rparr>])"
    and ub: "unpack_file (cl_codec c) (Some b) = Inr \<lparr>fi_Size = bg_size f1, fi_ChunkCnt = n', fi_Hash = cl_md5 c d,
      fi_Name = n, fi_RelDir = rd\<rparr>"
    and f3: "bg_fileName f3 = n"
    using info_linked [OF lk f2(1) disjI2 [OF f2(2)], of rd n' SendingFile_EOF "?s1 @ ms"] f2(3) by auto
  have "sendFile c f rd s = (Inr \<lparr>sf_dirName = n, sf_relDirPath = rd\<rparr>,
      s @ \<lparr>sc_Code = SendingFile_Info, sc_Context = Some a\<rparr> # (ms @ [\<lparr>sc_Code = SendingFile_EOF, sc_Context = Some b\<rparr>]))"
    using f(1) f3 by (simp add: sendFile_def IsExist_def sendFileInfo_def i1 sendFileContent_def c2 [simplified] sendEOF_def i3 [simplified] Name_def)
  then show thesis
    using that ua ub recv f1(4) linkedD(7) [OF lk] by metis
qed

lemma file_linked:
  assumes lk: "linked c sv" and sf: "sendable_file f n d"
  shows "\<exists>m ms. sendFile c f ''.'' s = (Inr \<lparr>sf_dirName = n, sf_relDirPath = ''.''\<rparr>, s @ m # ms) \<and> file_arrives sv n d m ms"
proof -
  have n: "plain_name n" "0 \<le> sint (bg_size f)" "sint (bg_size f) \<le> maxAlloc"
    using sf by (auto simp: sendable_file_def)
  obtain a ms n' b cnt where send: "sendFile c f ''.'' s = (Inr \<lparr>sf_dirName = n, sf_relDirPath = ''.''\<rparr>,
       s @ \<lparr>sc_Code = SendingFile_Info, sc_Context = Some a\<rparr> # (ms @ [\<lparr>sc_Code = SendingFile_EOF, sc_Context = Some b\<rparr>]))"
    and ua: "unpack_file (rv_codec sv) (Some a) = Inr \<lparr>fi_Size = bg_size f, fi_ChunkCnt = cnt, fi_Hash = cl_md5 c d,
       fi_Name = n, fi_RelDir = ''.''\<rparr>"
    and ub: "unpack_file (rv_codec sv) (Some b) = Inr \<lparr>fi_Size = bg_size f, fi_ChunkCnt = n', fi_Hash = cl_md5 c d,
       fi_Name = n, fi_RelDir = ''.''\<rparr>"
    and recv: "\<And>fi out fb rest g. PathBase (rb_relPath fb) = n \<Longrightarrow> rb_expectRefNum fb = 0 \<Longrightarrow>
       file_loop sv fi out fb (ms @ rest) g =
       file_loop sv fi out (fb\<lparr>rb_fileStack := rb_fileStack fb @ d, rb_expectRefNum := n'\<rparr>) rest g"
    using file_wire [OF lk sf] by metis
  let ?m = "\<lparr>sc_Code = SendingFile_Info, sc_Context = Some a\<rparr>"
  let ?e = "\<lparr>sc_Code = SendingFile_EOF, sc_Context = Some b\<rparr>"
  have "\<exists>g'. receiveFileInfo sv ?m (abs_path ns) ((ms @ [?e]) @ rest) g
            = (Inr \<lparr>of_dirName = ''.'', of_path = abs_path (ns @ [n])\<rparr>, rest, g') \<and> stored (rv_os sv) g ns n d g'"
    if ns: "ns \<noteq> []" "\<forall>k \<in> set ns. plain_name k" "room (rv_os sv) g ns n" for ns rest g
  proof -
    let ?fi = "\<lparr>fi_Size = bg_size f, fi_ChunkCnt = cnt, fi_Hash = cl_md5 c d, fi_Name = n, fi_RelDir = ''.''\<rparr>"
    let ?fb = "\<lparr>rb_relPath = n, rb_size = bg_size f, rb_fileStack = [], rb_expectRefNum = 0\<rparr>"
    let ?fb' = "?fb\<lparr>rb_fileStack := d, rb_expectRefNum := n'\<rparr>"
    have new: "newReceivingFileBuilder ?fi = Inr ?fb"
      using n by (simp add: newReceivingFileBuilder_def make_slice_def dot_Join)
    obtain g' where g': "receiveEOF sv ?e ?fi ?fb' (abs_path ns) g = (None, g')" "stored (rv_os sv) g ns n d g'"
      using receiveEOF_disk [OF linkedD(6) [OF lk], of ?e _ n ?fb' ?fi g ns] ub ns n(1) linkedD(8) [OF lk] by auto
    have "file_loop sv ?fi (abs_path ns) ?fb ((ms @ [?e]) @ rest) g = (Inr ?fb', rest, g')"
      using recv [of ?fb ?fi "abs_path ns" "?e # rest" g] PathBase_plain [OF n(1)] g'(1) by simp
    then have "receiveFileInfo sv ?m (abs_path ns) ((ms @ [?e]) @ rest) g
        = (Inr \<lparr>of_dirName = ''.'', of_path = abs_path (ns @ [n])\<rparr>, rest, g')"
      using ua by (simp add: receiveFileInfo_def downloadFile_def new PathDir_plain [OF n(1)]
          getAbsPath_def not_IsAbs_plain [OF n(1)] Join_name [OF ns(2) n(1)])
    with g'(2) show ?thesis by blast
  qed
  then have "file_arrives sv n d ?m (ms @ [?e])" by (simp add: file_arrives_def)
  with send show ?thesis by blast
qed

section \<open>An example\<close>

definition ex_client :: "(wire, ref_disk, wire messages) client" where
  "ex_client = \<lparr>cl_codec = ref_codec, cl_os = ref_os,
     cl_fs = [(''/aion'', None), (''/aion/a'', Some [1, 2, 3, 4]), (''/aion/d'', None), (''/aion/d/b'', Some [5]), (''/aion/d/c'', Some [])],
     cl_md5 = (\<lambda>d. [of_nat (length d)]), cl_home = ''/aion'',
     cl_send = (\<lambda>m s. (None, s @ [m])), cl_retry = ref_retry\<rparr>"

definition ex_server :: "(wire, ref_disk) server" where
  "ex_server = \<lparr>rv_codec = ref_codec, rv_os = ref_os, rv_md5 = (\<lambda>d. [of_nat (length d)]), rv_dataDir = ''/data''\<rparr>"

definition ex_sent :: SendKanban where
  "ex_sent = \<lparr>sd_DeviceName = ''x'', sd_DeviceAddr = ''y'', sd_NextService = ''s'', sd_NextNumber = 1,
     sd_AfterKanban = Some \<lparr>sk_StartAt = '''', sk_FinishAt = '''', sk_NextDeviceName = '''', sk_ConnectionKey = ''k'',
       sk_ProcessNumber = 1, sk_PriorSuccess = True, sk_DataPath = '''', sk_FileList = [''a'', ''d''], sk_Metadata = None\<rparr>\<rparr>"

lemma ex_linked: "linked ex_client ex_server"
  by (simp add: linked_def ex_client_def ex_server_def ref_codec_ok ref.disk_axioms)
    (simp add: codec_total_def ref_codec_def)

lemmas ex_send_defs = ex_client_def ex_server_def ex_sent_def ref_codec_def ref_os_def

end
