(* ===== verification/Delivery.thy ===== *)
theory Delivery
  imports SendAnything
begin

text \<open>
  The transfer of a kanban with all its files: what the receiver makes of the messages of
  several files and of directories whose files lie directly in them. The targets of a
  transfer are the directories and names under which the receiver stores its files.
\<close>

section \<open>Storing several files\<close>

type_synonym target = "string list \<times> string \<times> bytes"

fun target_path :: "target \<Rightarrow> string list" where
  "target_path (ns, n, d) = ns @ [n]"

fun has_room :: "'g os_api \<Rightarrow> 'g \<Rightarrow> target \<Rightarrow> bool" where
  "has_room os g (ns, n, d) \<longleftrightarrow> room os g ns n"

fun store_seq :: "'g os_api \<Rightarrow> 'g \<Rightarrow> target list \<Rightarrow> 'g \<Rightarrow> bool" where
  "store_seq os g [] g' \<longleftrightarrow> g' = g"
| "store_seq os g ((ns, n, d) # xs) g' \<longleftrightarrow> (\<exists>h. stored os g ns n d h \<and> store_seq os h xs g')"

fun plain_target :: "target \<Rightarrow> bool" where
  "plain_target (ns, n, d) \<longleftrightarrow> ns \<noteq> [] \<and> (\<forall>k \<in> set ns. plain_name k) \<and> plain_name n"

text \<open>No file is stored twice, and none where another one needs a directory.\<close>

definition targets_ok :: "target list \<Rightarrow> bool" where
  "targets_ok xs \<longleftrightarrow>
     (\<forall>x \<in> set xs. plain_target x) \<and> distinct (map target_path xs) \<and>
     (\<forall>x \<in> set xs. \<forall>y \<in> set xs. \<nexists>ks. fst y = target_path x @ ks)"

lemma targets_ok_tl: "targets_ok (x # xs) \<Longrightarrow> targets_ok xs"
  by (simp add: targets_ok_def)

lemma store_seq_append:
  "store_seq os g (xs @ ys) g' \<longleftrightarrow> (\<exists>h. store_seq os g xs h \<and> store_seq os h ys g')"
  by (induction os g xs g' rule: store_seq.induct) auto

lemma targets_okD:
  assumes "targets_ok ((ns, n, d) # xs)" "(ms, m, e) \<in> set xs"
  shows "plain_target (ns, n, d)" "plain_target (ms, m, e)" "ns @ [n] \<noteq> ms @ [m]"
    "ms \<noteq> (ns @ [n]) @ ks" "ns \<noteq> (ms @ [m]) @ ks"
proof -
  note ok = assms(1) [unfolded targets_ok_def]
  from ok show "plain_target (ns, n, d)" by (simp del: plain_target.simps)
  from ok assms(2) show "plain_target (ms, m, e)" by (auto simp del: plain_target.simps)
  from ok have "ns @ [n] \<notin> target_path ` set xs" by simp
  with assms(2) show "ns @ [n] \<noteq> ms @ [m]" by force
  have sub: "(ns, n, d) \<in> set ((ns, n, d) # xs)" "(ms, m, e) \<in> set ((ns, n, d) # xs)" using assms(2) by auto
  from ok have "\<forall>x \<in> set ((ns, n, d) # xs). \<forall>y \<in> set ((ns, n, d) # xs). \<nexists>ks. fst y = target_path x @ ks"
    by blast
  from this [rule_format, OF sub] this [rule_format, OF sub(2,1)]
  show "ms \<noteq> (ns @ [n]) @ ks" "ns \<noteq> (ms @ [m]) @ ks" by auto
qed

text \<open>Storing a file leaves the room of the other targets.\<close>

lemma room_stored:
  assumes "stored os g ns n d h" "room os g ms m" "targets_ok ((ns, n, d) # xs)" "(ms, m, e) \<in> set xs"
  shows "room os h ms m"
proof -
  let ?p = "abs_path (ns @ [n])" and ?q = "abs_path (ms @ [m])"
  note tg = targets_okD [OF assms(3,4)]
  have ok: "\<forall>k \<in> set (ns @ [n]). plain_name k" "\<forall>k \<in> set (ms @ [m]). plain_name k"
    using tg(1,2) by auto
  have plain: "\<forall>k \<in> set ns. plain_name k" "\<forall>k \<in> set ms. plain_name k" using ok(1,2) by auto
  have qp: "?q \<noteq> ?p" using abs_path_inj [OF ok(2,1)] tg(3) [symmetric] by blast
  have "ms \<noteq> ns @ [n]" using tg(4) [of "[]"] by simp
  then have dp: "abs_path ms \<noteq> ?p" using abs_path_inj [OF plain(2) ok(1)] by simp
  have na: "\<not> above ?q (abs_path ns)" using above_abs [OF ok(2) plain(1)] tg(5) by blast
  have "os_stat os h (abs_path ms) = NotExist \<or> os_stat os h (abs_path ms) = Stat ModeDir"
    using assms(2) storedD(5,7) [OF assms(1) dp] unfolding room_def by blast
  moreover have "os_stat os h ?q = NotExist \<or> os_stat os h ?q = Stat ModeRegular"
    using assms(2) storedD(4,6) [OF assms(1) qp] na unfolding room_def by blast
  ultimately show ?thesis by (simp add: room_def)
qed

lemma has_room_stored:
  assumes "stored os g ns n d h" "\<forall>x \<in> set xs. has_room os g x" "targets_ok ((ns, n, d) # xs)"
  shows "\<forall>x \<in> set xs. has_room os h x"
proof
  fix x assume x: "x \<in> set xs"
  obtain ms m e where "x = (ms, m, e)" by (cases x)
  with x assms(2) room_stored [OF assms(1) _ assms(3), of ms m e] show "has_room os h x" by auto
qed

text \<open>At the end every file has its content.\<close>

lemma store_seq_keeps:
  assumes "store_seq os g xs g'" "\<forall>x \<in> set xs. abs_path (target_path x) \<noteq> q"
    "os_stat os g q = Stat ModeRegular"
  shows "os_stat os g' q = Stat ModeRegular \<and> os_open os g' q = os_open os g q"
  using assms
proof (induction os g xs g' rule: store_seq.induct)
  case (2 os g ns n d xs g')
  then obtain h where h: "stored os g ns n d h" "store_seq os h xs g'" by auto
  have q: "q \<noteq> abs_path (ns @ [n])" using 2(3) by auto
  have "os_stat os h q = Stat ModeRegular" "os_open os h q = os_open os g q"
    using storedD(4) [OF h(1) q 2(4)] by auto
  with 2(1) [OF h(2)] 2(3) show ?case by auto
qed simp

lemma store_seq_content:
  assumes "store_seq os g xs g'" "targets_ok xs" "(ns, n, d) \<in> set xs"
  shows "os_stat os g' (abs_path (ns @ [n])) = Stat ModeRegular \<and> os_open os g' (abs_path (ns @ [n])) = Inr d"
  using assms
proof (induction os g xs g' rule: store_seq.induct)
  case (2 os g ms m e xs g')
  then obtain h where h: "stored os g ms m e h" "store_seq os h xs g'" by auto
  have tl: "targets_ok xs" using 2(3) by (rule targets_ok_tl)
  show ?case
  proof (cases "(ns, n, d) \<in> set xs")
    case True
    with 2(1) [OF h(2) tl] show ?thesis by simp
  next
    case False
    with 2(4) have eq: "ns = ms" "n = m" "d = e" by auto
    have "abs_path (target_path x) \<noteq> abs_path (ms @ [m])" if "x \<in> set xs" for x
    proof -
      obtain ks k c where x: "x = (ks, k, c)" by (cases x)
      note tg = targets_okD [OF 2(3) that [unfolded x]]
      have "\<forall>j \<in> set (ks @ [k]). plain_name j" "\<forall>j \<in> set (ms @ [m]). plain_name j" "ks @ [k] \<noteq> ms @ [m]"
        using tg(1-3) by auto
      with abs_path_inj show ?thesis by (simp add: x)
    qed
    with store_seq_keeps [OF h(2), of "abs_path (ms @ [m])"] storedD(2,3) [OF h(1)] eq show ?thesis by auto
  qed
qed simp

section \<open>What is transferred\<close>

datatype item = FileItem string bytes | DirItem string "(string \<times> bytes) list"

fun item_name :: "item \<Rightarrow> string" where
  "item_name (FileItem n d) = n"
| "item_name (DirItem n nds) = n"

fun item_files :: "item \<Rightarrow> nat" where
  "item_files (FileItem n d) = 1"
| "item_files (DirItem n nds) = length nds"

fun targets :: "string list \<Rightarrow> item \<Rightarrow> target list" where
  "targets out (FileItem n d) = [(out, n, d)]"
| "targets out (DirItem dn nds) = map (\<lambda>(n, d). (out @ [dn], n, d)) nds"

text \<open>The items in the order of the list that the receiver writes: directories first.\<close>

fun is_dir :: "item \<Rightarrow> bool" where
  "is_dir (DirItem n nds) = True"
| "is_dir (FileItem n d) = False"

definition dirs_first :: "item list \<Rightarrow> item list" where
  "dirs_first its = filter is_dir its @ filter (\<lambda>i. \<not> is_dir i) its"

text \<open>The messages of several files, of an item and of several items.\<close>

fun files_arrive :: "('a, 'g) server \<Rightarrow> (string \<times> bytes) list \<Rightarrow> 'a messages \<Rightarrow> bool" where
  "files_arrive sv [] ms \<longleftrightarrow> ms = []"
| "files_arrive sv ((n, d) # nds) ms \<longleftrightarrow>
     (\<exists>m ms1 ms2. ms = m # ms1 @ ms2 \<and> file_arrives sv n d m ms1 \<and> files_arrive sv nds ms2)"

fun item_arrives :: "('a, 'g) server \<Rightarrow> item \<Rightarrow> 'a messages \<Rightarrow> bool" where
  "item_arrives sv (FileItem n d) ms \<longleftrightarrow> (\<exists>m ms1. ms = m # ms1 \<and> file_arrives sv n d m ms1)"
| "item_arrives sv (DirItem dn nds) ms \<longleftrightarrow>
     (\<exists>m ms1 e di. ms = m # ms1 @ [e] \<and> sc_Code m = SendingDirInfo \<and> sc_Code e = EndOfSendingDir \<and>
        unpack_dir (rv_codec sv) (sc_Context m) = Inr di \<and> di_DirName di = dn \<and> di_RelParentPath di = ''.'' \<and>
        make_slice 8 (di_FileCnt di) = Inr () \<and> files_arrive sv nds ms1)"

fun items_arrive :: "('a, 'g) server \<Rightarrow> item list \<Rightarrow> 'a messages \<Rightarrow> bool" where
  "items_arrive sv [] ms \<longleftrightarrow> ms = []"
| "items_arrive sv (it # its) ms \<longleftrightarrow> (\<exists>ms1 ms2. ms = ms1 @ ms2 \<and> item_arrives sv it ms1 \<and> items_arrive sv its ms2)"

section \<open>Receiving\<close>

lemma file_arrivesE:
  assumes "file_arrives sv n d m ms" "room (rv_os sv) g ns n" "ns \<noteq> []" "\<forall>k \<in> set ns. plain_name k"
  obtains h where "receiveFileInfo sv m (abs_path ns) (ms @ rest) g
      = (Inr \<lparr>of_dirName = ''.'', of_path = abs_path (ns @ [n])\<rparr>, rest, h)" "stored (rv_os sv) g ns n d h"
proof -
  from assms(1) [unfolded file_arrives_def] assms(2-4) have
    "\<exists>h. receiveFileInfo sv m (abs_path ns) (ms @ rest) g
      = (Inr \<lparr>of_dirName = ''.'', of_path = abs_path (ns @ [n])\<rparr>, rest, h) \<and> stored (rv_os sv) g ns n d h"
    by blast
  then show thesis using that by blast
qed

lemma files_recv:
  assumes "files_arrive sv nds ms" "od_path info = abs_path ns" "sc_Code e = EndOfSendingDir"
    "targets_ok (map (\<lambda>(n, d). (ns, n, d)) nds @ ys)"
    "\<forall>x \<in> set (map (\<lambda>(n, d). (ns, n, d)) nds @ ys). has_room (rv_os sv) g x"
  shows "\<exists>info' g'. dir_files_loop sv info (ms @ e # rest) g = (Inr info', rest, g') \<and>
    od_path info' = abs_path ns \<and> od_fileCnt info' = od_fileCnt info + int (length nds) \<and>
    store_seq (rv_os sv) g (map (\<lambda>(n, d). (ns, n, d)) nds) g' \<and> (\<forall>x \<in> set ys. has_room (rv_os sv) g' x)"
  using assms
proof (induction nds arbitrary: ms info g)
  case Nil
  then show ?case by (simp add: dir_files_loop.simps)
next
  case (Cons nd nds)
  obtain n d where nd: "nd = (n, d)" by (cases nd)
  let ?xs = "map (\<lambda>(n, d). (ns, n, d)) nds @ ys"
  obtain m ms1 ms2 where ms: "ms = m # ms1 @ ms2" and fa: "file_arrives sv n d m ms1" and rest_arr: "files_arrive sv nds ms2"
    using Cons.prems(1) nd by auto
  have tg: "targets_ok ((ns, n, d) # ?xs)" using Cons.prems(4) nd by simp
  then have "plain_target (ns, n, d)" by (auto simp: targets_ok_def)
  moreover have "room (rv_os sv) g ns n" using Cons.prems(5) nd by simp
  ultimately obtain h where h: "receiveFileInfo sv m (abs_path ns) (ms1 @ ms2 @ e # rest) g
        = (Inr \<lparr>of_dirName = ''.'', of_path = abs_path (ns @ [n])\<rparr>, ms2 @ e # rest, h)"
    "stored (rv_os sv) g ns n d h"
    using file_arrivesE [OF fa, of g ns "ms2 @ e # rest"] by auto
  have code: "sc_Code m = SendingFile_Info" using fa by (simp add: file_arrives_def)
  let ?info = "info\<lparr>od_files := od_files info @ [\<lparr>of_dirName = ''.'', of_path = abs_path (ns @ [n])\<rparr>],
      od_fileCnt := od_fileCnt info + 1\<rparr>"
  have "\<forall>x \<in> set ?xs. has_room (rv_os sv) h x"
    using has_room_stored [OF h(2) _ tg] Cons.prems(5) nd by auto
  with Cons.IH [of ms2 ?info h] rest_arr Cons.prems(2,3) targets_ok_tl [OF tg]
  obtain info' g' where ih: "dir_files_loop sv ?info (ms2 @ e # rest) h = (Inr info', rest, g')"
    "od_path info' = abs_path ns" "od_fileCnt info' = od_fileCnt ?info + int (length nds)"
    "store_seq (rv_os sv) h (map (\<lambda>(n, d). (ns, n, d)) nds) g'" "\<forall>x \<in> set ys. has_room (rv_os sv) g' x"
    by auto
  have "dir_files_loop sv info (ms @ e # rest) g = (Inr info', rest, g')"
    by (simp add: ms dir_files_loop.simps(2) code Cons.prems(2) h(1) ih(1))
  with ih h(2) nd show ?case by auto
qed

text \<open>One item: where it is stored and what it adds to the list.\<close>

definition add_item :: "string list \<Rightarrow> item \<Rightarrow> outputItemInfo \<Rightarrow> outputItemInfo \<Rightarrow> bool" where
  "add_item out it i i' \<longleftrightarrow>
     ReceivedFileCnt i' = ReceivedFileCnt i + int (item_files it) \<and>
     (if is_dir it then map od_path (oi_dirs i') = map od_path (oi_dirs i) @ [abs_path (out @ [item_name it])] \<and>
        map of_path (oi_files i') = map of_path (oi_files i)
      else map of_path (oi_files i') = map of_path (oi_files i) @ [abs_path (out @ [item_name it])] \<and>
        map od_path (oi_dirs i') = map od_path (oi_dirs i))"

lemma item_recv:
  assumes "item_arrives sv it ms" "out \<noteq> []" "\<forall>k \<in> set out. plain_name k" "plain_name (item_name it)"
    "targets_ok (targets out it @ ys)" "\<forall>x \<in> set (targets out it @ ys). has_room (rv_os sv) g x"
  shows "\<exists>i' g'. anything_recv sv (abs_path out) i k (ms @ rest) g = anything_recv sv (abs_path out) i' k rest g' \<and>
    add_item out it i i' \<and> store_seq (rv_os sv) g (targets out it) g' \<and> (\<forall>x \<in> set ys. has_room (rv_os sv) g' x)"
proof (cases it)
  case (FileItem n d)
  then obtain m ms1 where ms: "ms = m # ms1" and fa: "file_arrives sv n d m ms1" using assms(1) by auto
  have tg: "targets_ok ((out, n, d) # ys)" using assms(5) FileItem by simp
  have "room (rv_os sv) g out n" using assms(6) FileItem by simp
  then obtain h where h: "receiveFileInfo sv m (abs_path out) (ms1 @ rest) g
        = (Inr \<lparr>of_dirName = ''.'', of_path = abs_path (out @ [n])\<rparr>, rest, h)"
    "stored (rv_os sv) g out n d h"
    using file_arrivesE [OF fa _ assms(2,3)] by blast
  let ?i = "i\<lparr>oi_files := oi_files i @ [\<lparr>of_dirName = ''.'', of_path = abs_path (out @ [n])\<rparr>]\<rparr>"
  have "anything_recv sv (abs_path out) i k (ms @ rest) g = anything_recv sv (abs_path out) ?i k rest h"
    using fa by (simp add: ms anything_recv.simps(2) file_arrives_def h(1))
  moreover have "add_item out it i ?i" by (simp add: add_item_def FileItem ReceivedFileCnt_def)
  moreover have "\<forall>x \<in> set ys. has_room (rv_os sv) h x"
    using has_room_stored [OF h(2) _ tg] assms(6) by simp
  ultimately show ?thesis using h(2) FileItem by auto
next
  case (DirItem dn nds)
  then obtain m ms1 e di where ms: "ms = m # ms1 @ [e]" and code: "sc_Code m = SendingDirInfo" "sc_Code e = EndOfSendingDir"
    and di: "unpack_dir (rv_codec sv) (sc_Context m) = Inr di" "di_DirName di = dn" "di_RelParentPath di = ''.''"
      "make_slice 8 (di_FileCnt di) = Inr ()" and fa: "files_arrive sv nds ms1"
    using assms(1) by auto
  let ?info = "\<lparr>od_fileCnt = 0, od_dirName = dn, od_path = abs_path (out @ [dn]), od_files = []\<rparr>"
  have dn: "plain_name dn" using assms(4) DirItem by simp
  have recv: "receiveDirInfo sv m (abs_path out) xs g = dir_files_loop sv ?info xs g" for xs
    by (simp add: receiveDirInfo_def di downloadDir_def Join_dot [OF assms(3)] Join_name [OF assms(3) dn])
  obtain info' h where h: "dir_files_loop sv ?info (ms1 @ e # rest) g = (Inr info', rest, h)"
    "od_path info' = abs_path (out @ [dn])" "od_fileCnt info' = int (length nds)"
    "store_seq (rv_os sv) g (map (\<lambda>(n, d). (out @ [dn], n, d)) nds) h" "\<forall>x \<in> set ys. has_room (rv_os sv) h x"
    using files_recv [OF fa, of ?info "out @ [dn]" e ys g rest] code(2) assms(5,6) DirItem by auto
  let ?i = "i\<lparr>oi_dirs := oi_dirs i @ [info']\<rparr>"
  have "anything_recv sv (abs_path out) i k (ms @ rest) g = anything_recv sv (abs_path out) ?i k rest h"
    by (simp add: ms anything_recv.simps(2) code(1) recv h(1))
  moreover have "add_item out it i ?i" using h(2,3) by (simp add: add_item_def DirItem ReceivedFileCnt_def)
  ultimately show ?thesis using h(4,5) DirItem by auto
qed

definition all_targets :: "string list \<Rightarrow> item list \<Rightarrow> target list" where
  "all_targets out its = concat (map (targets out) its)"

definition item_paths :: "string list \<Rightarrow> item list \<Rightarrow> string list" where
  "item_paths out its = map (\<lambda>it. abs_path (out @ [item_name it])) its"

definition files_in :: "item list \<Rightarrow> int" where
  "files_in its = (\<Sum>it\<leftarrow>its. int (item_files it))"

lemma items_recv:
  assumes "items_arrive sv its ms" "out \<noteq> []" "\<forall>k \<in> set out. plain_name k"
    "\<forall>it \<in> set its. plain_name (item_name it)" "targets_ok (all_targets out its)"
    "\<forall>x \<in> set (all_targets out its). has_room (rv_os sv) g x"
  shows "\<exists>i' g'. anything_recv sv (abs_path out) i k (ms @ rest) g = anything_recv sv (abs_path out) i' k rest g' \<and>
    ReceivedFileCnt i' = ReceivedFileCnt i + files_in its \<and>
    map od_path (oi_dirs i') = map od_path (oi_dirs i) @ item_paths out (filter is_dir its) \<and>
    map of_path (oi_files i') = map of_path (oi_files i) @ item_paths out (filter (\<lambda>it. \<not> is_dir it) its) \<and>
    store_seq (rv_os sv) g (all_targets out its) g'"
  using assms
proof (induction its arbitrary: ms i g)
  case Nil
  then show ?case by (auto simp: all_targets_def item_paths_def files_in_def)
next
  case (Cons it its)
  obtain ms1 ms2 where ms: "ms = ms1 @ ms2" "item_arrives sv it ms1" "items_arrive sv its ms2"
    using Cons.prems(1) by auto
  have tg: "targets_ok (targets out it @ all_targets out its)"
    and rm: "\<forall>x \<in> set (targets out it @ all_targets out its). has_room (rv_os sv) g x"
    using Cons.prems(5,6) by (simp_all add: all_targets_def)
  have nm: "plain_name (item_name it)" using Cons.prems(4) by simp
  obtain j h where j: "anything_recv sv (abs_path out) i k (ms1 @ ms2 @ rest) g = anything_recv sv (abs_path out) j k (ms2 @ rest) h"
    "add_item out it i j" "store_seq (rv_os sv) g (targets out it) h" "\<forall>x \<in> set (all_targets out its). has_room (rv_os sv) h x"
    using item_recv [OF ms(2) Cons.prems(2,3) nm tg rm, of i k "ms2 @ rest"] by blast
  have "targets_ok (all_targets out its)" using tg by (auto simp: targets_ok_def)
  with Cons.IH [OF ms(3) Cons.prems(2,3) _ _ j(4), of j] Cons.prems(4)
  obtain i' g' where ih: "anything_recv sv (abs_path out) j k (ms2 @ rest) h = anything_recv sv (abs_path out) i' k rest g'"
    "ReceivedFileCnt i' = ReceivedFileCnt j + files_in its"
    "map od_path (oi_dirs i') = map od_path (oi_dirs j) @ item_paths out (filter is_dir its)"
    "map of_path (oi_files i') = map of_path (oi_files j) @ item_paths out (filter (\<lambda>it. \<not> is_dir it) its)"
    "store_seq (rv_os sv) h (all_targets out its) g'" by auto
  have "store_seq (rv_os sv) g (all_targets out (it # its)) g'"
    using j(3) ih(5) by (auto simp: all_targets_def store_seq_append)
  moreover have "anything_recv sv (abs_path out) i k (ms @ rest) g = anything_recv sv (abs_path out) i' k rest g'"
    using ih(1) j(1) ms(1) by simp
  moreover have "ReceivedFileCnt i' = ReceivedFileCnt i + files_in (it # its)"
    using ih(2) j(2) by (simp add: add_item_def files_in_def)
  moreover have "map od_path (oi_dirs i') = map od_path (oi_dirs i) @ item_paths out (filter is_dir (it # its))"
    using ih(3) j(2) by (simp add: add_item_def item_paths_def)
  moreover have "map of_path (oi_files i') = map of_path (oi_files i) @ item_paths out (filter (\<lambda>it. \<not> is_dir it) (it # its))"
    using ih(4) j(2) by (simp add: add_item_def item_paths_def)
  ultimately show ?case by blast
qed

section \<open>Sending\<close>

text \<open>A file on the sender's disk, as the list of the names of its path.\<close>

definition file_at :: "'f os_api \<Rightarrow> 'f \<Rightarrow> string list \<Rightarrow> bytes \<Rightarrow> bool" where
  "file_at os fs ps d \<longleftrightarrow>
     (\<forall>k \<in> set ps. plain_name k) \<and> os_stat os fs (abs_path ps) = Stat ModeRegular \<and>
     os_open os fs (abs_path ps) = Inr d \<and>
     0 \<le> sint (os_size os fs (abs_path ps)) \<and> sint (os_size os fs (abs_path ps)) \<le> maxAlloc"

fun item_at :: "'f os_api \<Rightarrow> 'f \<Rightarrow> string list \<Rightarrow> item \<Rightarrow> bool" where
  "item_at os fs ps (FileItem n d) \<longleftrightarrow> ps \<noteq> [] \<and> last ps = n \<and> file_at os fs ps d"
| "item_at os fs ps (DirItem dn nds) \<longleftrightarrow>
     ps \<noteq> [] \<and> last ps = dn \<and> (\<forall>k \<in> set ps. plain_name k) \<and> os_stat os fs (abs_path ps) = Stat ModeDir \<and>
     os_walk os fs (abs_path ps)
       = (abs_path ps, Stat ModeDir) # map (\<lambda>(n, d). (abs_path (ps @ [n]), Stat ModeRegular)) nds \<and>
     8 * int (length nds) \<le> maxAlloc \<and> (\<forall>(n, d) \<in> set nds. file_at os fs (ps @ [n]) d)"

lemma createFileInfo_at:
  assumes "file_at os fs (ps @ [n]) d"
  shows "\<exists>f. createFileInfo os fs (abs_path (ps @ [n])) hold = Inr f \<and> sendable_file f n d \<and>
    Path f = (if hold then abs_path (ps @ [n]) else n)"
proof -
  have pl: "\<forall>k \<in> set ps. plain_name k" "plain_name n" "\<forall>k \<in> set (ps @ [n]). plain_name k"
    using assms by (auto simp: file_at_def)
  show ?thesis
    using assms pl(2)
    using Join_split_abs [OF pl(1,2)] PathSplit_abs [OF pl(1,2)]
    by (simp add: createFileInfo_def file_at_def PathAbs_def Clean_abs [OF pl(3)] sendable_file_def Path_def dot_Join)
qed

lemma createFilesInfo_at:
  assumes "\<forall>(n, d) \<in> set nds. file_at os fs (ps @ [n]) d"
  shows "\<exists>fl. createFilesInfo os fs (map (\<lambda>(n, d). abs_path (ps @ [n])) nds) True = Inr fl \<and>
    list_all2 (\<lambda>f (n, d). sendable_file f n d \<and> Path f = abs_path (ps @ [n])) fl nds"
proof -
  have "\<exists>fl. create_loop os fs (map (\<lambda>(n, d). abs_path (ps @ [n])) nds) True = (fl, []) \<and>
    list_all2 (\<lambda>f (n, d). sendable_file f n d \<and> Path f = abs_path (ps @ [n])) fl nds"
    using assms
  proof (induction nds)
    case (Cons nd nds)
    obtain n d where nd: "nd = (n, d)" by (cases nd)
    obtain f where f: "createFileInfo os fs (abs_path (ps @ [n])) True = Inr f" "sendable_file f n d"
      "Path f = abs_path (ps @ [n])"
      using createFileInfo_at [of os fs ps n d True] Cons.prems nd by auto
    from Cons obtain fl where "create_loop os fs (map (\<lambda>(n, d). abs_path (ps @ [n])) nds) True = (fl, [])"
      "list_all2 (\<lambda>f (n, d). sendable_file f n d \<and> Path f = abs_path (ps @ [n])) fl nds" by auto
    with f nd show ?case by auto
  qed simp
  then show ?thesis by (auto simp: createFilesInfo_def)
qed

lemma walk_flat:
  "walk_loop os [] (map (\<lambda>(n, d). (abs_path (ps @ [n]), Stat ModeRegular)) nds)
   = Inr (map (\<lambda>(n, d). abs_path (ps @ [n])) nds)"
  by (induction nds) (auto simp: PathAbs_def)

lemma isSendable_abs:
  assumes "\<forall>k \<in> set ps. plain_name k" "\<forall>k \<in> set hs. plain_name k"
  shows "isSendable wd (abs_path ps) (abs_path hs) \<longleftrightarrow> has_prefix (abs_path ps) (abs_path hs)"
  by (simp add: isSendable_def PathAbs_def Clean_abs [OF assms(1)] Clean_abs [OF assms(2)])

lemma takeFiles_dir:
  assumes "item_at os fs ps (DirItem dn nds)" "\<forall>k \<in> set hs. plain_name k" "has_prefix (abs_path ps) (abs_path hs)"
  shows "\<exists>fl. takeFiles os fs (abs_path hs) [[abs_path ps]] = Inr fl \<and>
    list_all2 (\<lambda>f (n, d). sendable_file f n d \<and> Path f = abs_path (ps @ [n])) fl nds"
proof -
  have pl: "\<forall>k \<in> set ps. plain_name k" and st: "os_stat os fs (abs_path ps) = Stat ModeDir"
    and wk: "os_walk os fs (abs_path ps)
       = (abs_path ps, Stat ModeDir) # map (\<lambda>(n, d). (abs_path (ps @ [n]), Stat ModeRegular)) nds"
    and fa: "\<forall>(n, d) \<in> set nds. file_at os fs (ps @ [n]) d"
    using assms(1) by auto
  obtain fl where fl: "createFilesInfo os fs (map (\<lambda>(n, d). abs_path (ps @ [n])) nds) True = Inr fl"
    "list_all2 (\<lambda>f (n, d). sendable_file f n d \<and> Path f = abs_path (ps @ [n])) fl nds"
    using createFilesInfo_at [OF fa] by blast
  have "getFilePathAllInTree os fs (abs_path ps) [] = Inr (map (\<lambda>(n, d). abs_path (ps @ [n])) nds)"
    by (simp add: getFilePathAllInTree_def PathAbs_def Clean_abs [OF pl] wk isInclude_def walk_flat)
  then have "CreateFilesInfoByDir os fs (abs_path ps) = Inr fl" by (simp add: CreateFilesInfoByDir_def fl(1))
  then have "takeFiles os fs (abs_path hs) [[abs_path ps]] = Inr fl"
    using assms(3) by (simp add: takeFiles_def take_path_def getAbsPath_def isSendable_abs [OF pl assms(2)] st)
  with fl(2) show ?thesis by blast
qed

lemma dir_loop_linked:
  assumes "linked c sv" "\<forall>k \<in> set ps. plain_name k"
    "list_all2 (\<lambda>f (n, d). sendable_file f n d \<and> Path f = abs_path (ps @ [n])) fl nds"
  shows "\<exists>info' ms. dir_loop c (abs_path ps) fl info s = (Inr info', s @ ms) \<and> files_arrive sv nds ms \<and>
    sdi_fileCnt info' = sdi_fileCnt info + int (length nds) \<and> sdi_dirName info' = sdi_dirName info \<and>
    sdi_relParentDirPath info' = sdi_relParentDirPath info"
  using assms(3)
proof (induction fl arbitrary: nds info s)
  case Nil
  then show ?case by auto
next
  case (Cons f fl)
  obtain n d nds' where nds: "nds = (n, d) # nds'" and f: "sendable_file f n d" "Path f = abs_path (ps @ [n])"
    and rest: "list_all2 (\<lambda>f (n, d). sendable_file f n d \<and> Path f = abs_path (ps @ [n])) fl nds'"
    using Cons.prems by (cases nds) auto
  have n: "plain_name n" using f(1) by (simp add: sendable_file_def)
  have rel: "PathRel (abs_path ps) (Path f) = Inr n"
    using PathRel_abs [OF assms(2), of "[n]"] n f(2) by simp
  obtain m ms1 where m: "sendFile c f ''.'' s = (Inr \<lparr>sf_dirName = n, sf_relDirPath = ''.''\<rparr>, s @ m # ms1)"
    "file_arrives sv n d m ms1"
    using file_linked [OF assms(1) f(1)] by blast
  let ?info = "info\<lparr>sdi_fileCnt := sdi_fileCnt info + 1,
    sdi_files := sdi_files info @ [\<lparr>sf_dirName = n, sf_relDirPath = ''.''\<rparr>]\<rparr>"
  obtain info' ms2 where ih: "dir_loop c (abs_path ps) fl ?info (s @ m # ms1) = (Inr info', (s @ m # ms1) @ ms2)"
    "files_arrive sv nds' ms2" "sdi_fileCnt info' = sdi_fileCnt ?info + int (length nds')"
    "sdi_dirName info' = sdi_dirName ?info" "sdi_relParentDirPath info' = sdi_relParentDirPath ?info"
    using Cons.IH [OF rest, of ?info "s @ m # ms1"] by blast
  have "dir_loop c (abs_path ps) (f # fl) info s = (Inr info', s @ (m # ms1 @ ms2))"
    using ih(1) by (simp add: rel PathDir_plain [OF n] m(1))
  moreover have "files_arrive sv nds (m # ms1 @ ms2)" using m(2) ih(2) nds by auto
  ultimately show ?case using ih(3-5) nds by (intro exI [of _ info'] exI [of _ "m # ms1 @ ms2"]) simp
qed

lemma createDirInfo_linked:
  assumes "linked c sv"
  shows "\<exists>a. createDirInfo c info cnt code s = (None, s @ [\<lparr>sc_Code = code, sc_Context = Some a\<rparr>]) \<and>
    unpack_dir (rv_codec sv) (Some a) = Inr \<lparr>di_FileCnt = word_of_int cnt, di_DirName = sdi_dirName info,
      di_RelParentPath = sdi_relParentDirPath info\<rparr>"
proof -
  obtain a where "pack_dir (cl_codec c) \<lparr>di_FileCnt = word_of_int cnt, di_DirName = sdi_dirName info,
      di_RelParentPath = sdi_relParentDirPath info\<rparr> = Inr a"
    "unpack_dir (cl_codec c) (Some a) = Inr \<lparr>di_FileCnt = word_of_int cnt, di_DirName = sdi_dirName info,
      di_RelParentPath = sdi_relParentDirPath info\<rparr>"
    using pack_dirE [OF assms] by blast
  then show ?thesis
    by (simp add: createDirInfo_def sendToServer_linked [OF assms] linkedD(7) [OF assms])
qed

lemma make_slice_count: "8 * int k \<le> maxAlloc \<Longrightarrow> make_slice 8 (word_of_int (int k)) = Inr ()"
proof -
  assume k: "8 * int k \<le> maxAlloc"
  have "sint (word_of_int i :: 64 word) = i" if "0 \<le> i" "i < 2 ^ 63" for i
    using that by (simp add: signed_of_int signed_take_bit_int_eq_self)
  from this [of "int k"] k have "sint (word_of_int (int k) :: 64 word) = int k" by (simp add: maxAlloc_def)
  with k show ?thesis by (simp only: make_slice_def) simp
qed

lemma sendDir_linked:
  assumes lk: "linked c sv" and it: "item_at (cl_os c) (cl_fs c) ps (DirItem dn nds)"
    and hs: "\<forall>k \<in> set hs. plain_name k" "has_prefix (abs_path ps) (abs_path hs)"
  shows "\<exists>info ms. sendDir c (abs_path ps) (abs_path hs) s = (Inr info, s @ ms) \<and>
    item_arrives sv (DirItem dn nds) ms \<and> sdi_fileCnt info = int (length nds)"
proof -
  have pl: "\<forall>k \<in> set ps. plain_name k" "ps \<noteq> []" "last ps = dn" "8 * int (length nds) \<le> maxAlloc"
    using it by auto
  have base: "PathBase (abs_path ps) = dn"
    using PathBase_abs [of "butlast ps" "last ps"] pl(1-3) in_set_butlastD [of _ ps] by force
  obtain fl where fl: "takeFiles (cl_os c) (cl_fs c) (abs_path hs) [[abs_path ps]] = Inr fl"
    "list_all2 (\<lambda>f (n, d). sendable_file f n d \<and> Path f = abs_path (ps @ [n])) fl nds"
    using takeFiles_dir [OF it hs] by blast
  have len: "length fl = length nds" using fl(2) by (rule list_all2_lengthD)
  let ?info = "\<lparr>sdi_fileCnt = 0, sdi_dirName = dn, sdi_relParentDirPath = ''.'', sdi_files = []\<rparr>"
  obtain a where a: "createDirInfo c ?info (int (length nds)) SendingDirInfo s
      = (None, s @ [\<lparr>sc_Code = SendingDirInfo, sc_Context = Some a\<rparr>])"
    "unpack_dir (rv_codec sv) (Some a) = Inr \<lparr>di_FileCnt = word_of_int (int (length nds)), di_DirName = dn,
      di_RelParentPath = ''.''\<rparr>"
    using createDirInfo_linked [OF lk, of ?info] by (metis sentDirInfo.select_convs(2,3))
  let ?m = "\<lparr>sc_Code = SendingDirInfo, sc_Context = Some a\<rparr>"
  obtain info ms1 where d: "dir_loop c (abs_path ps) fl ?info (s @ [?m]) = (Inr info, (s @ [?m]) @ ms1)"
    "files_arrive sv nds ms1" "sdi_fileCnt info = int (length nds)"
    using dir_loop_linked [OF lk pl(1) fl(2), of ?info "s @ [?m]"] by auto
  obtain b where b: "createDirInfo c info (int (length nds)) EndOfSendingDir ((s @ [?m]) @ ms1)
      = (None, ((s @ [?m]) @ ms1) @ [\<lparr>sc_Code = EndOfSendingDir, sc_Context = Some b\<rparr>])"
    using createDirInfo_linked [OF lk, of info] by blast
  let ?e = "\<lparr>sc_Code = EndOfSendingDir, sc_Context = Some b\<rparr>"
  have "sendDir c (abs_path ps) (abs_path hs) s = (Inr info, s @ (?m # ms1 @ [?e]))"
    by (simp add: sendDir_def fl(1) base sendDirInfo_def len a(1) d(1) [simplified] sendEndOfDir_def d(3) b [simplified])
  moreover have "item_arrives sv (DirItem dn nds) (?m # ms1 @ [?e])"
    unfolding item_arrives.simps
    using a(2) d(2) make_slice_count [OF pl(4)]
    by (intro exI [of _ ?m] exI [of _ ms1] exI [of _ ?e]
        exI [of _ "\<lparr>di_FileCnt = word_of_int (int (length nds)), di_DirName = dn, di_RelParentPath = ''.''\<rparr>"]) simp
  ultimately show ?thesis using d(3) by blast
qed

lemma sendFiles_linked:
  assumes lk: "linked c sv" and it: "item_at (cl_os c) (cl_fs c) ps (FileItem n d)"
    and hs: "\<forall>k \<in> set hs. plain_name k" "has_prefix (abs_path ps) (abs_path hs)"
  shows "\<exists>info ms. sendFiles c [abs_path ps] (abs_path hs) s = (Inr [info], s @ ms) \<and> item_arrives sv (FileItem n d) ms"
proof -
  have pl: "\<forall>k \<in> set ps. plain_name k" "ps = butlast ps @ [n]" "os_stat (cl_os c) (cl_fs c) (abs_path ps) = Stat ModeRegular"
    using it append_butlast_last_id [of ps] by (auto simp: file_at_def)
  obtain f where f: "createFileInfo (cl_os c) (cl_fs c) (abs_path ps) False = Inr f" "sendable_file f n d" "Path f = n"
    using createFileInfo_at [of "cl_os c" "cl_fs c" "butlast ps" n d False] it pl(2) by auto
  have n: "plain_name n" using f(2) by (simp add: sendable_file_def)
  have tk: "takeFiles (cl_os c) (cl_fs c) (abs_path hs) [[abs_path ps]] = Inr [f]"
    using hs(2) by (simp add: takeFiles_def take_path_def getAbsPath_def isSendable_abs [OF pl(1) hs(1)] pl(3)
        CreateFileInfo_def f(1))
  obtain m ms where m: "sendFile c f ''.'' s = (Inr \<lparr>sf_dirName = n, sf_relDirPath = ''.''\<rparr>, s @ m # ms)"
    "file_arrives sv n d m ms"
    using file_linked [OF lk f(2)] by blast
  have "sendFiles c [abs_path ps] (abs_path hs) s = (Inr [\<lparr>sf_dirName = n, sf_relDirPath = ''.''\<rparr>], s @ m # ms)"
    by (simp add: sendFiles_def tk f(3) not_IsAbs_plain [OF n] PathDir_plain [OF n] m(1))
  with m(2) show ?thesis by auto
qed

text \<open>A path of the kanban names an item below the home directory.\<close>

definition names_item :: "('a, 'f, 's) client \<Rightarrow> string \<Rightarrow> string \<Rightarrow> item \<Rightarrow> bool" where
  "names_item c root p it \<longleftrightarrow>
     (\<exists>ps. getAbsPath root p = abs_path ps \<and> item_at (cl_os c) (cl_fs c) ps it \<and> has_prefix (abs_path ps) root)"

lemma anything_loop_linked:
  assumes "linked c sv" "\<forall>k \<in> set hs. plain_name k" "list_all2 (names_item c (abs_path hs)) paths its"
  shows "\<exists>info ms. anything_loop c (abs_path hs) paths i s = (Inr info, s @ ms) \<and> items_arrive sv its ms \<and>
    sentFileCnt info = sentFileCnt i + files_in its"
  using assms(3)
proof (induction paths arbitrary: its i s)
  case Nil
  then show ?case by (simp add: files_in_def)
next
  case (Cons p paths)
  obtain it its' where its: "its = it # its'" and nm: "names_item c (abs_path hs) p it"
    and rest: "list_all2 (names_item c (abs_path hs)) paths its'"
    using Cons.prems by (cases its) auto
  obtain ps where ps: "getAbsPath (abs_path hs) p = abs_path ps" "item_at (cl_os c) (cl_fs c) ps it"
    "has_prefix (abs_path ps) (abs_path hs)"
    using nm by (auto simp: names_item_def)
  have "\<exists>j ms1. anything_loop c (abs_path hs) (p # paths) i s = anything_loop c (abs_path hs) paths j (s @ ms1) \<and>
    item_arrives sv it ms1 \<and> sentFileCnt j = sentFileCnt i + int (item_files it)"
  proof (cases it)
    case (FileItem n d)
    with sendFiles_linked [OF assms(1) _ assms(2) ps(3), of n d s] ps(2) obtain info ms1
      where "sendFiles c [abs_path ps] (abs_path hs) s = (Inr [info], s @ ms1)" "item_arrives sv it ms1" by blast
    moreover have "os_stat (cl_os c) (cl_fs c) (abs_path ps) = Stat ModeRegular"
      using ps(2) FileItem by (simp add: file_at_def)
    ultimately show ?thesis
      using FileItem by (intro exI [of _ "i\<lparr>si_files := si_files i @ [info]\<rparr>"] exI [of _ ms1])
        (simp add: ps(1) sentFileCnt_def)
  next
    case (DirItem dn nds)
    with sendDir_linked [OF assms(1) _ assms(2) ps(3), of dn nds s] ps(2) obtain info ms1
      where "sendDir c (abs_path ps) (abs_path hs) s = (Inr info, s @ ms1)" "item_arrives sv it ms1"
        "sdi_fileCnt info = int (length nds)" by blast
    moreover have "os_stat (cl_os c) (cl_fs c) (abs_path ps) = Stat ModeDir"
      using ps(2) DirItem by simp
    ultimately show ?thesis
      using DirItem by (intro exI [of _ "i\<lparr>si_dirs := si_dirs i @ [info]\<rparr>"] exI [of _ ms1])
        (simp add: ps(1) sentFileCnt_def)
  qed
  then obtain j ms1 where j: "anything_loop c (abs_path hs) (p # paths) i s = anything_loop c (abs_path hs) paths j (s @ ms1)"
    "item_arrives sv it ms1" "sentFileCnt j = sentFileCnt i + int (item_files it)" by blast
  obtain info ms2 where ih: "anything_loop c (abs_path hs) paths j (s @ ms1) = (Inr info, (s @ ms1) @ ms2)"
    "items_arrive sv its' ms2" "sentFileCnt info = sentFileCnt j + files_in its'"
    using Cons.IH [OF rest, of j "s @ ms1"] by blast
  show ?case
    using j ih its by (intro exI [of _ info] exI [of _ "ms1 @ ms2"]) (auto simp: files_in_def)
qed

section \<open>The whole transfer\<close>

lemma client_linked:
  assumes "linked c sv" "\<forall>k \<in> set hs. plain_name k" "Clean (cl_home c) = abs_path hs"
    "sd_AfterKanban m = Some k" "list_all2 (names_item c (abs_path hs)) (sk_FileList k) its"
  shows "\<exists>a ms b. sendToOtherDeviceClient c None None m [] =
      (None, \<lparr>sc_Code = SendingKanban, sc_Context = Some a\<rparr> # ms @ [\<lparr>sc_Code = EOS, sc_Context = Some b\<rparr>]) \<and>
    unpack_kanban (rv_codec sv) (Some a) = Inr m \<and> items_arrive sv its ms \<and>
    unpack_stream (rv_codec sv) (Some b) = Inr \<lparr>si_FileCount = to_int32 (files_in its)\<rparr>"
proof -
  obtain a where a: "pack_kanban (cl_codec c) m = Inr a" "unpack_kanban (cl_codec c) (Some a) = Inr m"
    using pack_kanbanE [OF assms(1)] by blast
  obtain b where b: "pack_stream (cl_codec c) \<lparr>si_FileCount = to_int32 (files_in its)\<rparr> = Inr b"
    "unpack_stream (cl_codec c) (Some b) = Inr \<lparr>si_FileCount = to_int32 (files_in its)\<rparr>"
    using pack_streamE [OF assms(1)] by blast
  let ?m = "\<lparr>sc_Code = SendingKanban, sc_Context = Some a\<rparr>"
  have eos: "deferred_eos c (files_in its) None s = (None, s @ [\<lparr>sc_Code = EOS, sc_Context = Some b\<rparr>])" for s
    by (simp add: deferred_eos_def sendEOS_def b(1) linkedD(1) [OF assms(1)])
  have kan: "sendKanban c m [] = (None, [?m])"
    by (simp add: sendKanban_def a(1) linkedD(1) [OF assms(1)])
  show ?thesis
  proof (cases "sk_FileList k = []")
    case True
    with assms(5) have its: "its = []" by simp
    from eos [unfolded its] have "deferred_eos c 0 None s = (None, s @ [\<lparr>sc_Code = EOS, sc_Context = Some b\<rparr>])" for s
      by (simp add: files_in_def)
    then show ?thesis
      using True a(2) b(2) its
      by (intro exI [of _ a] exI [of _ "[]"] exI [of _ b])
        (simp add: sendToOtherDeviceClient_def kan assms(4) linkedD(7) [OF assms(1)])
  next
    case False
    obtain info ms where an: "anything_loop c (abs_path hs) (sk_FileList k) newSentItemInfo [?m] = (Inr info, [?m] @ ms)"
      "items_arrive sv its ms" "sentFileCnt info = sentFileCnt newSentItemInfo + files_in its"
      using anything_loop_linked [OF assms(1,2,5)] by blast
    have "sentFileCnt info = files_in its" using an(3) by (simp add: sentFileCnt_def newSentItemInfo_def)
    then have "sendAnything c (sk_FileList k) [?m] = (Inr (files_in its), ?m # ms)"
      using an(1) by (simp add: sendAnything_def assms(3))
    then show ?thesis
      using False a(2) b(2) an(2)
      by (intro exI [of _ a] exI [of _ ms] exI [of _ b])
        (simp add: sendToOtherDeviceClient_def kan assms(4) eos linkedD(7) [OF assms(1)])
  qed
qed

lemma item_paths_dirs_first:
  "item_paths out (filter is_dir its) @ item_paths out (filter (\<lambda>it. \<not> is_dir it) its) = item_paths out (dirs_first its)"
  by (simp add: item_paths_def dirs_first_def)

lemma names_item_plain: "names_item c root p it \<Longrightarrow> plain_name (item_name it)"
  by (cases it) (auto simp: names_item_def file_at_def)

lemma anything_recv_eos:
  assumes "unpack_stream (rv_codec sv) (Some b) = Inr \<lparr>si_FileCount = to_int32 (ReceivedFileCnt i)\<rparr>"
    "sd_AfterKanban m = Some k"
  shows "anything_recv sv out i m [\<lparr>sc_Code = EOS, sc_Context = Some b\<rparr>] g
    = (None, m\<lparr>sd_AfterKanban := Some (k\<lparr>sk_FileList := item_list i\<rparr>)\<rparr>, [], g)"
  by (simp add: anything_recv.simps(2) receiveEOS_def assms)

lemma transfer_ok:
  assumes "linked c sv" "\<forall>k \<in> set hs. plain_name k" "Clean (cl_home c) = abs_path hs"
    "sd_AfterKanban m = Some k" "list_all2 (names_item c (abs_path hs)) (sk_FileList k) its"
    "GetMsDataPath (rv_dataDir sv) (sd_NextService m) (to_int (sd_NextNumber m)) = abs_path out"
    "out \<noteq> []" "\<forall>k \<in> set out. plain_name k"
    "ensure_dir (rv_os sv) (os_mkdir (rv_os sv)) (abs_path out) g = Inr h"
    "targets_ok (all_targets out its)" "\<forall>x \<in> set (all_targets out its). has_room (rv_os sv) h x"
  shows "\<exists>ms g'. sendToOtherDeviceClient c None None m [] = (None, ms) \<and>
    SendToOtherDevices sv ms g =
      (Inr \<lparr>us_Message = ''[SendToOtherDevices server] ok'', us_StatusCode = UploadStatus_OK\<rparr>,
       [m\<lparr>sd_AfterKanban := Some (k\<lparr>sk_FileList := item_paths out (dirs_first its)\<rparr>)\<rparr>], g') \<and>
    (\<forall>(ns, n, d) \<in> set (all_targets out its). os_open (rv_os sv) g' (abs_path (ns @ [n])) = Inr d)"
proof -
  obtain a ms b where send: "sendToOtherDeviceClient c None None m [] =
      (None, \<lparr>sc_Code = SendingKanban, sc_Context = Some a\<rparr> # ms @ [\<lparr>sc_Code = EOS, sc_Context = Some b\<rparr>])"
    and ua: "unpack_kanban (rv_codec sv) (Some a) = Inr m" and arr: "items_arrive sv its ms"
    and ub: "unpack_stream (rv_codec sv) (Some b) = Inr \<lparr>si_FileCount = to_int32 (files_in its)\<rparr>"
    using client_linked [OF assms(1-5)] by blast
  let ?e = "\<lparr>sc_Code = EOS, sc_Context = Some b\<rparr>"
  have names: "\<forall>it \<in> set its. plain_name (item_name it)"
    using assms(5) names_item_plain by (fastforce simp: list_all2_conv_all_nth set_conv_nth)
  obtain i g' where i: "anything_recv sv (abs_path out) newOutputItemInfo m (ms @ [?e]) h
      = anything_recv sv (abs_path out) i m [?e] g'" "ReceivedFileCnt i = files_in its"
    "item_list i = item_paths out (dirs_first its)" "store_seq (rv_os sv) h (all_targets out its) g'"
    using items_recv [OF arr assms(7,8) names assms(10,11), of newOutputItemInfo m "[?e]"]
    by (auto simp: newOutputItemInfo_def ReceivedFileCnt_def item_list_def item_paths_dirs_first [symmetric])
  have "anything_recv sv (abs_path out) i m [?e] g'
      = (None, m\<lparr>sd_AfterKanban := Some (k\<lparr>sk_FileList := item_list i\<rparr>)\<rparr>, [], g')"
    by (rule anything_recv_eos) (simp_all add: ub i(2) assms(4))
  then have "SendToOtherDevices sv (\<lparr>sc_Code = SendingKanban, sc_Context = Some a\<rparr> # ms @ [?e]) g =
      (Inr \<lparr>us_Message = ''[SendToOtherDevices server] ok'', us_StatusCode = UploadStatus_OK\<rparr>,
       [m\<lparr>sd_AfterKanban := Some (k\<lparr>sk_FileList := item_paths out (dirs_first its)\<rparr>)\<rparr>], g')"
    using i(1,3) by (simp add: SendToOtherDevices_def messageParserInSendAnythingServer_def receiveSendingKanban_def
        ua assms(6,9) downloadAnything_def)
  moreover have "\<forall>(ns, n, d) \<in> set (all_targets out its). os_open (rv_os sv) g' (abs_path (ns @ [n])) = Inr d"
    using store_seq_content [OF i(4) assms(10)] by auto
  ultimately show ?thesis using send by blast
qed

text \<open>
  C4. A kanban and its files arrive. If every path of the kanban names a regular file or a
  directory of regular files below the sender's home directory, the stream delivers, the
  disks do not fail and no two files have the same target, then the sender reports no error,
  the receiver replies ok, the service broker gets the kanban with the list of the paths
  under which the receiver has stored the items (directories first), and every file is on
  the receiver's disk with the bytes it had on the sender's.
\<close>

theorem transfer_complete:
  assumes "linked c sv" "\<forall>k \<in> set hs. plain_name k" "Clean (cl_home c) = abs_path hs"
    "sd_AfterKanban m = Some k" "list_all2 (names_item c (abs_path hs)) (sk_FileList k) its"
    "GetMsDataPath (rv_dataDir sv) (sd_NextService m) (to_int (sd_NextNumber m)) = abs_path out"
    "out \<noteq> []" "\<forall>k \<in> set out. plain_name k"
    "ensure_dir (rv_os sv) (os_mkdir (rv_os sv)) (abs_path out) g = Inr h"
    "targets_ok (all_targets out its)" "\<forall>x \<in> set (all_targets out its). has_room (rv_os sv) h x"
  shows "\<exists>ms g'. sendToOtherDeviceClient c None None m [] = (None, ms) \<and>
    SendToOtherDevices sv ms g =
      (Inr \<lparr>us_Message = ''[SendToOtherDevices server] ok'', us_StatusCode = UploadStatus_OK\<rparr>,
       [m\<lparr>sd_AfterKanban := Some (k\<lparr>sk_FileList := item_paths out (dirs_first its)\<rparr>)\<rparr>], g') \<and>
    (\<forall>(ns, n, d) \<in> set (all_targets out its). os_open (rv_os sv) g' (abs_path (ns @ [n])) = Inr d)"
  using assms by (rule transfer_ok)

lemma ex_names:
  "list_all2 (names_item ex_client (abs_path [''aion''])) [''a'', ''d'']
     [FileItem ''a'' [1, 2, 3, 4], DirItem ''d'' [(''b'', [5]), (''c'', [])]]"
proof -
  have "getAbsPath (abs_path [''aion'']) ''a'' = abs_path [''aion'', ''a''] \<and>
    item_at (cl_os ex_client) (cl_fs ex_client) [''aion'', ''a''] (FileItem ''a'' [1, 2, 3, 4]) \<and>
    has_prefix (abs_path [''aion'', ''a'']) (abs_path [''aion''])" by code_simp
  moreover have "getAbsPath (abs_path [''aion'']) ''d'' = abs_path [''aion'', ''d''] \<and>
    item_at (cl_os ex_client) (cl_fs ex_client) [''aion'', ''d''] (DirItem ''d'' [(''b'', [5]), (''c'', [])]) \<and>
    has_prefix (abs_path [''aion'', ''d'']) (abs_path [''aion''])" by code_simp
  ultimately show ?thesis unfolding list_all2_Cons list_all2_Nil names_item_def by blast
qed

lemma ex_targets:
  "targets_ok (all_targets [''data'', ''s_1''] [FileItem ''a'' [1, 2, 3, 4], DirItem ''d'' [(''b'', [5]), (''c'', [])]])"
  "\<forall>x \<in> set (all_targets [''data'', ''s_1''] [FileItem ''a'' [1, 2, 3, 4], DirItem ''d'' [(''b'', [5]), (''c'', [])]]).
     has_room (rv_os ex_server) [(''/data'', None), (''/data/s_1'', None)] x"
proof -
  show "targets_ok (all_targets [''data'', ''s_1''] [FileItem ''a'' [1, 2, 3, 4], DirItem ''d'' [(''b'', [5]), (''c'', [])]])"
    by (simp add: targets_ok_def all_targets_def) (code_simp | simp add: plain_name_def slash_def)+
qed code_simp

theorem transfer_complete_witness:
  "\<exists>ms g'. sendToOtherDeviceClient ex_client None None ex_sent [] = (None, ms) \<and>
    SendToOtherDevices ex_server ms [(''/data'', None)] =
      (Inr \<lparr>us_Message = ''[SendToOtherDevices server] ok'', us_StatusCode = UploadStatus_OK\<rparr>,
       [ex_sent\<lparr>sd_AfterKanban := Some (the (sd_AfterKanban ex_sent)
          \<lparr>sk_FileList := [''/data/s_1/d'', ''/data/s_1/a'']\<rparr>)\<rparr>], g') \<and>
    os_open ref_os g' ''/data/s_1/d/b'' = Inr [5]"
proof -
  let ?its = "[FileItem ''a'' [1, 2, 3, 4], DirItem ''d'' [(''b'', [5]), (''c'', [])]]"
  let ?out = "[''data'', ''s_1'']"
  have plain: "\<forall>k \<in> set [''aion'']. plain_name k" "\<forall>k \<in> set ?out. plain_name k" by code_simp+
  have home: "Clean (cl_home ex_client) = abs_path [''aion'']" by code_simp
  have sent: "sd_AfterKanban ex_sent = Some (the (sd_AfterKanban ex_sent))" "sk_FileList (the (sd_AfterKanban ex_sent)) = [''a'', ''d'']"
    by (simp_all add: ex_sent_def)
  have out: "GetMsDataPath (rv_dataDir ex_server) (sd_NextService ex_sent) (to_int (sd_NextNumber ex_sent)) = abs_path ?out"
    by code_simp
  have dir: "ensure_dir (rv_os ex_server) (os_mkdir (rv_os ex_server)) (abs_path ?out) [(''/data'', None)]
    = Inr [(''/data'', None), (''/data/s_1'', None)]" by code_simp
  have "\<exists>ms g'. sendToOtherDeviceClient ex_client None None ex_sent [] = (None, ms) \<and>
    SendToOtherDevices ex_server ms [(''/data'', None)] =
      (Inr \<lparr>us_Message = ''[SendToOtherDevices server] ok'', us_StatusCode = UploadStatus_OK\<rparr>,
       [ex_sent\<lparr>sd_AfterKanban := Some (the (sd_AfterKanban ex_sent)\<lparr>sk_FileList := item_paths ?out (dirs_first ?its)\<rparr>)\<rparr>], g') \<and>
    (\<forall>(ns, n, d) \<in> set (all_targets ?out ?its). os_open (rv_os ex_server) g' (abs_path (ns @ [n])) = Inr d)"
    using transfer_complete [OF ex_linked plain(1) home sent(1) _ out _ plain(2) dir ex_targets] ex_names sent(2) by simp
  then obtain ms g' where r: "sendToOtherDeviceClient ex_client None None ex_sent [] = (None, ms)"
    "SendToOtherDevices ex_server ms [(''/data'', None)] =
      (Inr \<lparr>us_Message = ''[SendToOtherDevices server] ok'', us_StatusCode = UploadStatus_OK\<rparr>,
       [ex_sent\<lparr>sd_AfterKanban := Some (the (sd_AfterKanban ex_sent)\<lparr>sk_FileList := item_paths ?out (dirs_first ?its)\<rparr>)\<rparr>], g')"
    "\<forall>(ns, n, d) \<in> set (all_targets ?out ?its). os_open (rv_os ex_server) g' (abs_path (ns @ [n])) = Inr d"
    by blast
  have "(?out @ [''d''], ''b'', [5]) \<in> set (all_targets ?out ?its)" by (simp add: all_targets_def)
  with r(3) have "os_open (rv_os ex_server) g' (abs_path ((?out @ [''d'']) @ [''b''])) = Inr [5]" by blast
  moreover have "abs_path ((?out @ [''d'']) @ [''b'']) = ''/data/s_1/d/b''" "rv_os ex_server = ref_os"
    by code_simp (simp add: ex_server_def)
  moreover have "item_paths ?out (dirs_first ?its) = [''/data/s_1/d'', ''/data/s_1/a'']" by code_simp
  ultimately show ?thesis using r(1,2) by auto
qed

end
