(* ===== verification/CrossDevice.thy ===== *)
theory CrossDevice
  imports Delivery Pipeline
begin

text \<open>
  A kanban with files on its way from a microservice of one device to a microservice of
  another: the router and device controller of the first (cmd/service-broker/app/watcher.go,
  internal/devices), its send-anything, the send-anything of the second
  (cmd/send-anything/app), the receiver of the second broker and its kanban server.
\<close>

lemma route_one_remote:
  assumes "wf_setting as" "GetNextServiceList as msName (sk_ConnectionKey k) = Inr [v]" "remote as k v"
  shows "route api jc as msName k w = (Continue, w\<lparr>wt_kanbans := wt_kanbans w @ [k],
    wt_sendCh := wt_sendCh w @ [queued_remote as k (length (wt_kanbans w)) v]\<rparr>)"
  using route_remote [OF assms(1), of k "new_kanban k w" "length (wt_kanbans w)" "[v]" api jc "[]"] assms(2,3)
  by (simp add: route_def new_kanban_def del: route_loop.simps(2))

lemma marshalled_unchanged:
  "marshalled (wt_kanbans w @ k # ks) (queued_remote as k (length (wt_kanbans w)) v) = sent_remote as k v"
  by (simp add: marshalled_queued) (simp add: sent_remote_def Let_def)

lemma receive_remote:
  assumes ok: "redis_streams api ent lt" and rt: "codec_roundtrip jc k'"
    and m: "sd_NextService m = cn_Name d" "to_int (sd_NextNumber m) = cn_Number d" "sd_AfterKanban m = Some k'"
    and empty: "ent (wt_redis w) (before_key d) = []" and d: "to_int (to_int32 (cn_Number d)) = cn_Number d"
  shows "wt_startCh (WatchReceiveKanban api jc w (ReceivedKanban m)) = wt_startCh w @ [d]"
    "fst (snd (ReceiveKanban api jc now dir (init_of d) [False] [None]
       (wt_redis (WatchReceiveKanban api jc w (ReceivedKanban m))))) = [Some k']"
proof -
  from redis_streams.WriteKanban_entries [OF ok rt, of "before_key d" "wt_redis w"] obtain e r' where w:
    "WriteKanban api jc (before_key d) (Some k') (wt_redis w) = (None, r')" "decodes jc e k'"
    "ent r' (before_key d) = last_n 50 (ent (wt_redis w) (before_key d) @ [e])" by metis
  then have e: "ent r' (before_key d) = [e]" unfolding empty by (simp add: last_n_def)
  have rw: "WatchReceiveKanban api jc w (ReceivedKanban m) = w\<lparr>wt_redis := r', wt_startCh := wt_startCh w @ [d]\<rparr>"
    using w(1) by (simp add: m NewContainer_def before_key_def)
  show "wt_startCh (WatchReceiveKanban api jc w (ReceivedKanban m)) = wt_startCh w @ [d]"
    unfolding rw by simp
  from receive_one [OF ok e w(2), of "init_of d" now dir] d
  show "fst (snd (ReceiveKanban api jc now dir (init_of d) [False] [None]
       (wt_redis (WatchReceiveKanban api jc w (ReceivedKanban m))))) = [Some k']"
    unfolding rw by (simp add: init_of_def)
qed

text \<open>
  C1. A kanban whose next service is on another device: the router queues one message for that
  device, which carries the kanban whenever it is marshalled, the sending half uploads the
  kanban and its files without an error, the receiving half answers ok and hands the kanban on, the broker of the other device asks for the start of
  exactly that service and number, and that service is sent the kanban as it was written, but
  for its list of files, which names the copies on the other device; these have the bytes of
  the originals.
\<close>

theorem kanban_crosses_devices:
  assumes here: "wf_setting as" "GetNextServiceList as msName (sk_ConnectionKey k) = Inr [Some ns]" "remote as k (Some ns)"
    and link: "linked c sv" "\<forall>h \<in> set hs. plain_name h" "Clean (cl_home c) = abs_path hs"
      "list_all2 (names_item c (abs_path hs)) (sk_FileList k) its"
    and dir: "GetMsDataPath (rv_dataDir sv) (nss_NextServiceName ns) (next_number k ns) = abs_path out"
      "out \<noteq> []" "\<forall>h \<in> set out. plain_name h"
      "ensure_dir (rv_os sv) (os_mkdir (rv_os sv)) (abs_path out) g = Inr h"
      "targets_ok (all_targets out its)" "\<forall>x \<in> set (all_targets out its). has_room (rv_os sv) h x"
    and there: "redis_streams api ent lt" "codec_roundtrip jc (k\<lparr>sk_FileList := item_paths out (dirs_first its)\<rparr>)"
      "ent (wt_redis v) (before_key (started_local k (Some ns))) = []"
  shows "\<exists>q m ms m' g'. route api1 jc1 as msName k w =
      (Continue, w\<lparr>wt_kanbans := wt_kanbans w @ [k], wt_sendCh := wt_sendCh w @ [q]\<rparr>) \<and>
    (\<forall>ks. marshalled (wt_kanbans w @ k # ks) q = m) \<and>
    sendToOtherDeviceClient c None None m [] = (None, ms) \<and>
    SendToOtherDevices sv ms g =
      (Inr \<lparr>us_Message = ''[SendToOtherDevices server] ok'', us_StatusCode = UploadStatus_OK\<rparr>, [m'], g') \<and>
    fst (connectToServer [Connection (ServiceBrokerConn [Received m' None])]) = [m'] \<and>
    wt_startCh (WatchReceiveKanban api jc v (ReceivedKanban m')) = wt_startCh v @ [started_local k (Some ns)] \<and>
    fst (snd (ReceiveKanban api jc now dataDir (init_of (started_local k (Some ns))) [False] [None]
        (wt_redis (WatchReceiveKanban api jc v (ReceivedKanban m'))))) =
      [Some (k\<lparr>sk_FileList := item_paths out (dirs_first its)\<rparr>)] \<and>
    (\<forall>(ps, n, d) \<in> set (all_targets out its). os_open (rv_os sv) g' (abs_path (ps @ [n])) = Inr d)"
proof -
  let ?m = "sent_remote as k (Some ns)"
  let ?m' = "?m\<lparr>sd_AfterKanban := Some (k\<lparr>sk_FileList := item_paths out (dirs_first its)\<rparr>)\<rparr>"
  have m: "sd_AfterKanban ?m = Some k" "sd_NextService ?m = nss_NextServiceName ns" "to_int (sd_NextNumber ?m) = next_number k ns"
    by (simp_all add: sent_remote_def Let_def next_number_int32)
  obtain ms g' where t: "sendToOtherDeviceClient c None None ?m [] = (None, ms)"
    "SendToOtherDevices sv ms g =
      (Inr \<lparr>us_Message = ''[SendToOtherDevices server] ok'', us_StatusCode = UploadStatus_OK\<rparr>, [?m'], g')"
    "\<forall>(ps, n, d) \<in> set (all_targets out its). os_open (rv_os sv) g' (abs_path (ps @ [n])) = Inr d"
    using transfer_ok [OF link(1-3) m(1) link(4) _ dir(2-)] m(2,3) dir(1) by metis
  have "sd_NextService ?m' = cn_Name (started_local k (Some ns))" "to_int (sd_NextNumber ?m') = cn_Number (started_local k (Some ns))"
    "sd_AfterKanban ?m' = Some (k\<lparr>sk_FileList := item_paths out (dirs_first its)\<rparr>)"
    "to_int (to_int32 (cn_Number (started_local k (Some ns)))) = cn_Number (started_local k (Some ns))"
    by (simp_all add: m(2,3) started_local_def NewContainer_def next_number_int32)
  note recv = receive_remote [OF there(1,2) this(1-3) there(3) this(4)]
  show ?thesis
    using route_one_remote [OF here] marshalled_unchanged [of w k _ as "Some ns"] t recv
    by (intro exI [of _ "queued_remote as k (length (wt_kanbans w)) (Some ns)"] exI [of _ ?m] exI [of _ ms] exI [of _ ?m'] exI [of _ g'] conjI) simp_all
qed

definition ex_crossing :: AionSetting where
  "ex_crossing = the (snd (LoadConfigFromGRPC (Some (ex_setting\<lparr>as_Microservices := [(''a'', Some (ex_ms\<lparr>ms_NextService :=
     Some [(''default'', Some \<lparr>nx_Settings = [Some (ex_next\<lparr>nss_NextServiceName := ''s'', nss_NextDevice := ''dev''\<rparr>)]\<rparr>)]\<rparr>))]\<rparr>))))"

definition ex_crossing_kanban :: StatusKanban where
  "ex_crossing_kanban = ex_kanban\<lparr>sk_FileList := [''a'', ''d'']\<rparr>"

definition ex_arrived :: StatusKanban where
  "ex_arrived = ex_crossing_kanban\<lparr>sk_FileList := [''/data/s_1/d'', ''/data/s_1/a'']\<rparr>"

definition ex_arrived_codec :: json_codec where
  "ex_arrived_codec = \<lparr>jc_marshal = (\<lambda>k. Inr ''k''), jc_unmarshal = (\<lambda>s. Inr ex_arrived)\<rparr>"

theorem kanban_crosses_devices_witness:
  "\<exists>q m ms m' g'. route ref_api ex_codec ex_crossing ''a'' ex_crossing_kanban ex_local_watcher =
      (Continue, ex_local_watcher\<lparr>wt_kanbans := [ex_crossing_kanban], wt_sendCh := [q]\<rparr>) \<and>
    (\<forall>ks. marshalled (ex_crossing_kanban # ks) q = m) \<and>
    sendToOtherDeviceClient SendAnything.ex_client None None m [] = (None, ms) \<and>
    SendToOtherDevices ex_server ms [(''/data'', None)] =
      (Inr \<lparr>us_Message = ''[SendToOtherDevices server] ok'', us_StatusCode = UploadStatus_OK\<rparr>, [m'], g') \<and>
    fst (snd (ReceiveKanban ref_api ex_arrived_codec [] [] (init_of (NewContainer ''s'' 1)) [False] [None]
        (wt_redis (WatchReceiveKanban ref_api ex_arrived_codec ex_local_watcher (ReceivedKanban m'))))) = [Some ex_arrived]"
proof -
  let ?ns = "init_next_setting (ex_next\<lparr>nss_NextServiceName := ''s'', nss_NextDevice := ''dev''\<rparr>)"
  let ?its = "[FileItem ''a'' [1, 2, 3, 4], DirItem ''d'' [(''b'', [5]), (''c'', [])]]"
  let ?out = "[''data'', ''s_1'']"
  have here: "wf_setting ex_crossing"
    "GetNextServiceList ex_crossing ''a'' (sk_ConnectionKey ex_crossing_kanban) = Inr [Some ?ns]"
    "remote ex_crossing ex_crossing_kanban (Some ?ns)" by code_simp+
  have plain: "\<forall>h \<in> set [''aion'']. plain_name h" "\<forall>h \<in> set ?out. plain_name h" by code_simp+
  have home: "Clean (cl_home SendAnything.ex_client) = abs_path [''aion'']" by code_simp
  have items: "list_all2 (names_item SendAnything.ex_client (abs_path [''aion''])) (sk_FileList ex_crossing_kanban) ?its"
    using ex_names by (simp add: ex_crossing_kanban_def)
  have out: "GetMsDataPath (rv_dataDir ex_server) (nss_NextServiceName ?ns) (next_number ex_crossing_kanban ?ns) = abs_path ?out"
    "?out \<noteq> []" by code_simp+
  have dir: "ensure_dir (rv_os ex_server) (os_mkdir (rv_os ex_server)) (abs_path ?out) [(''/data'', None)]
    = Inr [(''/data'', None), (''/data/s_1'', None)]" by code_simp
  have arrived: "ex_crossing_kanban\<lparr>sk_FileList := item_paths ?out (dirs_first ?its)\<rparr> = ex_arrived" by code_simp
  have there: "codec_roundtrip ex_arrived_codec (ex_crossing_kanban\<lparr>sk_FileList := item_paths ?out (dirs_first ?its)\<rparr>)"
    unfolding arrived by (simp add: codec_roundtrip_def ex_arrived_codec_def)
  have w: "ref_ent (wt_redis ex_local_watcher) (before_key (started_local ex_crossing_kanban (Some ?ns))) = []"
    "wt_sendCh ex_local_watcher = []" "wt_kanbans ex_local_watcher = []" by (simp_all add: ex_local_watcher_def NewWatcher_def)
  have started: "started_local ex_crossing_kanban (Some ?ns) = NewContainer ''s'' 1" by code_simp
  show ?thesis
    using kanban_crosses_devices [where ent = ref_ent and lt = shorter, OF here ex_linked plain(1) home items out plain(2) dir
      ex_targets(1) ex_targets(2) ref_redis_streams there w(1), of ref_api ex_codec ex_local_watcher "[]" "[]"]
    unfolding arrived started w(2,3) append_Nil by blast
qed

end
