(* ===== verification/Download.thy ===== *)
theory Download
  imports SendAnything
begin

text \<open>
  What the halves of send-anything guarantee message by message: which chunk sequences a
  download accepts, how large chunks are, which paths may be sent, what becomes of the kanban
  when the download fails, and why files in sub-directories never arrive.
\<close>

section \<open>The chunks that a download accepts\<close>

text \<open>The reference: the bytes of a run of chunks of one name, numbered one by one.\<close>

fun collect :: "'a any_codec \<Rightarrow> string \<Rightarrow> int32 \<Rightarrow> 'a messages \<Rightarrow> bytes option" where
  "collect cd name n [] = Some []"
| "collect cd name n (m # ms) =
     (if sc_Code m \<noteq> SendingFile_CONT then None
      else (case unpack_chunk cd (sc_Context m) of
         Inl e \<Rightarrow> None
       | Inr ch \<Rightarrow>
           (if ck_RefNum ch = n \<and> ck_Name ch = name
            then map_option ((@) (ck_Context ch)) (collect cd name (n + 1) ms) else None)))"

definition with_content :: "receivingFileBuilder \<Rightarrow> bytes \<Rightarrow> nat \<Rightarrow> receivingFileBuilder" where
  "with_content fb d k = fb\<lparr>rb_fileStack := rb_fileStack fb @ d, rb_expectRefNum := rb_expectRefNum fb + of_nat k\<rparr>"

lemma with_content_relPath [simp]: "rb_relPath (with_content fb d k) = rb_relPath fb"
  by (simp add: with_content_def)

lemma enqueue_with_content: "with_content (enqueue b fb) d k = with_content fb (b @ d) (Suc k)"
  by (simp add: with_content_def enqueue_def)

lemma receiveFileCont_Inr:
  "receiveFileCont cd m fb = Inr fb' \<longleftrightarrow>
   (\<exists>ch. unpack_chunk cd (sc_Context m) = Inr ch \<and> ck_RefNum ch = rb_expectRefNum fb \<and>
      ck_Name ch = PathBase (rb_relPath fb) \<and> fb' = enqueue (ck_Context ch) fb)"
  by (auto simp: receiveFileCont_def split: sum.splits)

text \<open>A run of good chunks is consumed.\<close>

lemma file_loop_collect:
  assumes "collect (rv_codec sv) (PathBase (rb_relPath fb)) (rb_expectRefNum fb) cs = Some d"
  shows "file_loop sv fi out fb (cs @ ms) g = file_loop sv fi out (with_content fb d (length cs)) ms g"
  using assms
proof (induction cs arbitrary: fb d)
  case Nil
  then show ?case by (simp add: with_content_def)
next
  case (Cons m cs)
  then obtain ch d' where ch: "sc_Code m = SendingFile_CONT" "unpack_chunk (rv_codec sv) (sc_Context m) = Inr ch"
    "ck_RefNum ch = rb_expectRefNum fb" "ck_Name ch = PathBase (rb_relPath fb)"
    "collect (rv_codec sv) (PathBase (rb_relPath fb)) (rb_expectRefNum fb + 1) cs = Some d'" "d = ck_Context ch @ d'"
    by (auto split: if_splits sum.splits)
  have "receiveFileCont (rv_codec sv) m fb = Inr (enqueue (ck_Context ch) fb)"
    using ch by (simp add: receiveFileCont_Inr)
  moreover have "collect (rv_codec sv) (PathBase (rb_relPath (enqueue (ck_Context ch) fb)))
      (rb_expectRefNum (enqueue (ck_Context ch) fb)) cs = Some d'"
    using ch(5) by (simp add: enqueue_def)
  ultimately show ?case using Cons.IH ch(1,6) by (simp add: enqueue_with_content)
qed

text \<open>A loop that succeeds has consumed such a run and the end mark.\<close>

lemma file_loop_Inr:
  assumes "file_loop sv fi out fb ms g = (Inr fb', rest, g')"
  shows "\<exists>cs e d. ms = cs @ e # rest \<and> sc_Code e = SendingFile_EOF \<and>
    collect (rv_codec sv) (PathBase (rb_relPath fb)) (rb_expectRefNum fb) cs = Some d \<and>
    fb' = with_content fb d (length cs) \<and> receiveEOF sv e fi fb' out g = (None, g')"
  using assms
proof (induction ms arbitrary: fb)
  case Nil
  then show ?case by simp
next
  case (Cons m ms)
  show ?case
  proof (cases "sc_Code m = SendingFile_CONT")
    case True
    with Cons.prems obtain ch where ch: "unpack_chunk (rv_codec sv) (sc_Context m) = Inr ch"
      "ck_RefNum ch = rb_expectRefNum fb" "ck_Name ch = PathBase (rb_relPath fb)"
      "file_loop sv fi out (enqueue (ck_Context ch) fb) ms g = (Inr fb', rest, g')"
      by (auto simp: receiveFileCont_Inr split: sum.splits)
    obtain cs e d where r: "ms = cs @ e # rest" "sc_Code e = SendingFile_EOF"
      "collect (rv_codec sv) (PathBase (rb_relPath fb)) (rb_expectRefNum fb + 1) cs = Some d"
      "fb' = with_content (enqueue (ck_Context ch) fb) d (length cs)" "receiveEOF sv e fi fb' out g = (None, g')"
      using Cons.IH [OF ch(4)] by (auto simp: enqueue_def)
    then show ?thesis
      using True ch(1-3)
      by (intro exI [of _ "m # cs"] exI [of _ e] exI [of _ "ck_Context ch @ d"]) (simp add: enqueue_with_content)
  next
    case False
    with Cons.prems have "sc_Code m = SendingFile_EOF" "receiveEOF sv m fi fb out g = (None, g')" "fb' = fb" "rest = ms"
      by (auto split: if_splits prod.splits option.splits)
    then show ?thesis
      by (intro exI [of _ "[]"] exI [of _ m] exI [of _ "[]"]) (simp add: with_content_def)
  qed
qed

text \<open>
  C13. The receiver's loop accepts exactly the messages of one file: it succeeds if and only
  if the stream starts with a run of chunks of that file's name, numbered from 0 without a
  gap or repetition, then the end mark, and storing the concatenated bytes and checking
  their digest succeeds.
\<close>

theorem download_accepts_iff:
  "(\<exists>info. downloadFile sv fi out ms g = (Inr info, rest, g')) \<longleftrightarrow>
   (\<exists>fb cs e d. newReceivingFileBuilder fi = Inr fb \<and> ms = cs @ e # rest \<and> sc_Code e = SendingFile_EOF \<and>
      collect (rv_codec sv) (PathBase (rb_relPath fb)) 0 cs = Some d \<and>
      receiveEOF sv e fi (with_content fb d (length cs)) out g = (None, g'))"
  (is "?L \<longleftrightarrow> ?R")
proof -
  have start: "rb_expectRefNum fb = 0" if "newReceivingFileBuilder fi = Inr fb" for fb
    using that by (auto simp: newReceivingFileBuilder_def split: sum.splits)
  show ?thesis
  proof
    assume ?L
    then obtain fb fb' where fb: "newReceivingFileBuilder fi = Inr fb" "file_loop sv fi out fb ms g = (Inr fb', rest, g')"
      by (auto simp: downloadFile_def split: sum.splits prod.splits)
    from file_loop_Inr [OF fb(2)] start [OF fb(1)] fb(1) show ?R by auto
  next
    assume ?R
    then obtain fb cs e d where r: "newReceivingFileBuilder fi = Inr fb" "ms = cs @ e # rest" "sc_Code e = SendingFile_EOF"
      "collect (rv_codec sv) (PathBase (rb_relPath fb)) 0 cs = Some d"
      "receiveEOF sv e fi (with_content fb d (length cs)) out g = (None, g')" by blast
    have "file_loop sv fi out fb ms g = (Inr (with_content fb d (length cs)), rest, g')"
      using file_loop_collect [of sv fb cs d fi out "e # rest" g] r start [OF r(1)] by simp
    then show ?L by (simp add: downloadFile_def r(1))
  qed
qed

lemma receiveEOF_None:
  assumes "receiveEOF sv e fi fb out g = (None, g')"
  shows "\<exists>fe d. unpack_file (rv_codec sv) (sc_Context e) = Inr fe \<and>
    os_open (rv_os sv) g' (PathJoin [PathJoin [out, fi_RelDir fe], fi_Name fe]) = Inr d \<and> getMD5 sv d = fi_Hash fi"
  using assms
  by (auto simp: receiveEOF_def Let_def split: sum.splits prod.splits option.splits if_splits)

text \<open>
  C15. No file is accepted unchecked: when a download succeeds, the file that the end mark
  names is on the receiver's disk and the digest of what is read back from it is the digest
  that was announced before the first chunk.
\<close>

theorem accepted_file_checked:
  assumes "downloadFile sv fi out ms g = (Inr info, rest, g')"
  shows "\<exists>e fe d. e \<in> set ms \<and> sc_Code e = SendingFile_EOF \<and> unpack_file (rv_codec sv) (sc_Context e) = Inr fe \<and>
    os_open (rv_os sv) g' (PathJoin [PathJoin [out, fi_RelDir fe], fi_Name fe]) = Inr d \<and> getMD5 sv d = fi_Hash fi"
proof -
  from assms obtain fb fb' where "file_loop sv fi out fb ms g = (Inr fb', rest, g')"
    by (auto simp: downloadFile_def split: sum.splits prod.splits)
  from file_loop_Inr [OF this] obtain cs e where e: "ms = cs @ e # rest" "sc_Code e = SendingFile_EOF"
    "receiveEOF sv e fi fb' out g = (None, g')" by blast
  with receiveEOF_None [OF e(3)] show ?thesis by auto
qed

definition ex_file_info :: FileInfo where
  "ex_file_info = \<lparr>fi_Size = 3, fi_ChunkCnt = 0, fi_Hash = [3], fi_Name = ''a'', fi_RelDir = ''.''\<rparr>"

definition ex_file_messages :: "wire messages" where
  "ex_file_messages =
     [\<lparr>sc_Code = SendingFile_CONT, sc_Context = Some (WChunk \<lparr>ck_Context = [7, 8], ck_Name = ''a'', ck_RefNum = 0\<rparr>)\<rparr>,
      \<lparr>sc_Code = SendingFile_CONT, sc_Context = Some (WChunk \<lparr>ck_Context = [9], ck_Name = ''a'', ck_RefNum = 1\<rparr>)\<rparr>,
      \<lparr>sc_Code = SendingFile_EOF, sc_Context = Some (WFile ex_file_info)\<rparr>]"

theorem accepted_file_checked_witness:
  "\<exists>e fe d. e \<in> set ex_file_messages \<and> sc_Code e = SendingFile_EOF \<and>
    unpack_file (rv_codec ex_server) (sc_Context e) = Inr fe \<and>
    os_open (rv_os ex_server) [(''/o'', None), (''/o/a'', Some [7, 8, 9])] (PathJoin [PathJoin [''/o'', fi_RelDir fe], fi_Name fe]) = Inr d \<and>
    getMD5 ex_server d = fi_Hash ex_file_info"
proof -
  have "downloadFile ex_server ex_file_info ''/o'' ex_file_messages [(''/o'', None)]
      = (Inr \<lparr>of_dirName = ''.'', of_path = ''/o/a''\<rparr>, [], [(''/o'', None), (''/o/a'', Some [7, 8, 9])])"
  proof -
    have paths: "PathJoin [''.'', ''a''] = ''a''" "PathBase ''a'' = ''a''" "PathJoin [''/o'', ''.''] = ''/o''"
      "PathJoin [''/o'', ''a''] = ''/o/a''" "PathDir ''a'' = ''.''" "PathDir ''/o/a'' = ''/o''"
      "getAbsPath ''/o'' ''a'' = ''/o/a''" "make_slice 1 3 = Inr ()" by code_simp+
    have md5: "getMD5 ex_server [7, 8, 9] = [3]"
      by (simp add: getMD5_def ex_server_def ref.read_all)
    have eof: "receiveEOF ex_server \<lparr>sc_Code = SendingFile_EOF, sc_Context = Some (WFile ex_file_info)\<rparr> ex_file_info
        \<lparr>rb_relPath = ''a'', rb_size = 3, rb_fileStack = [7, 8, 9], rb_expectRefNum = 2\<rparr> ''/o'' [(''/o'', None)]
      = (None, [(''/o'', None), (''/o/a'', Some [7, 8, 9])])"
      using md5 by (simp add: receiveEOF_def ex_server_def ref_codec_def ex_file_info_def paths ensure_dir_def dequeue_def
          ref_os_simps ref_create)
    show ?thesis
      using eof by (simp add: downloadFile_def newReceivingFileBuilder_def ex_file_info_def paths ex_file_messages_def
          receiveFileCont_def ex_server_def ref_codec_def enqueue_def)
  qed
  from accepted_file_checked [OF this] show ?thesis .
qed

section \<open>The size of the chunks\<close>

lemma content_chunks:
  assumes "linked c sv" "bg_file f = Some d"
  shows "\<exists>cs ms f'. content_loop c f (of_nat k) s = (Inr (of_nat (k + length cs)), f', s @ ms) \<and>
    map (\<lambda>m. (sc_Code m, unpack_chunk (rv_codec sv) (sc_Context m))) ms =
      map (\<lambda>(i, b). (SendingFile_CONT, Inr \<lparr>ck_Context = b, ck_Name = bg_fileName f, ck_RefNum = of_nat i\<rparr>)) (enumerate k cs) \<and>
    concat cs = bg_rest f \<and> (\<forall>b \<in> set cs. 1 \<le> length b \<and> length b \<le> chunkSize)"
  using assms(2)
proof (induction "length (bg_rest f)" arbitrary: f k s rule: less_induct)
  case less
  show ?case
  proof (cases "bg_rest f = []")
    case True
    with less.prems have "GetChunk (cl_os c) chunkSize f = (ReadEOF, f\<lparr>bg_rest := []\<rparr>)"
      by (simp add: GetChunk_def read_file_def)
    then show ?thesis
      using True by (subst content_loop.simps) (intro exI [of _ "[]"], auto)
  next
    case False
    obtain b r where gc: "GetChunk (cl_os c) chunkSize f = (ReadBytes b, f\<lparr>bg_rest := r\<rparr>)" and br: "bg_rest f = b @ r"
      using GetChunk_linked [OF assms(1) less.prems False] by blast
    have sz: "1 \<le> length b" "length b \<le> chunkSize"
      using GetChunk_Bytes [OF gc] gc read_file_buf [of "cl_os c" chunkSize "bg_rest f" b]
      by (auto simp: GetChunk_def chunkSize_def Suc_le_eq split: option.splits prod.splits)
    let ?f = "f\<lparr>bg_rest := r\<rparr>"
    let ?ch = "\<lparr>ck_Context = b, ck_Name = bg_fileName f, ck_RefNum = of_nat k\<rparr>"
    obtain a where a: "pack_chunk (cl_codec c) ?ch = Inr a" "unpack_chunk (cl_codec c) (Some a) = Inr ?ch"
      using pack_chunkE [OF assms(1)] by blast
    let ?m = "\<lparr>sc_Code = SendingFile_CONT, sc_Context = Some a\<rparr>"
    have send: "sendFileChunk c b (Name ?f) (of_nat k) s = (None, s @ [?m])"
      by (simp add: sendFileChunk_def createRequestChunkFile_def Name_def a(1) sendToServer_linked [OF assms(1)])
    have "length (bg_rest ?f) < length (bg_rest f)" using GetChunk_Bytes_length [OF gc] by simp
    then obtain cs ms f' where ih: "content_loop c ?f (of_nat (Suc k)) (s @ [?m]) = (Inr (of_nat (Suc k + length cs)), f', (s @ [?m]) @ ms)"
      "map (\<lambda>m. (sc_Code m, unpack_chunk (rv_codec sv) (sc_Context m))) ms =
        map (\<lambda>(i, b). (SendingFile_CONT, Inr \<lparr>ck_Context = b, ck_Name = bg_fileName f, ck_RefNum = of_nat i\<rparr>)) (enumerate (Suc k) cs)"
      "concat cs = r" "\<forall>b \<in> set cs. 1 \<le> length b \<and> length b \<le> chunkSize"
      using less.hyps [of ?f "Suc k" "s @ [?m]"] less.prems by auto
    have "content_loop c f (of_nat k) s = (Inr (of_nat (k + length (b # cs))), f', s @ (?m # ms))"
      using ih(1) by (subst content_loop.simps) (simp add: gc send add.commute)
    then show ?thesis
      using ih(2-4) br sz a(2) linkedD(7) [OF assms(1)]
      by (intro exI [of _ "b # cs"] exI [of _ "?m # ms"] exI [of _ f']) simp
  qed
qed

text \<open>
  C37. A file is sent in chunks of at least one and at most 128 KiB bytes, which fit a message
  of the transport, carry the name of the file and the numbers 0, 1, ... modulo 2^32, and
  concatenate to its content; the count that the end mark announces is their number modulo
  2^32.
\<close>

theorem chunks_bounded:
  assumes "linked c sv" "bg_file f = Some d"
  shows "\<exists>cs ms f'. sendFileContent c f s = (Inr (of_nat (length cs)), f', s @ ms) \<and>
    map (\<lambda>m. (sc_Code m, unpack_chunk (rv_codec sv) (sc_Context m))) ms =
      map (\<lambda>(i, b). (SendingFile_CONT, Inr \<lparr>ck_Context = b, ck_Name = bg_fileName f, ck_RefNum = of_nat i\<rparr>)) (enumerate 0 cs) \<and>
    concat cs = bg_rest f \<and> (\<forall>b \<in> set cs. 1 \<le> length b \<and> length b \<le> 128 * 1024)"
  using content_chunks [OF assms, of 0 s] by (simp add: sendFileContent_def chunkSize_def)

theorem chunks_bounded_witness:
  "\<exists>cs ms f'. sendFileContent ex_client
      \<lparr>bg_file = Some [1, 2], bg_rest = [1, 2], bg_fileName = ''a'', bg_fileDir = ''.'', bg_size = 2, bg_hash = None\<rparr> []
      = (Inr (of_nat (length cs)), f', ms) \<and> concat cs = ([1, 2] :: bytes) \<and> (\<forall>b \<in> set cs. 1 \<le> length b \<and> length b \<le> 128 * 1024)"
  using chunks_bounded [OF ex_linked, of "\<lparr>bg_file = Some [1, 2], bg_rest = [1, 2], bg_fileName = ''a'',
      bg_fileDir = ''.'', bg_size = 2, bg_hash = None\<rparr>" "[1, 2]" "[]"]
  by auto

section \<open>Which paths may be sent\<close>

text \<open>
  C38. The guard on paths compares bytes, not path elements: below a home directory whose last
  element is h, a clean absolute path may be sent exactly when it leads through an element
  that starts with h. That admits the home directory and what is in it, and also every
  sibling directory whose name continues the name of the home directory.
\<close>

theorem sendable_iff:
  assumes "\<forall>n \<in> set hs. plain_name n" "plain_name h" "\<forall>n \<in> set ps. plain_name n"
  shows "isSendable wd (abs_path ps) (abs_path (hs @ [h])) \<longleftrightarrow> (\<exists>t ks. ps = hs @ (h @ t) # ks)"
proof -
  have pl: "\<forall>n \<in> set (hs @ [h]). plain_name n" using assms by auto
  have "isSendable wd (abs_path ps) (abs_path (hs @ [h])) \<longleftrightarrow> has_prefix (abs_path ps) (abs_path (hs @ [h]))"
    by (simp add: isSendable_def PathAbs_def Clean_abs [OF assms(3)] Clean_abs [OF pl])
  also have "\<dots> \<longleftrightarrow> (\<exists>t ks. ps = hs @ (h @ t) # ks)"
    using has_prefix_abs [OF pl assms(3)] by simp
  finally show ?thesis .
qed

theorem sendable_iff_witness:
  "isSendable (Inr ''/'') ''/var/lib/aion-secret/key'' ''/var/lib/aion''"
proof -
  have "isSendable (Inr ''/'') (abs_path ([''var'', ''lib''] @ (''aion'' @ ''-secret'') # [''key''])) (abs_path ([''var'', ''lib''] @ [''aion'']))"
    by (subst sendable_iff) (simp add: plain_name_def slash_def; fail | blast)+
  moreover have "abs_path ([''var'', ''lib''] @ (''aion'' @ ''-secret'') # [''key'']) = ''/var/lib/aion-secret/key''"
    "abs_path ([''var'', ''lib''] @ [''aion'']) = ''/var/lib/aion''" by code_simp+
  ultimately show ?thesis by (simp only:)
qed

section \<open>The kanban is handed on\<close>

lemma anything_recv_kanban:
  "case anything_recv sv out i k ms g of (r, k', ms', g') \<Rightarrow>
     k' = k \<or> (r = None \<and> (\<exists>a fl. sd_AfterKanban k = Some a \<and> k' = k\<lparr>sd_AfterKanban := Some (a\<lparr>sk_FileList := fl\<rparr>)\<rparr>))"
proof (induction sv out i k ms g rule: anything_recv.induct)
  case (2 sv out i k m ms g)
  consider (f) "sc_Code m = SendingFile_Info" | (d) "sc_Code m = SendingDirInfo"
    | (o) "sc_Code m \<noteq> SendingFile_Info" "sc_Code m \<noteq> SendingDirInfo" by blast
  then show ?case
  proof cases
    case f
    obtain r ms' g' where "receiveFileInfo sv m out ms g = (r, ms', g')" by (metis prod_cases3)
    with 2(1) f show ?thesis by (cases r) (simp_all add: anything_recv.simps(2))
  next
    case d
    obtain r ms' g' where "receiveDirInfo sv m out ms g = (r, ms', g')" by (metis prod_cases3)
    with 2(2) d show ?thesis by (cases r) (simp_all add: anything_recv.simps(2))
  next
    case o
    then show ?thesis by (auto simp: anything_recv.simps(2) split: option.splits)
  qed
qed (simp add: anything_recv.simps)

text \<open>
  Once the kanban at the head of the stream is unpacked it is handed to the service
  broker exactly once, whatever the rest of the stream is, for the same device, service and
  number: even if the download fails or panics. Unless the reply is ok, it is handed on
  unchanged, with the file list of the sending device.
\<close>

theorem kanban_handed_on:
  assumes "sc_Code m = SendingKanban" "unpack_kanban (rv_codec sv) (sc_Context m) = Inr k"
    "ensure_dir (rv_os sv) (os_mkdir (rv_os sv)) (GetMsDataPath dir (sd_NextService k) (to_int (sd_NextNumber k))) g = Inr h"
  shows "case messageParserInSendAnythingServer sv dir (m # ms) g of (reply, handed, g') \<Rightarrow>
    \<exists>k'. handed = [k'] \<and> sd_DeviceName k' = sd_DeviceName k \<and> sd_NextService k' = sd_NextService k \<and>
      sd_NextNumber k' = sd_NextNumber k \<and> (reply = Inr (''ok'', UploadStatus_OK) \<or> k' = k)"
proof -
  let ?out = "GetMsDataPath dir (sd_NextService k) (to_int (sd_NextNumber k))"
  obtain r k' ms' g' where r: "anything_recv sv ?out newOutputItemInfo k ms h = (r, k', ms', g')"
    by (metis prod_cases4)
  have k': "k' = k \<or> (r = None \<and> (\<exists>a fl. sd_AfterKanban k = Some a \<and> k' = k\<lparr>sd_AfterKanban := Some (a\<lparr>sk_FileList := fl\<rparr>)\<rparr>))"
    using anything_recv_kanban [of k sv ?out newOutputItemInfo ms h] by (simp add: r)
  have parse: "messageParserInSendAnythingServer sv dir (m # ms) g =
      (case r of Some (Panic p) \<Rightarrow> Inl (Panic p) | Some (Error e) \<Rightarrow> Inr (e, UploadStatus_Failed) | None \<Rightarrow> Inr (''ok'', UploadStatus_OK),
       [k'], g')"
    by (simp add: messageParserInSendAnythingServer_def assms receiveSendingKanban_def downloadAnything_def r
        split: option.splits go_error.splits)
  show ?thesis using k' by (auto simp: parse)
qed

theorem kanban_handed_on_witness:
  "case messageParserInSendAnythingServer ex_server ''/data''
      [\<lparr>sc_Code = SendingKanban, sc_Context = Some (WKanban ex_sent)\<rparr>, \<lparr>sc_Code = SendingFile_FAILED, sc_Context = None\<rparr>]
      [(''/data'', None)] of (reply, handed, g') \<Rightarrow>
    \<exists>k'. handed = [k'] \<and> sd_DeviceName k' = sd_DeviceName ex_sent \<and> sd_NextService k' = sd_NextService ex_sent \<and>
      sd_NextNumber k' = sd_NextNumber ex_sent \<and> (reply = Inr (''ok'', UploadStatus_OK) \<or> k' = ex_sent)"
proof (rule kanban_handed_on)
  show "unpack_kanban (rv_codec ex_server) (sc_Context \<lparr>sc_Code = SendingKanban, sc_Context = Some (WKanban ex_sent)\<rparr>) = Inr ex_sent"
    by (simp add: ex_server_def ref_codec_def)
  show "ensure_dir (rv_os ex_server) (os_mkdir (rv_os ex_server))
      (GetMsDataPath ''/data'' (sd_NextService ex_sent) (to_int (sd_NextNumber ex_sent))) [(''/data'', None)]
    = Inr [(''/data'', None), (''/data/s_1'', None)]" by code_simp
qed simp

section \<open>Files in sub-directories\<close>

lemma Join_rel: "plain_name a \<Longrightarrow> plain_name n \<Longrightarrow> PathJoin [a, n] = join [slash] [a, n]"
proof -
  assume pl: "plain_name a" "plain_name n"
  have "split_on slash (a @ slash # n) = [a, n]"
    using split_names [of "[a, n]"] pl by simp
  moreover have "\<not> IsAbs (a @ slash # n)" using pl(1) by (cases a) (auto simp: IsAbs_def plain_name_def)
  moreover have "a \<noteq> []" using pl(1) by (simp add: plain_name_def)
  ultimately show ?thesis using pl by (simp add: PathJoin_def Clean_def clean_parts_def)
qed

lemma PathBase_rel: "plain_name a \<Longrightarrow> plain_name n \<Longrightarrow> PathBase (join [slash] [a, n]) = n"
proof -
  assume pl: "plain_name a" "plain_name n"
  have "dropWhile (\<lambda>c. c = slash) (rev n @ xs) = rev n @ xs" for xs
    using pl(2) by (cases "rev n") (auto simp: plain_name_def)
  moreover have "last (split_on slash (a @ slash # n)) = n" using split_names [of "[a, n]"] pl by simp
  moreover have "a \<noteq> []" using pl(1) by (simp add: plain_name_def)
  ultimately show ?thesis by (simp add: PathBase_def Let_def)
qed

text \<open>The end of such a file: its directory is made, but not the one below it that it is created in.\<close>

lemma receiveEOF_orphan:
  assumes "disk (rv_os sv)" "unpack_file (rv_codec sv) (Some b) = Inr fe" "fi_Hash fe = fi_Hash fi"
    and fi: "fi_RelDir fe = a" "plain_name a" "plain_name n" "rb_relPath fb = join [slash] [a, n]"
    and ns: "ns \<noteq> []" "\<forall>k \<in> set ns. plain_name k" "room (rv_os sv) g (ns @ [a]) n"
      "os_stat (rv_os sv) g (abs_path (ns @ [a, a])) = NotExist"
  shows "\<exists>err g1. receiveEOF sv \<lparr>sc_Code = SendingFile_EOF, sc_Context = Some b\<rparr> fi fb (abs_path ns) g = (Some (Error err), g1)"
proof -
  let ?os = "rv_os sv"
  have pl: "\<forall>k \<in> set (ns @ [a]). plain_name k" "\<forall>k \<in> set (ns @ [a, a]). plain_name k" "\<forall>k \<in> set [a, n]. plain_name k"
    using ns(2) fi(2,3) by auto
  have dir: "PathJoin [abs_path ns, a] = abs_path (ns @ [a])" by (rule Join_name [OF ns(2) fi(2)])
  have path: "PathJoin [abs_path (ns @ [a]), join [slash] [a, n]] = abs_path ((ns @ [a, a]) @ [n])"
    using Join_names [OF pl(1,3)] by simp
  obtain g1 where g1: "ensure_dir ?os (os_mkdirall ?os) (abs_path (ns @ [a])) g = Inr g1"
    and keep: "\<And>q. os_stat ?os g q = NotExist \<Longrightarrow> \<not> above q (abs_path (ns @ [a])) \<Longrightarrow> os_stat ?os g1 q = NotExist"
    using ensure_dir_disk [OF assms(1) ns(3)] by auto
  have "\<not> above (abs_path (ns @ [a, a])) (abs_path (ns @ [a]))"
    using above_abs [OF pl(2,1)] by auto
  with keep ns(4) have "os_stat ?os g1 (PathDir (abs_path ((ns @ [a, a]) @ [n]))) = NotExist"
    by (simp only: PathDir_abs [OF pl(2) fi(3)])
  then obtain err where "os_create ?os g1 (abs_path ((ns @ [a, a]) @ [n])) = Inl (Error err)"
    using disk.create_orphan [OF assms(1)] by blast
  then show ?thesis
    using assms(3) by (simp add: receiveEOF_def assms(2) fi(1,4) dir g1 dequeue_def path [simplified])
qed

text \<open>
  C39. A file below a sub-directory of a directory that is sent does not arrive. The sender
  reports no error, but the receiver looks for the file's directory twice, below itself, and
  the download of the file fails unless a directory of that name happens to be there.
\<close>

theorem subdirectory_file_rejected:
  assumes "linked c sv" "sendable_file f n d" "plain_name a"
  shows "\<exists>m ms. sendFile c f a s = (Inr \<lparr>sf_dirName = n, sf_relDirPath = a\<rparr>, s @ m # ms) \<and>
    (\<forall>ns rest g. ns \<noteq> [] \<longrightarrow> (\<forall>k \<in> set ns. plain_name k) \<longrightarrow> room (rv_os sv) g (ns @ [a]) n \<longrightarrow>
       os_stat (rv_os sv) g (abs_path (ns @ [a, a])) = NotExist \<longrightarrow>
       (\<exists>e. fst (receiveFileInfo sv m (abs_path ns) (ms @ rest) g) = Inl (Error e)))"
proof -
  have n: "plain_name n" "0 \<le> sint (bg_size f)" "sint (bg_size f) \<le> maxAlloc"
    using assms(2) by (auto simp: sendable_file_def)
  obtain x ms n' b cnt where send: "sendFile c f a s = (Inr \<lparr>sf_dirName = n, sf_relDirPath = a\<rparr>,
       s @ \<lparr>sc_Code = SendingFile_Info, sc_Context = Some x\<rparr> # (ms @ [\<lparr>sc_Code = SendingFile_EOF, sc_Context = Some b\<rparr>]))"
    and ux: "unpack_file (rv_codec sv) (Some x) = Inr \<lparr>fi_Size = bg_size f, fi_ChunkCnt = cnt, fi_Hash = cl_md5 c d,
       fi_Name = n, fi_RelDir = a\<rparr>"
    and ub: "unpack_file (rv_codec sv) (Some b) = Inr \<lparr>fi_Size = bg_size f, fi_ChunkCnt = n', fi_Hash = cl_md5 c d,
       fi_Name = n, fi_RelDir = a\<rparr>"
    and recv: "\<And>fi out fb rest g. PathBase (rb_relPath fb) = n \<Longrightarrow> rb_expectRefNum fb = 0 \<Longrightarrow>
       file_loop sv fi out fb (ms @ rest) g =
       file_loop sv fi out (fb\<lparr>rb_fileStack := rb_fileStack fb @ d, rb_expectRefNum := n'\<rparr>) rest g"
    using file_wire [OF assms(1,2)] by metis
  let ?m = "\<lparr>sc_Code = SendingFile_Info, sc_Context = Some x\<rparr>"
  let ?e = "\<lparr>sc_Code = SendingFile_EOF, sc_Context = Some b\<rparr>"
  let ?os = "rv_os sv"
  have "\<exists>e. fst (receiveFileInfo sv ?m (abs_path ns) ((ms @ [?e]) @ rest) g) = Inl (Error e)"
    if ns: "ns \<noteq> []" "\<forall>k \<in> set ns. plain_name k" "room ?os g (ns @ [a]) n"
      and none: "os_stat ?os g (abs_path (ns @ [a, a])) = NotExist" for ns rest g
  proof -
    let ?fi = "\<lparr>fi_Size = bg_size f, fi_ChunkCnt = cnt, fi_Hash = cl_md5 c d, fi_Name = n, fi_RelDir = a\<rparr>"
    let ?fb = "\<lparr>rb_relPath = join [slash] [a, n], rb_size = bg_size f, rb_fileStack = [], rb_expectRefNum = 0\<rparr>"
    let ?fb' = "?fb\<lparr>rb_fileStack := d, rb_expectRefNum := n'\<rparr>"
    have new: "newReceivingFileBuilder ?fi = Inr ?fb"
      using n Join_rel [OF assms(3) n(1)] by (simp add: newReceivingFileBuilder_def make_slice_def)
    from receiveEOF_orphan [OF linkedD(6) [OF assms(1)] ub, of ?fi a n ?fb' ns g] assms(3) n(1) ns none
    obtain err g1 where "receiveEOF sv ?e ?fi ?fb' (abs_path ns) g = (Some (Error err), g1)" by auto
    then have "file_loop sv ?fi (abs_path ns) ?fb ((ms @ [?e]) @ rest) g = (Inl (Error err), rest, g1)"
      using recv [of ?fb ?fi "abs_path ns" "?e # rest" g] PathBase_rel [OF assms(3) n(1)] by simp
    then show ?thesis using ux new by (simp add: receiveFileInfo_def downloadFile_def)
  qed
  with send show ?thesis by blast
qed

definition ex_file :: baggage_file where
  "ex_file = \<lparr>bg_file = Some [1, 2], bg_rest = [1, 2], bg_fileName = ''f'', bg_fileDir = ''/aion/d/sub/'', bg_size = 2, bg_hash = None\<rparr>"

theorem subdirectory_file_rejected_witness:
  "\<exists>m ms e. sendFile ex_client ex_file ''sub'' [] = (Inr \<lparr>sf_dirName = ''f'', sf_relDirPath = ''sub''\<rparr>, m # ms) \<and>
     fst (receiveFileInfo ex_server m ''/o'' ms [(''/o'', None)]) = Inl (Error e)"
proof -
  have "sendable_file ex_file ''f'' [1, 2]" "plain_name ''sub''"
    by (simp_all add: sendable_file_def ex_file_def plain_name_def slash_def maxAlloc_def)
  from subdirectory_file_rejected [OF ex_linked this, of "[]"] obtain m ms where
    m: "sendFile ex_client ex_file ''sub'' [] = (Inr \<lparr>sf_dirName = ''f'', sf_relDirPath = ''sub''\<rparr>, m # ms)"
    and r: "\<And>ns rest g. ns \<noteq> [] \<Longrightarrow> \<forall>k \<in> set ns. plain_name k \<Longrightarrow> room (rv_os ex_server) g (ns @ [''sub'']) ''f'' \<Longrightarrow>
       os_stat (rv_os ex_server) g (abs_path (ns @ [''sub'', ''sub''])) = NotExist \<Longrightarrow>
       \<exists>e. fst (receiveFileInfo ex_server m (abs_path ns) (ms @ rest) g) = Inl (Error e)"
    by auto
  have "\<forall>k \<in> set [''o'']. plain_name k" "room (rv_os ex_server) [(''/o'', None)] ([''o''] @ [''sub'']) ''f''"
    "os_stat (rv_os ex_server) [(''/o'', None)] (abs_path ([''o''] @ [''sub'', ''sub''])) = NotExist" by code_simp+
  from r [OF _ this, of "[]"] obtain e where
    "fst (receiveFileInfo ex_server m (abs_path [''o'']) ms [(''/o'', None)]) = Inl (Error e)" by auto
  moreover have "abs_path [''o''] = ''/o''" by code_simp
  ultimately show ?thesis using m by auto
qed

end
