(* ===== verification/Network.thy ===== *)
theory Network
  imports DeviceRun CrossDevice Download "HOL-Library.Sublist" "HOL-Library.Multiset"
begin

text \<open>
  A network of devices at run time. Each device runs as in \<open>DeviceRun\<close>, in its own time; its
  messages to other devices are taken one by one by its send-anything, uploaded to the device
  that has the address, and handed to the broker there. A message can get lost at every stage,
  an upload can break off anywhere, and the kanbans that have been uploaded are handed over in any order.
\<close>

section \<open>What a client sends first\<close>

text \<open>
  What gRPC documents of a stream: a message whose send reports no error is appended to the
  stream, and one whose send reports an error may or may not be.
\<close>

definition stream_documented :: "('a, 'f, 'a messages) client \<Rightarrow> bool" where
  "stream_documented c \<longleftrightarrow> retry_documented (cl_retry c) \<and>
     (\<forall>m s. snd (cl_send c m s) = s @ [m] \<or> fst (cl_send c m s) \<noteq> None \<and> snd (cl_send c m s) = s)"

lemma send_prefix: "stream_documented c \<Longrightarrow> cl_send c m s = (r, s') \<Longrightarrow> prefix s s'"
  unfolding stream_documented_def by (metis prefix_order.refl prefixI snd_conv)

lemma server_prefix:
  assumes "stream_documented c" "sendToServer c m s = (r, s')"
  shows "prefix s s'"
proof -
  have "prefix s (snd (attempts n (cl_send c m) s))" for n s
  proof (induction n arbitrary: s)
    case (Suc n)
    obtain r' s1 where s1: "cl_send c m s = (r', s1)" by fastforce
    with send_prefix [OF assms(1) this] Suc [of s1] show ?case
      by (cases r') (auto intro: prefix_order.trans)
  qed simp
  with retry_documentedD(2) [of "cl_retry c" SendClient.connRetryCount "cl_send c m" s] assms show ?thesis
    by (simp add: sendToServer_def stream_documented_def SendClient.connRetryCount_def)
qed

text \<open>Whatever the client sends is sent after what it has sent before.\<close>

lemma file_info_prefix:
  "stream_documented c \<Longrightarrow> createFileInfo_msg c f d n code s = (r, f', s') \<Longrightarrow> prefix s s'"
  by (auto simp: createFileInfo_msg_def split: prod.splits sum.splits dest: server_prefix)

lemma content_prefix:
  "stream_documented c \<Longrightarrow> content_loop c f n s = (r, f', s') \<Longrightarrow> prefix s s'"
proof (induction c f n s arbitrary: r f' s' rule: content_loop.induct)
  case (1 c f n s)
  obtain x f1 where x: "GetChunk (cl_os c) chunkSize f = (x, f1)" by fastforce
  show ?case
  proof (cases x)
    case (ReadBytes b)
    obtain e s1 where e: "sendFileChunk c b (Name f1) n s = (e, s1)" by fastforce
    then have "prefix s s1"
      using server_prefix [OF 1(2)] by (auto simp: sendFileChunk_def split: sum.splits)
    with 1 x ReadBytes e show ?thesis
      by (cases e) (auto simp: content_loop.simps [of c f] intro: prefix_order.trans)
  qed (use 1(3) x in \<open>simp_all add: content_loop.simps [of c f]\<close>)
qed

lemma sent_file_prefix:
  assumes "stream_documented c" "sendFile c f d s = (r, s')"
  shows "prefix s s'"
proof (cases "IsExist f")
  case True
  obtain r1 f1 s1 where 1: "sendFileInfo c f d s = (r1, f1, s1)" by (metis prod_cases3)
  obtain r2 f2 s2 where 2: "sendFileContent c f1 s1 = (r2, f2, s2)" by (metis prod_cases3)
  obtain r3 f3 s3 where 3: "sendEOF c f2 d (projr r2) s2 = (r3, f3, s3)" by (metis prod_cases3)
  have "prefix s s1" "prefix s1 s2" "prefix s2 s3"
    using 1 2 3 file_info_prefix [OF assms(1)] content_prefix [OF assms(1)]
    by (auto simp: sendFileInfo_def sendFileContent_def sendEOF_def)
  then have "prefix s s1" "prefix s s2" "prefix s s3" by (auto intro: prefix_order.trans)
  with True assms(2) 1 2 3 show ?thesis
    by (auto simp: sendFile_def split: option.splits sum.splits prod.splits)
qed (use assms(2) in \<open>simp add: sendFile_def\<close>)

lemma dir_info_prefix: "stream_documented c \<Longrightarrow> createDirInfo c d n code s = (r, s') \<Longrightarrow> prefix s s'"
  by (auto simp: createDirInfo_def split: sum.splits dest: server_prefix)

lemma dir_loop_prefix: "stream_documented c \<Longrightarrow> dir_loop c p fs d s = (r, s') \<Longrightarrow> prefix s s'"
proof (induction fs arbitrary: d s)
  case (Cons f fs)
  then show ?case
    by (auto split: sum.splits prod.splits dest: sent_file_prefix) (metis sent_file_prefix prefix_order.trans)+
qed simp

lemma files_loop_prefix: "stream_documented c \<Longrightarrow> files_loop c p fs s = (r, s') \<Longrightarrow> prefix s s'"
proof (induction fs arbitrary: s r s')
  case (Cons f fs)
  then show ?case
    by (auto split: sum.splits prod.splits if_splits dest: sent_file_prefix) (metis sent_file_prefix prefix_order.trans)+
qed simp

lemma dir_prefix:
  assumes "stream_documented c" "sendDir c p h s = (r, s')"
  shows "prefix s s'"
proof -
  have "prefix s s'" if "sendDirInfo c d n s = (e, s1)" "dir_loop c q fs d s1 = (r2, s2)" "s' = s1 \<or> s' = s2 \<or> (\<exists>x e3. sendEndOfDir c x s2 = (e3, s'))"
    for d n e s1 q fs r2 s2
    using that dir_info_prefix [OF assms(1)] dir_loop_prefix [OF assms(1)]
    unfolding sendDirInfo_def sendEndOfDir_def by (metis prefix_order.trans)
  with assms(2) show ?thesis
    by (auto simp: sendDir_def Let_def split: sum.splits prod.splits option.splits) metis+
qed

lemma anything_prefix: "stream_documented c \<Longrightarrow> anything_loop c root ps i s = (r, s') \<Longrightarrow> prefix s s'"
proof (induction ps arbitrary: i s)
  case (Cons p ps)
  then show ?case
    by (auto simp: Let_def sendFiles_def split: sum.splits prod.splits stat_result.splits file_mode.splits
        dest: dir_prefix files_loop_prefix) (metis dir_prefix files_loop_prefix prefix_order.trans)+
qed simp

lemma eos_prefix: "stream_documented c \<Longrightarrow> deferred_eos c n e s = (r, s') \<Longrightarrow> prefix s s'"
  by (auto simp: deferred_eos_def sendEOS_def split: sum.splits prod.splits option.splits go_error.splits dest: send_prefix)

text \<open>So what arrives of an upload, however far it gets, starts with the kanban.\<close>

lemma client_first:
  assumes "stream_documented c" "sendToOtherDeviceClient c dial opened m [] = (r, ms)" "prefix (x # xs) ms"
  shows "sc_Code x = SendingKanban \<and> (\<exists>a. sc_Context x = Some a \<and> pack_kanban (cl_codec c) m = Inr a)"
proof -
  obtain e s1 where k: "sendKanban c m [] = (e, s1)" by fastforce
  have grow: "prefix s1 ms \<or> ms = []"
  proof (cases "dial = None \<and> opened = None \<and> e = None")
    case True
    note p = prefix_order.trans
    from True assms(2) k show ?thesis
      unfolding sendToOtherDeviceClient_def sendAnything_def sendToServerNotifyFailure_def
      by (auto split: option.splits if_splits sum.splits prod.splits go_error.splits
          dest!: anything_prefix [OF assms(1)] eos_prefix [OF assms(1)])
        (metis eos_prefix [OF assms(1)] server_prefix [OF assms(1)] prefix_order.trans prod.collapse)+
  qed (use assms(2) k in \<open>auto simp: sendToOtherDeviceClient_def split: if_splits option.splits\<close>)
  have s1: "s1 = [] \<or> (\<exists>a. pack_kanban (cl_codec c) m = Inr a \<and> s1 = [\<lparr>sc_Code = SendingKanban, sc_Context = Some a\<rparr>])"
    using k assms(1) by (auto simp: sendKanban_def stream_documented_def split: sum.splits) (metis append_Nil snd_conv)+
  have "s1 = [] \<Longrightarrow> e \<noteq> None"
    using k assms(1) by (auto simp: sendKanban_def stream_documented_def split: sum.splits) (metis append_Nil fst_conv snd_conv list.distinct(1))+
  then have "s1 = [] \<Longrightarrow> ms = []"
    using assms(2) k by (auto simp: sendToOtherDeviceClient_def split: if_splits option.splits)
  with assms(3) grow s1 show ?thesis by (auto simp: prefix_def)
qed

text \<open>What a receiver hands on: the kanban at the head of the upload, its list of files aside.\<close>

definition same_but_files :: "SendKanban \<Rightarrow> SendKanban \<Rightarrow> bool" where
  "same_but_files k k' \<longleftrightarrow> k' = k \<or> (\<exists>a fl. sd_AfterKanban k = Some a \<and> k' = k\<lparr>sd_AfterKanban := Some (a\<lparr>sk_FileList := fl\<rparr>)\<rparr>)"

lemma handed_shape:
  assumes "SendToOtherDevices sv ms g = (st, out, g')" "k' \<in> set out"
  shows "\<exists>m rest k. ms = m # rest \<and> unpack_kanban (rv_codec sv) (sc_Context m) = Inr k \<and> out = [k'] \<and> same_but_files k k'"
proof (cases ms)
  case Nil
  with assms show ?thesis by (auto simp: SendToOtherDevices_def messageParserInSendAnythingServer_def)
next
  case (Cons m rest)
  have parse: "messageParserInSendAnythingServer sv (rv_dataDir sv) (m # rest) g = (fst (messageParserInSendAnythingServer sv (rv_dataDir sv) (m # rest) g), out, g')"
    using assms(1) Cons by (auto simp: SendToOtherDevices_def split: prod.splits sum.splits)
  obtain k d h where k: "receiveSendingKanban sv m (rv_dataDir sv) g = Inr (k, d, h)"
    using parse assms(2) unfolding messageParserInSendAnythingServer_def
    by (auto split: if_splits sum.splits go_error.splits)
  obtain r k1 ms' g1 where r: "anything_recv sv d newOutputItemInfo k rest h = (r, k1, ms', g1)" by (metis prod_cases4)
  have "out = [k1]"
    using parse assms(2) k r unfolding messageParserInSendAnythingServer_def downloadAnything_def
    by (auto split: if_splits option.splits go_error.splits)
  moreover have "same_but_files k k1"
    using anything_recv_kanban [of k sv d newOutputItemInfo rest h] by (auto simp: r same_but_files_def)
  moreover have "unpack_kanban (rv_codec sv) (sc_Context m) = Inr k"
    using k by (auto simp: receiveSendingKanban_def Let_def split: sum.splits)
  ultimately show ?thesis using assms(2) Cons by auto
qed

lemma upload_hands_on:
  assumes "stream_documented c" "codec_ok (cl_codec c)" "rv_codec sv = cl_codec c"
    and "sendToOtherDeviceClient c dial opened m [] = (r, ms)" "prefix ms' ms"
    and "SendToOtherDevices sv ms' g = (st, out, g')" "k' \<in> set out"
  shows "out = [k'] \<and> same_but_files m k'"
proof -
  from handed_shape [OF assms(6,7)] obtain x rest k where
    k: "ms' = x # rest" "unpack_kanban (cl_codec c) (sc_Context x) = Inr k" "out = [k']" "same_but_files k k'"
    unfolding assms(3) by blast
  from client_first [OF assms(1,4)] assms(5) k(1) obtain a where
    "sc_Context x = Some a" "pack_kanban (cl_codec c) m = Inr a" by blast
  with codec_okD(1) [OF assms(2)] k(2) have "k = m" by auto
  with k(3,4) show ?thesis by simp
qed

section \<open>The network\<close>

text \<open>
  What all send-anythings have in common, and what each takes from its environment; the client
  of one upload, and the server of a device.
\<close>

record ('a, 'f) links =
  lk_codec :: "'a any_codec"
  lk_os :: "'f os_api"
  lk_md5 :: "bytes \<Rightarrow> bytes"
  lk_home :: "string \<Rightarrow> string"
  lk_dataDir :: "string \<Rightarrow> string"

definition client_at :: "('a, 'f) links \<Rightarrow> string \<Rightarrow> 'f \<Rightarrow> ('a SendContext \<Rightarrow> 'a messages \<Rightarrow> go_error option \<times> 'a messages) \<Rightarrow>
    'a messages retrier \<Rightarrow> ('a, 'f, 'a messages) client" where
  "client_at lk a fs send retry = \<lparr>cl_codec = lk_codec lk, cl_os = lk_os lk, cl_fs = fs, cl_md5 = lk_md5 lk,
     cl_home = lk_home lk a, cl_send = send, cl_retry = retry\<rparr>"

definition server_at :: "('a, 'f) links \<Rightarrow> string \<Rightarrow> ('a, 'f) server" where
  "server_at lk a = \<lparr>rv_codec = lk_codec lk, rv_os = lk_os lk, rv_md5 = lk_md5 lk, rv_dataDir = lk_dataDir lk a\<rparr>"

text \<open>
  A device is known by its address. The state holds the devices and their disks, the messages
  that have been taken from the channels, each with the device it was taken from, and the
  kanbans that the receivers have handed on and that are on the way to the broker of their device.
\<close>

record ('r, 'q, 'f) network =
  nt_devices :: "string \<Rightarrow> ('r, 'q) device"
  nt_disks :: "string \<Rightarrow> 'f"
  nt_uploads :: "(string \<times> SendKanban) list"
  nt_handed :: "(string \<times> SendKanban) list"

definition new_network :: "(string \<Rightarrow> ('r, 'q) device) \<Rightarrow> (string \<Rightarrow> 'f) \<Rightarrow> ('r, 'q, 'f) network" where
  "new_network ds fs = \<lparr>nt_devices = ds, nt_disks = fs, nt_uploads = [], nt_handed = []\<rparr>"

abbreviation sent_by :: "('r, 'q, 'f) network \<Rightarrow> string \<Rightarrow> SendKanban list" where
  "sent_by n a \<equiv> wt_sent (dn_watcher (nt_devices n a))"

abbreviation history_of :: "('r, 'q, 'f) network \<Rightarrow> string \<Rightarrow> history" where
  "history_of n a \<equiv> dn_history (nt_devices n a)"

definition uploads_of :: "('r, 'q, 'f) network \<Rightarrow> string \<Rightarrow> SendKanban list" where
  "uploads_of n a = map snd (filter (\<lambda>p. fst p = a) (nt_uploads n))"

text \<open>A kanban from another device reaches the broker.\<close>

definition arrive :: "'r redis_api \<Rightarrow> json_codec \<Rightarrow> SendKanban \<Rightarrow> ('r, 'q) device \<Rightarrow> ('r, 'q) device" where
  "arrive api jc sd s = s\<lparr>dn_watcher := WatchReceiveKanban api jc (dn_watcher s) (ReceivedKanban sd),
     dn_history := (dn_history s)\<lparr>hi_arrived := hi_arrived (dn_history s) @ [sd]\<rparr>\<rparr>"

text \<open>
  A step of the network: a device goes on by itself; its programs write files; the next of its
  messages is taken and uploaded to the device with the address in it, where a first part of
  what the client sends is parsed (none of it when the connection fails, and then the message
  is lost); a kanban that was handed on reaches the broker, or gets lost on the way.
\<close>

inductive network_step :: "'r redis_api \<Rightarrow> json_codec \<Rightarrow> struct_codec \<Rightarrow> (string \<Rightarrow> 'q k8s_world) \<Rightarrow> ('a, 'f) links \<Rightarrow>
    ('r, 'q, 'f) network \<Rightarrow> ('r, 'q, 'f) network \<Rightarrow> bool"
  for api jc sc kw lk where
  Local: "device_step api jc sc (kw a) (nt_devices n a) s \<Longrightarrow> hi_arrived (dn_history s) = hi_arrived (history_of n a) \<Longrightarrow>
    network_step api jc sc kw lk n (n\<lparr>nt_devices := (nt_devices n)(a := s)\<rparr>)"
| Files: "network_step api jc sc kw lk n (n\<lparr>nt_disks := (nt_disks n)(a := f)\<rparr>)"
| Upload: "drop (length (uploads_of n a)) (sent_by n a) = m # ms \<Longrightarrow>
    stream_documented (client_at lk a (nt_disks n a) send retry) \<Longrightarrow>
    sendToOtherDeviceClient (client_at lk a (nt_disks n a) send retry) dial opened m [] = (r, xs) \<Longrightarrow> prefix ys xs \<Longrightarrow>
    SendToOtherDevices (server_at lk (sd_DeviceAddr m)) ys (nt_disks n (sd_DeviceAddr m)) = (st, out, f) \<Longrightarrow>
    network_step api jc sc kw lk n (n\<lparr>nt_disks := (nt_disks n)(sd_DeviceAddr m := f), nt_uploads := nt_uploads n @ [(a, m)],
      nt_handed := nt_handed n @ map (Pair (sd_DeviceAddr m)) out\<rparr>)"
| Arrives: "nt_handed n = xs @ (a, sd) # ys \<Longrightarrow>
    network_step api jc sc kw lk n (n\<lparr>nt_devices := (nt_devices n)(a := arrive api jc sd (nt_devices n a)), nt_handed := xs @ ys\<rparr>)"
| Lost: "nt_handed n = xs @ p # ys \<Longrightarrow> network_step api jc sc kw lk n (n\<lparr>nt_handed := xs @ ys\<rparr>)"

abbreviation network_runs where
  "network_runs api jc sc kw lk \<equiv> (network_step api jc sc kw lk)\<^sup>*\<^sup>*"

section \<open>Each device in the network runs as one by itself\<close>

lemma arrive_step: "device_step api jc sc kw s (arrive api jc sd s)"
  unfolding arrive_def by (rule device_step.Arrive)

text \<open>What the network does to a device is a step of the device, or nothing.\<close>

lemma network_device:
  assumes "network_step api jc sc kw lk n n'"
  shows "nt_devices n' a = nt_devices n a \<or> device_step api jc sc (kw a) (nt_devices n a) (nt_devices n' a)"
  using assms by cases (auto intro: arrive_step)

lemma runs_device:
  "network_runs api jc sc kw lk n n' \<Longrightarrow> device_runs api jc sc (kw a) (nt_devices n a) (nt_devices n' a)"
  by (induction rule: rtranclp_induct) (auto dest: network_device [of api jc sc kw lk _ _ a])

text \<open>A device never forgets what has happened, and what it has sent stays in the order it was sent.\<close>

lemma started_prefix [simp]: "prefix xs (xs @ ys)"
  by (simp add: prefix_def)

lemma device_grows:
  assumes "device_step api jc sc kw s s'"
  shows "continues (dn_history s) (dn_history s') \<and> prefix (wt_sent (dn_watcher s)) (wt_sent (dn_watcher s')) \<and>
    prefix (hi_arrived (dn_history s)) (hi_arrived (dn_history s'))"
proof -
  have "prefix (wt_sent (dn_watcher s)) (wt_sent (dn_watcher s'))"
    using step_queues [OF assms] by (auto simp: queues_on_def send_queued_def)
  moreover have "continues (dn_history s) (dn_history s') \<and> prefix (hi_arrived (dn_history s)) (hi_arrived (dn_history s'))"
    using assms by cases (auto simp: continues_def)
  ultimately show ?thesis by blast
qed

section \<open>Every arrival has its own message\<close>

text \<open>What the kanbans on the way to a device and those that have reached it are made of.\<close>

definition under_way :: "('r, 'q, 'f) network \<Rightarrow> string \<Rightarrow> SendKanban list" where
  "under_way n b = map snd (filter (\<lambda>p. fst p = b) (nt_handed n)) @ hi_arrived (history_of n b)"

definition uploads_to :: "('r, 'q, 'f) network \<Rightarrow> string \<Rightarrow> SendKanban list" where
  "uploads_to n b = filter (\<lambda>m. sd_DeviceAddr m = b) (map snd (nt_uploads n))"

definition matched :: "SendKanban list \<Rightarrow> SendKanban list \<Rightarrow> bool" where
  "matched us ks \<longleftrightarrow> (\<exists>U. U \<subseteq># mset us \<and> rel_mset same_but_files U (mset ks))"

lemma matched_more: "matched us ks \<Longrightarrow> matched (us @ vs) ks"
  unfolding matched_def by (metis mset_append mset_subset_eq_add_left subset_mset.order_trans)

lemma matched_add: "matched us ks \<Longrightarrow> same_but_files m k \<Longrightarrow> matched (us @ [m]) (ks @ [k])"
proof -
  assume "matched us ks" "same_but_files m k"
  then obtain U where "U \<subseteq># mset us" "rel_mset same_but_files (add_mset m U) (add_mset k (mset ks))"
    by (auto simp: matched_def intro: rel_mset_Plus)
  then show ?thesis unfolding matched_def by (intro exI [of _ "add_mset m U"]) simp
qed

lemma matched_perm: "matched us ks \<Longrightarrow> mset ks = mset ks' \<Longrightarrow> matched us ks'"
  by (simp add: matched_def)

lemma matched_less: "matched us ks \<Longrightarrow> mset ks = add_mset k (mset ks') \<Longrightarrow> matched us ks'"
  unfolding matched_def by (metis msed_rel_invR mset_subset_eq_add_right add_mset_add_single union_commute subset_mset.order_trans)

lemma matched_in: "matched us ks \<Longrightarrow> k \<in> set ks \<Longrightarrow> \<exists>m \<in> set us. same_but_files m k"
proof -
  assume "matched us ks" "k \<in> set ks"
  then obtain U where U: "U \<subseteq># mset us" "rel_mset same_but_files U (mset ks)" "k \<in># mset ks" by (auto simp: matched_def)
  then obtain N where "mset ks = add_mset k N" by (meson mset_add)
  with U(2) obtain m M where "U = add_mset m M" "same_but_files m k" by (metis msed_rel_invR)
  with U(1) show ?thesis by (metis mset_subset_eqD set_mset_mset union_single_eq_member)
qed

definition tracked :: "('r, 'q, 'f) network \<Rightarrow> bool" where
  "tracked n \<longleftrightarrow> (\<forall>a. prefix (uploads_of n a) (sent_by n a)) \<and> (\<forall>b. matched (uploads_to n b) (under_way n b))"

lemma handed_for: "map snd (filter (\<lambda>p. fst p = b) (map (Pair c) out)) = (if c = b then out else [])"
  by (induction out) auto

lemma tracked_new:
  assumes "\<And>a. hi_arrived (dn_history (ds a)) = []"
  shows "tracked (new_network ds fs)"
  using assms by (simp add: tracked_def new_network_def uploads_of_def uploads_to_def under_way_def matched_def)

lemma tracked_step:
  assumes "network_step api jc sc kw lk n n'" "codec_ok (lk_codec lk)" "tracked n"
  shows "tracked n'"
  using assms(1)
proof cases
  case (Local a s)
  have "prefix (sent_by n a) (wt_sent (dn_watcher s))" using device_grows [OF Local(2)] by simp
  with assms(3) Local show ?thesis
    by (auto simp: tracked_def uploads_of_def uploads_to_def under_way_def intro: prefix_order.trans)
next
  case (Files a f)
  with assms(3) show ?thesis by (simp add: tracked_def uploads_of_def uploads_to_def under_way_def)
next
  case (Upload a m ms send retry dial opened r xs ys st out f)
  have "prefix (uploads_of n a @ [m]) (sent_by n a)"
  proof -
    from assms(3) obtain zs where "sent_by n a = uploads_of n a @ zs" by (auto simp: tracked_def prefix_def)
    with Upload(2) show ?thesis by (simp add: prefix_def)
  qed
  moreover have "out = [] \<or> (\<exists>k. out = [k] \<and> same_but_files m k)"
  proof (cases out)
    case (Cons k ks)
    have "codec_ok (cl_codec (client_at lk a (nt_disks n a) send retry))"
      "rv_codec (server_at lk (sd_DeviceAddr m)) = cl_codec (client_at lk a (nt_disks n a) send retry)"
      using assms(2) by (simp_all add: client_at_def server_at_def)
    from upload_hands_on [OF Upload(3) this Upload(4-6), of k] Cons show ?thesis by simp
  qed simp
  moreover have "matched (uploads_to n' b) (under_way n' b)" for b
  proof -
    let ?out = "if sd_DeviceAddr m = b then out else []" and ?m = "if sd_DeviceAddr m = b then [m] else []"
    have "matched (uploads_to n b) (under_way n b)" using assms(3) by (simp add: tracked_def)
    with calculation(2) have "matched (uploads_to n b @ ?m) (under_way n b @ ?out)"
      by (auto simp: matched_more matched_add)
    moreover have "mset (under_way n b @ ?out) = mset (under_way n' b)"
      by (simp add: Upload(1) under_way_def handed_for)
    moreover have "uploads_to n b @ ?m = uploads_to n' b" by (simp add: Upload(1) uploads_to_def)
    ultimately show ?thesis using matched_perm by metis
  qed
  ultimately show ?thesis
    using assms(3) by (auto simp: tracked_def Upload(1) uploads_of_def)
next
  case (Arrives xs a sd ys)
  have same: "uploads_to n' = uploads_to n" "\<And>b. uploads_of n' b = uploads_of n b" "\<And>b. sent_by n' b = sent_by n b"
    by (simp_all add: Arrives(1) uploads_to_def uploads_of_def arrive_def fun_eq_iff)
  have "mset (under_way n b) = mset (under_way n' b)" for b
    by (simp add: Arrives under_way_def arrive_def)
  then show ?thesis
    using assms(3) matched_perm unfolding tracked_def same by metis
next
  case (Lost xs p ys)
  have same: "uploads_to n' = uploads_to n" "\<And>b. uploads_of n' b = uploads_of n b"
    by (simp_all add: Lost(1) uploads_to_def uploads_of_def fun_eq_iff)
  have "mset (under_way n b) = mset (under_way n' b) \<or> mset (under_way n b) = add_mset (snd p) (mset (under_way n' b))" for b
    by (simp add: Lost under_way_def)
  then have "matched (uploads_to n b) (under_way n' b)" for b
    using assms(3) matched_perm matched_less unfolding tracked_def by metis
  with assms(3) show ?thesis unfolding tracked_def same by (simp add: Lost(1))
qed

lemma runs_tracked:
  assumes "network_runs api jc sc kw lk (new_network (\<lambda>a. new_device (home a) (worker a) (ke a) (r a)) fs) n" "codec_ok (lk_codec lk)"
  shows "tracked n"
  using assms(1)
proof (induction rule: rtranclp_induct)
  case base
  show ?case by (rule tracked_new) (simp add: new_device_def)
qed (rule tracked_step [OF _ assms(2)])

lemma network_sound:
  assumes "redis_entries api ent" "codec_documented jc" "\<And>a j. ent (r a) j = []"
    and "network_runs api jc sc kw lk (new_network (\<lambda>a. new_device (home a) (worker a) (ke a) (r a)) fs) n"
  shows "sound jc ent (nt_devices n a)"
  using redis_entries.reachable_sound [OF assms(1) _ assms(2,3), of sc "kw a" "home a" "worker a" "ke a" a] runs_device [OF assms(4), of a]
  by (simp add: new_network_def)

lemma matched_tail: "matched us (xs @ ys) \<Longrightarrow> matched us ys"
  by (induction xs) (simp_all, metis matched_less mset.simps(2))

lemma matched_length: "matched us ks \<Longrightarrow> length ks \<le> length us"
  unfolding matched_def by (metis rel_mset_size size_mset size_mset_mono)

text \<open>What has arrived at a device was sent by one, and why.\<close>

lemma arrival_forwarded:
  assumes "tracked n" "\<And>a. sound jc ent (nt_devices n a)" "sd \<in> set (hi_arrived (history_of n b))"
  shows "\<exists>a m. forwarded (history_of n a) m \<and> sd_DeviceAddr m = b \<and> same_but_files m sd"
proof -
  from assms(1) have "matched (uploads_to n b) (hi_arrived (history_of n b))"
    by (auto simp: tracked_def under_way_def elim: matched_tail)
  from matched_in [OF this assms(3)] obtain m where m: "m \<in> set (uploads_to n b)" "same_but_files m sd" by blast
  then obtain a where "m \<in> set (uploads_of n a)" "sd_DeviceAddr m = b"
    by (auto simp: uploads_to_def uploads_of_def image_iff)
  moreover have "prefix (uploads_of n a) (sent_by n a)" using assms(1) by (simp add: tracked_def)
  ultimately have "m \<in> set (sent_by n a)" using set_mono_prefix by blast
  with assms(2) [of a] have "forwarded (history_of n a) m" by (simp add: sound_def watcher_ok_def)
  with m(2) \<open>sd_DeviceAddr m = b\<close> show ?thesis by blast
qed

lemma next_container: "container_of ((sent_remote as k v)\<lparr>sd_AfterKanban := x\<rparr>) = started_local k v"
  by (simp add: container_of_def sent_remote_def started_local_def Let_def next_number_int32)

lemma same_but_files_simps:
  assumes "same_but_files m sd"
  shows "container_of sd = container_of m"
    "sd_AfterKanban m = Some k \<Longrightarrow> \<exists>fl. sd_AfterKanban sd = Some (k\<lparr>sk_FileList := fl\<rparr>)"
  using assms by (auto simp: same_but_files_def container_of_def intro: exI [of _ "sk_FileList k"])

section \<open>An example\<close>

text \<open>A first device whose microservice outputs a kanban for a service of a second device.\<close>

definition ex_links :: "(wire, ref_disk) links" where
  "ex_links = \<lparr>lk_codec = ref_codec, lk_os = ref_os, lk_md5 = (\<lambda>d. [of_nat (length d)]), lk_home = (\<lambda>a. ''/aion''),
     lk_dataDir = (\<lambda>a. ''/data'')\<rparr>"

definition ex_first :: "(ref_redis, string) device" where
  "ex_first = (let b = snd (handle ex_world (Deploy (Some ex_crossing)) (dn_broker ex_start)) in
     ex_start\<lparr>dn_watcher := (dn_watcher ex_start)\<lparr>wt_aionSetting := Some ex_crossing\<rparr>, dn_broker := b,
       dn_watches := map new_watch (br_watchers b), dn_history := (dn_history ex_start)\<lparr>hi_deployed := [ex_crossing]\<rparr>\<rparr>)"

definition ex_first_output :: "(ref_redis, string) device" where
  "ex_first_output = (with_redis (snd (OutputKanban (direct_service ref_api ex_run_codec) Pipeline.ex_client (Some ex_kanban) (dn_redis ex_first)))
     ex_first)\<lparr>dn_history := (dn_history ex_first)\<lparr>hi_outputs := [(''a'', ex_kanban)]\<rparr>\<rparr>"

abbreviation ex_held :: AdaptorKanban where
  "ex_held \<equiv> \<lparr>ak_ID = ''10'', ak_Kanban = Some ex_kanban\<rparr>"

definition ex_first_read :: "(ref_redis, string) device" where
  "ex_first_read = ex_first_output\<lparr>dn_watches := [(new_watch (''a'', 1))\<lparr>iw_prevID := ''10'', iw_held := Some ex_held\<rparr>]\<rparr>"

definition ex_first_queued :: "(ref_redis, string) device" where
  "ex_first_queued = ex_first_read\<lparr>dn_watcher := snd (WatchMicroservice ref_api ex_run_codec ex_struct_codec ''a'' ex_held (dn_watcher ex_first_read)),
     dn_watches := [(new_watch (''a'', 1))\<lparr>iw_prevID := ''10''\<rparr>]\<rparr>"

definition ex_first_sent :: "(ref_redis, string) device" where
  "ex_first_sent = ex_first_queued\<lparr>dn_watcher := send_queued (dn_watcher ex_first_queued)\<rparr>"

lemma ex_first_run: "device_runs ref_api ex_run_codec ex_struct_codec ex_world ex_start ex_first_sent"
proof -
  let ?step = "device_step ref_api ex_run_codec ex_struct_codec ex_world"
  let ?b = "snd (handle ex_world (Deploy (Some ex_crossing)) (dn_broker ex_start))"
  let ?t = "(new_watch (''a'', 1))\<lparr>iw_prevID := ''10'', iw_held := Some ex_held\<rparr>"
  let ?s = "ex_first\<lparr>dn_watcher := dn_watcher ex_start, dn_aionChForWatcher := [ex_crossing]\<rparr>"
  have d: "handle ex_world (Deploy (Some ex_crossing)) (dn_broker ex_start) = (None, ?b)"
    by (rule prod_eqI) (code_simp, simp)
  from device_step.Deployed [OF d, of ref_api ex_run_codec ex_struct_codec] have 1: "?step ex_start ?s"
    by (simp add: ex_first_def Let_def) (simp add: ex_start_def new_device_def NewWatcher_def)
  have 2: "?step ?s ex_first"
    using device_step.TakeSetting [of ?s ex_crossing "[]" ref_api ex_run_codec ex_struct_codec ex_world]
    by (simp add: ex_first_def Let_def) (simp add: ex_start_def new_device_def NewWatcher_def)
  have "mc_serviceName Pipeline.ex_client = ''a''" by (simp add: Pipeline.ex_client_def)
  with device_step.Output [where s = ex_first and c = Pipeline.ex_client and k = ex_kanban, OF prod.collapse [symmetric]]
  have 3: "?step ex_first ex_first_output"
    by (simp add: ex_first_output_def) (simp add: ex_first_def Let_def ex_start_def new_device_def)
  have w3: "dn_watches ex_first_output = [] @ new_watch (''a'', 1) # []" by code_simp
  have "fst (watch_iter ref_api ex_run_codec (after_key_of (new_watch (''a'', 1))) False initPrevID (dn_redis ex_first_output)) =
      Deliver ex_held" by code_simp
  then have rd: "watch_iter ref_api ex_run_codec (after_key_of (new_watch (''a'', 1))) False (iw_prevID (new_watch (''a'', 1)))
      (dn_redis ex_first_output) = (Deliver ex_held, dn_redis ex_first_output)"
    by (intro prod_eqI) (simp_all add: new_watch_def ref_read_keeps)
  have 4: "?step ex_first_output ex_first_read"
    using device_step.Read [OF w3 _ _ rd] by (simp add: ex_first_read_def new_watch_def with_redis_def)
  have w4: "dn_watches ex_first_read = [] @ ?t # []" by (simp add: ex_first_read_def)
  have "fst (WatchMicroservice ref_api ex_run_codec ex_struct_codec ''a'' ex_held (dn_watcher ex_first_read)) = Continue"
    by code_simp
  then have wm: "WatchMicroservice ref_api ex_run_codec ex_struct_codec (iw_name ?t) ex_held (dn_watcher ex_first_read) =
     (Continue, dn_watcher ex_first_queued)"
    by (intro prod_eqI) (simp_all add: new_watch_def ex_first_queued_def)
  have 5: "?step\<^sup>*\<^sup>* ex_first_read ex_first_queued"
    using routed_run [OF w4 _ _ _ wm] by (simp add: ex_first_queued_def new_watch_def)
  have "length (wt_sent (dn_watcher ex_first_queued)) < length (wt_sendCh (dn_watcher ex_first_queued))" by code_simp
  from device_step.Marshal [OF this] have 6: "?step ex_first_queued ex_first_sent" by (simp add: ex_first_sent_def)
  note more = converse_rtranclp_into_rtranclp [of ?step]
  show ?thesis
    by (rule more, rule 1, rule more, rule 2, rule more, rule 3, rule more, rule 4, rule rtranclp_trans, rule 5,
        rule r_into_rtranclp, rule 6)
qed

definition ex_message :: SendKanban where
  "ex_message = \<lparr>sd_DeviceName = ''dev'', sd_DeviceAddr = ''10.0.0.2'', sd_NextService = ''s'', sd_NextNumber = 1, sd_AfterKanban = Some ex_kanban\<rparr>"

lemma ex_first_message: "wt_sent (dn_watcher ex_first_sent) = [ex_message]"
  by code_simp

lemma device_runs_grow: "device_runs api jc sc kw s s' \<Longrightarrow> prefix (hi_arrived (dn_history s)) (hi_arrived (dn_history s'))"
  by (induction rule: rtranclp_induct) (auto dest: device_grows intro: prefix_order.trans)

text \<open>A run of a device in which nothing arrives is one of the network.\<close>

lemma local_runs:
  assumes "device_runs api jc sc (kw a) (nt_devices n a) s" "hi_arrived (dn_history s) = hi_arrived (history_of n a)"
  shows "network_runs api jc sc kw lk n (n\<lparr>nt_devices := (nt_devices n)(a := s)\<rparr>)"
  using assms
proof (induction rule: rtranclp_induct)
  case (step s1 s2)
  from step.prems device_grows [OF step.hyps(2)] device_runs_grow [OF step.hyps(1)]
  have eq: "hi_arrived (dn_history s1) = hi_arrived (history_of n a)" "hi_arrived (dn_history s2) = hi_arrived (dn_history s1)"
    by (metis prefix_order.antisym)+
  let ?n = "n\<lparr>nt_devices := (nt_devices n)(a := s1)\<rparr>"
  have "network_step api jc sc kw lk ?n (?n\<lparr>nt_devices := (nt_devices ?n)(a := s2)\<rparr>)"
    by (rule network_step.Local) (simp_all add: step.hyps(2) eq)
  moreover have "?n\<lparr>nt_devices := (nt_devices ?n)(a := s2)\<rparr> = n\<lparr>nt_devices := (nt_devices n)(a := s2)\<rparr>" by simp
  ultimately show ?case using rtranclp.rtrancl_into_rtrancl [OF step.IH [OF eq(1)]] by metis
qed simp

definition ex_disks :: "string \<Rightarrow> ref_disk" where
  "ex_disks = (\<lambda>a. [(''/aion'', None), (''/data'', None)])"

definition ex_second :: "(ref_redis, string) device" where
  "ex_second = arrive ref_api ex_run_codec ex_message ex_start"

definition ex_second_sent :: "(ref_redis, string) device" where
  "ex_second_sent = (with_redis (snd (watch_iter ref_api ex_run_codec (before_key (NewContainer ''s'' 1)) True initPrevID (dn_redis ex_second)))
     ex_second)\<lparr>dn_sessions := [(new_session_watch (newSession ''s'' 1 ''''))\<lparr>sw_prevID := ''10''\<rparr>],
       dn_received := [(NewContainer ''s'' 1, Some ex_kanban)]\<rparr>"

lemma ex_second_run: "device_runs ref_api ex_run_codec ex_struct_codec ex_world ex_second ex_second_sent"
proof -
  let ?step = "device_step ref_api ex_run_codec ex_struct_codec ex_world"
  let ?se = "newSession ''s'' 1 ''''" and ?s = "ex_second\<lparr>dn_sessions := [new_session_watch (newSession ''s'' 1 '''')]\<rparr>"
  have none: "dn_sessions ex_second = []" "dn_received ex_second = []"
    by (simp_all add: ex_second_def arrive_def ex_start_def new_device_def)
  have "NewMicroserviceSession ref_api ex_run_codec '''' '''' (init_of (NewContainer ''s'' 1)) (dn_redis ex_second) = (?se, dn_redis ex_second)"
    by (simp add: NewMicroserviceSession_def init_of_def NewContainer_def to_int_to_int32 fits_int32_def)
  from device_step.Connect [OF this] none(1) have 1: "?step ex_second ?s"
    by (simp add: init_of_def with_redis_def)
  let ?r = "snd (watch_iter ref_api ex_run_codec (before_key (NewContainer ''s'' 1)) True initPrevID (dn_redis ex_second))"
  have "fst (watch_iter ref_api ex_run_codec (before_key (NewContainer ''s'' 1)) True initPrevID (dn_redis ex_second)) = Deliver ex_held"
    by code_simp
  then have sr: "watch_iter ref_api ex_run_codec (before_key (session_container (sw_session (new_session_watch ?se)))) True
      (sw_prevID (new_session_watch ?se)) (dn_redis ?s) = (Deliver ex_held, ?r)"
    by (intro prod_eqI) (simp_all add: new_session_watch_def session_container_def newSession_def)
  let ?s' = "(with_redis ?r ?s)\<lparr>dn_sessions := [(new_session_watch ?se)\<lparr>sw_prevID := ''10'', sw_held := Some ex_held\<rparr>]\<rparr>"
  have s1: "dn_sessions ?s = [] @ new_session_watch ?se # []" by simp
  have 2: "?step ?s ?s'"
    using device_step.SessionRead [OF s1 _ sr] by (simp add: new_session_watch_def)
  have 3: "?step ?s' ex_second_sent"
    using device_step.SessionSend [where s = ?s' and ts = "[]" and us = "[]" and ak = ex_held
        and t = "(new_session_watch ?se)\<lparr>sw_prevID := ''10'', sw_held := Some ex_held\<rparr>"] none(2)
    by (simp add: ex_second_sent_def with_redis_def new_session_watch_def session_container_def newSession_def)
  note more = converse_rtranclp_into_rtranclp [of ?step]
  show ?thesis
    by (rule more, rule 1, rule more, rule 2, rule more, rule 3, rule rtranclp.rtrancl_refl)
qed

definition ex_uploader :: "(wire, ref_disk, wire messages) client" where
  "ex_uploader = client_at ex_links ''10.0.0.1'' (ex_disks ''10.0.0.1'') (\<lambda>m s. (None, s @ [m])) ref_retry"

lemma ex_upload:
  "stream_documented ex_uploader" "fst (sendToOtherDeviceClient ex_uploader None None ex_message []) = None"
  "fst (snd (SendToOtherDevices (server_at ex_links ''10.0.0.2'') (snd (sendToOtherDeviceClient ex_uploader None None ex_message []))
     (ex_disks ''10.0.0.2''))) = [ex_message]"
proof -
  show "stream_documented ex_uploader" by (simp add: stream_documented_def ex_uploader_def client_at_def)
qed code_simp+

lemma ex_links_codec: "codec_ok (lk_codec ex_links)"
  by (simp add: ex_links_def ref_codec_ok)


text \<open>
  The device 10.0.0.1 routes what its microservice \<open>a\<close> outputs to the device 10.0.0.2, where it
  is handed to the microservice \<open>s\<close>.
\<close>

definition ex_network :: "(ref_redis, string, ref_disk) network" where
  "ex_network = new_network (\<lambda>_. ex_start) ex_disks"

definition ex_delivered :: "(ref_redis, string, ref_disk) network" where
  "ex_delivered = ex_network\<lparr>nt_devices := (\<lambda>_. ex_start)(''10.0.0.1'' := ex_first_sent, ''10.0.0.2'' := ex_second_sent),
     nt_disks := ex_disks(''10.0.0.2'' := snd (snd (SendToOtherDevices (server_at ex_links ''10.0.0.2'')
       (snd (sendToOtherDeviceClient ex_uploader None None ex_message [])) (ex_disks ''10.0.0.2'')))),
     nt_uploads := [(''10.0.0.1'', ex_message)]\<rparr>"

lemma ex_network_run:
  "network_runs ref_api ex_run_codec ex_struct_codec (\<lambda>_. ex_world) ex_links ex_network ex_delivered"
proof -
  let ?step = "network_step ref_api ex_run_codec ex_struct_codec (\<lambda>_. ex_world) ex_links"
  let ?runs = "network_runs ref_api ex_run_codec ex_struct_codec (\<lambda>_. ex_world) ex_links"
  define n1 where "n1 = ex_network\<lparr>nt_devices := (\<lambda>_. ex_start)(''10.0.0.1'' := ex_first_sent)\<rparr>"
  define xs where "xs = snd (sendToOtherDeviceClient ex_uploader None None ex_message [])"
  define up where "up = SendToOtherDevices (server_at ex_links ''10.0.0.2'') xs (ex_disks ''10.0.0.2'')"
  define n2 where "n2 = n1\<lparr>nt_disks := ex_disks(''10.0.0.2'' := snd (snd up)), nt_uploads := [(''10.0.0.1'', ex_message)],
    nt_handed := [(''10.0.0.2'', ex_message)]\<rparr>"
  define n3 where "n3 = n2\<lparr>nt_devices := (nt_devices n1)(''10.0.0.2'' := ex_second), nt_handed := []\<rparr>"
  have quiet: "hi_arrived (dn_history ex_start) = []" "hi_arrived (dn_history ex_first_sent) = []"
    "hi_arrived (dn_history ex_second) = [ex_message]" "hi_arrived (dn_history ex_second_sent) = [ex_message]"
    by (simp_all add: ex_first_sent_def ex_first_queued_def ex_first_read_def ex_first_output_def ex_first_def ex_second_sent_def ex_second_def
        arrive_def ex_start_def new_device_def with_redis_def Let_def)
  have start: "nt_devices ex_network = (\<lambda>_. ex_start)" "nt_disks ex_network = ex_disks" "nt_uploads ex_network = []" "nt_handed ex_network = []"
    by (simp_all add: ex_network_def new_network_def)
  have 1: "?runs ex_network n1"
    using local_runs [where kw = "\<lambda>_. ex_world" and a = "''10.0.0.1''" and n = ex_network and s = ex_first_sent] ex_first_run
    by (simp add: start quiet n1_def)
  have "?step n1 (n1\<lparr>nt_disks := (nt_disks n1)(sd_DeviceAddr ex_message := snd (snd up)), nt_uploads := nt_uploads n1 @ [(''10.0.0.1'', ex_message)],
      nt_handed := nt_handed n1 @ map (Pair (sd_DeviceAddr ex_message)) (fst (snd up))\<rparr>)"
  proof (rule network_step.Upload)
    show "drop (length (uploads_of n1 ''10.0.0.1'')) (sent_by n1 ''10.0.0.1'') = ex_message # []"
      by (simp add: n1_def start uploads_of_def ex_first_message)
    have c: "client_at ex_links ''10.0.0.1'' (nt_disks n1 ''10.0.0.1'') (\<lambda>m s. (None, s @ [m])) ref_retry = ex_uploader"
      by (simp add: n1_def start ex_uploader_def)
    show "stream_documented (client_at ex_links ''10.0.0.1'' (nt_disks n1 ''10.0.0.1'') (\<lambda>m s. (None, s @ [m])) ref_retry)"
      unfolding c by (rule ex_upload(1))
    show "sendToOtherDeviceClient (client_at ex_links ''10.0.0.1'' (nt_disks n1 ''10.0.0.1'') (\<lambda>m s. (None, s @ [m])) ref_retry) None None ex_message []
        = (fst (sendToOtherDeviceClient ex_uploader None None ex_message []), xs)"
      unfolding c by (simp add: xs_def)
    show "prefix xs xs" by simp
    show "SendToOtherDevices (server_at ex_links (sd_DeviceAddr ex_message)) xs (nt_disks n1 (sd_DeviceAddr ex_message)) =
        (fst up, fst (snd up), snd (snd up))"
      by (simp add: up_def n1_def start ex_message_def)
  qed
  moreover have "fst (snd up) = [ex_message]" using ex_upload(3) by (simp add: up_def xs_def)
  ultimately have 2: "?step n1 n2"
    by (simp add: n2_def n1_def start ex_message_def)
  have 3: "?step n2 n3"
    using network_step.Arrives [of n2 "[]" "''10.0.0.2''" ex_message "[]" ref_api ex_run_codec]
    by (simp add: n3_def n2_def n1_def start ex_second_def)
  have 4: "?runs n3 (n3\<lparr>nt_devices := (nt_devices n3)(''10.0.0.2'' := ex_second_sent)\<rparr>)"
    using local_runs [where kw = "\<lambda>_. ex_world" and a = "''10.0.0.2''" and n = n3 and s = ex_second_sent] ex_second_run
    by (simp add: n3_def quiet)
  have end_state: "n3\<lparr>nt_devices := (nt_devices n3)(''10.0.0.2'' := ex_second_sent)\<rparr> = ex_delivered"
    by (simp add: n3_def n2_def n1_def ex_delivered_def up_def xs_def start)
  from rtranclp_trans [OF rtranclp.rtrancl_into_rtrancl [OF rtranclp.rtrancl_into_rtrancl [OF 1 2] 3] 4]
  show ?thesis unfolding end_state .
qed

lemma ex_delivered_devices:
  "nt_devices ex_delivered ''10.0.0.2'' = ex_second_sent" "nt_devices ex_delivered ''10.0.0.1'' = ex_first_sent"
  by (simp_all add: ex_delivered_def)

section \<open>What a network delivers\<close>

text \<open>
  C2. Every kanban in a network has an origin. However many devices there are, in whatever order
  they take their turns, and whichever messages, uploads, Redis commands and sends fail, a
  kanban that a microservice is sent is the one made for its own start, or was output by a
  microservice of the same device, or was output by a microservice of some device, unchanged
  but for the device name and the list of files. In the last case a project deployed on that
  device names just this instance as a next service of that microservice for the connection
  key of the kanban, and a project deployed on it has this address for the device that the
  kanban was for when it was queued. The two projects are the same unless one was deployed
  while the kanban was being routed; the device name is the one that was output or the own
  name of that device.
\<close>

theorem network_origin:
  assumes "redis_entries api ent" "codec_documented jc" "codec_ok (lk_codec lk)" "\<And>a j. ent (r a) j = []"
    and "network_runs api jc sc kw lk (new_network (\<lambda>a. new_device (home a) (worker a) (ke a) (r a)) fs) n"
    and "(c, ko) \<in> set (dn_received (nt_devices n b))"
  shows "\<exists>received. ko = Some received \<and> ((c, received) \<in> set (hi_initial (history_of n b)) \<or>
    routed_to (history_of n b) c received \<or>
    (\<exists>a as as' k0 k k1 v fl. next_of (history_of n a) as k0 v \<and> as' \<in> set (hi_deployed (history_of n a)) \<and>
      named (history_of n a) k0 k \<and> remote as' k v \<and> sd_DeviceAddr (sent_remote as' k v) = b \<and>
      named (history_of n a) k0 k1 \<and> c = started_local k0 v \<and> received = k1\<lparr>sk_FileList := fl\<rparr>))"
proof -
  note sound = network_sound [OF assms(1,2,4,5)]
  from sound [of b] assms(6) obtain received where k: "ko = Some received" "justified (history_of n b) c received"
    by (auto simp: sound_def receipt_ok_def)
  have "\<exists>a as as' k0 k k1 v fl. next_of (history_of n a) as k0 v \<and> as' \<in> set (hi_deployed (history_of n a)) \<and>
      named (history_of n a) k0 k \<and> remote as' k v \<and> sd_DeviceAddr (sent_remote as' k v) = b \<and>
      named (history_of n a) k0 k1 \<and> c = started_local k0 v \<and> received = k1\<lparr>sk_FileList := fl\<rparr>"
    if "arrived_for (history_of n b) c received"
  proof -
    from that obtain sd where sd: "sd \<in> set (hi_arrived (history_of n b))" "c = container_of sd" "sd_AfterKanban sd = Some received"
      by (auto simp: arrived_for_def)
    from arrival_forwarded [OF runs_tracked [OF assms(5,3)] sound sd(1)] obtain a m where
      m: "forwarded (history_of n a) m" "sd_DeviceAddr m = b" "same_but_files m sd" by blast
    from m(1) obtain as as' k0 k k1 v where f: "next_of (history_of n a) as k0 v" "as' \<in> set (hi_deployed (history_of n a))"
      "named (history_of n a) k0 k" "remote as' k v" "named (history_of n a) k0 k1"
      "m = (sent_remote as' k v)\<lparr>sd_AfterKanban := Some k1\<rparr>" unfolding forwarded_def by blast
    have "sd_AfterKanban m = Some k1" by (simp add: f(6))
    with same_but_files_simps(2) [OF m(3)] sd(3) obtain fl where "received = k1\<lparr>sk_FileList := fl\<rparr>" by auto
    moreover have "c = started_local k0 v"
      using sd(2) same_but_files_simps(1) [OF m(3)] named_same(1) [OF f(3)] by (simp add: f(6) next_container)
    moreover have "sd_DeviceAddr (sent_remote as' k v) = b" using m(2) by (simp add: f(6))
    ultimately show ?thesis using f(1-5) by blast
  qed
  with k show ?thesis unfolding justified_def by blast
qed

theorem network_origin_witness: "\<exists>received. (NewContainer ''s'' 1, Some received) \<in> set (dn_received (nt_devices ex_delivered ''10.0.0.2'')) \<and>
   ((NewContainer ''s'' 1, received) \<in> set (hi_initial (history_of ex_delivered ''10.0.0.2'')) \<or>
    routed_to (history_of ex_delivered ''10.0.0.2'') (NewContainer ''s'' 1) received \<or>
    (\<exists>a as as' k0 k k1 v fl. next_of (history_of ex_delivered a) as k0 v \<and> as' \<in> set (hi_deployed (history_of ex_delivered a)) \<and>
      named (history_of ex_delivered a) k0 k \<and> remote as' k v \<and> sd_DeviceAddr (sent_remote as' k v) = ''10.0.0.2'' \<and>
      named (history_of ex_delivered a) k0 k1 \<and> NewContainer ''s'' 1 = started_local k0 v \<and> received = k1\<lparr>sk_FileList := fl\<rparr>))"
proof -
  have "(NewContainer ''s'' 1, Some ex_kanban) \<in> set (dn_received (nt_devices ex_delivered ''10.0.0.2''))"
    by (simp add: ex_delivered_devices ex_second_sent_def)
  from network_origin [OF ref_redis_entries ex_run_codec_documented ex_links_codec ex_start_empty
      ex_network_run [unfolded ex_network_def ex_start_def] this] this
  show ?thesis by blast
qed

text \<open>
  C5. The network repeats nothing. What reaches the broker of a device from other devices are
  messages that were sent to its address, each at most once, changed at most in the kanban's
  list of files; and the send-anything of a device takes the messages in the order in which
  its watchers have queued them, each once and with the header it was queued with.
\<close>

theorem network_no_duplicates:
  assumes "codec_ok (lk_codec lk)"
    and "network_runs api jc sc kw lk (new_network (\<lambda>a. new_device (home a) (worker a) (ke a) (r a)) fs) n"
  shows "(\<exists>U. U \<subseteq># mset (uploads_to n b) \<and> rel_mset same_but_files U (mset (hi_arrived (history_of n b)))) \<and>
    length (hi_arrived (history_of n b)) \<le> length (uploads_to n b) \<and> prefix (uploads_of n a) (sent_by n a) \<and>
    (\<exists>qs rest. wt_sendCh (dn_watcher (nt_devices n a)) = qs @ rest \<and> list_all2 carries (sent_by n a) qs)"
proof -
  note tr = runs_tracked [OF assms(2,1)]
  then have m: "matched (uploads_to n b) (hi_arrived (history_of n b))"
    by (auto simp: tracked_def under_way_def elim: matched_tail)
  have "device_runs api jc sc (kw a) (new_device (home a) (worker a) (ke a) (r a)) (nt_devices n a)"
    using runs_device [OF assms(2), of a] by (simp add: new_network_def)
  then have "in_order (dn_watcher (nt_devices n a))" by (rule runs_in_order [OF _ new_device_in_order])
  with m show ?thesis using matched_length tr unfolding matched_def tracked_def in_order_def by blast
qed

theorem network_no_duplicates_witness: "length (hi_arrived (history_of ex_delivered ''10.0.0.2'')) \<le> length (uploads_to ex_delivered ''10.0.0.2'') \<and>
   hi_arrived (history_of ex_delivered ''10.0.0.2'') = [ex_message] \<and> sent_by ex_delivered ''10.0.0.1'' = [ex_message]"
  using network_no_duplicates [OF ex_links_codec ex_network_run [unfolded ex_network_def ex_start_def], of "''10.0.0.2''" "''10.0.0.1''"]
  by (simp add: ex_delivered_devices ex_first_message) (simp add: ex_second_sent_def ex_second_def arrive_def with_redis_def ex_start_def new_device_def)

end
