(* ===== verification/Services.thy ===== *)
theory Services
  imports Config Kanban
begin

text \<open>
  The gRPC services of the master and their clients: the project service, by which a project is
  applied, deleted and asked for (internal/services/project_service.go, client.go and
  cmd/aionctl), the cluster service, by which workers report and receive projects
  (worker_watcher_service.go and workerClient of cmd/service-broker/main.go), and the monitor
  that stores what they report (worker_status_monitor.go). A handler that locks is one step;
  a map that is sent over a channel is the value it has when it is sent.
\<close>

section \<open>The modes of the broker\<close>

record EnvironmentValue =
  ev_AionHome :: string
  ev_RedisAddr :: string
  ev_RepositoryPrefix :: string
  ev_Namespace :: string
  ev_RegistrySecret :: string
  ev_Mode :: string
  ev_NodeName :: string
  ev_NodeIP :: string
  ev_Debug :: string

definition DefaultMode :: string where "DefaultMode = ''default''"
definition MasterMode :: string where "MasterMode = ''master''"
definition WorkerMode :: string where "WorkerMode = ''worker''"

definition GetMode :: "EnvironmentValue \<Rightarrow> string" where
  "GetMode e = (if ev_Mode e \<in> {DefaultMode, MasterMode, WorkerMode} then ev_Mode e else DefaultMode)"

definition IsDefaultMode :: "EnvironmentValue \<Rightarrow> bool" where
  "IsDefaultMode e = (if ev_Mode e \<in> {MasterMode, WorkerMode} then False else True)"

definition IsWorkerMode :: "EnvironmentValue \<Rightarrow> bool" where
  "IsWorkerMode e = (if ev_Mode e = WorkerMode then True else False)"

lemma modes_agree: "IsDefaultMode e \<longleftrightarrow> GetMode e = DefaultMode" "IsWorkerMode e \<longleftrightarrow> GetMode e = WorkerMode"
  by (auto simp: IsDefaultMode_def IsWorkerMode_def GetMode_def DefaultMode_def MasterMode_def WorkerMode_def)

text \<open>
  What \<open>main\<close> puts on the project channel before it starts anything, and what it starts then;
  an unreadable project file in default mode is fatal.
\<close>

datatype role = MasterServer | WorkerClient | DefaultServer

definition broker_main :: "EnvironmentValue \<Rightarrow> AionSetting option result \<Rightarrow> (AionSetting option list \<times> role) result" where
  "broker_main env load =
     (let role = (if GetMode env = MasterMode then MasterServer
                  else if GetMode env = WorkerMode then WorkerClient else DefaultServer)
      in if IsDefaultMode env
         then (case load of Inl e \<Rightarrow> Inl e | Inr ya \<Rightarrow> Inr ([ya], role))
         else Inr ([], role))"

section \<open>The project service\<close>

record project_server =
  ps_AionCh :: "AionSetting option list"
  ps_prj :: "AionSetting option"

definition NewProjectServer :: project_server where
  "NewProjectServer = \<lparr>ps_AionCh = [], ps_prj = None\<rparr>"

definition response_ok :: ProjectResponse where "response_ok = \<lparr>pr_Message = ''Success'', pr_Code = ResponseCode_OK\<rparr>"
definition response_failed :: ProjectResponse where "response_failed = \<lparr>pr_Message = ''Failed'', pr_Code = ResponseCode_Failed\<rparr>"

text \<open>Loading fills in the defaults in place, so the stored project is the loaded one.\<close>

definition projectServer_Apply :: "AionSetting option \<Rightarrow> project_server \<Rightarrow> ProjectResponse result \<times> project_server" where
  "projectServer_Apply received p =
     (case LoadConfigFromGRPC received of
        (Some (Panic s), prj) \<Rightarrow> (Inl (Panic s), p\<lparr>ps_prj := prj\<rparr>)
      | (Some (Error s), prj) \<Rightarrow> (Inr response_failed, p\<lparr>ps_prj := prj\<rparr>)
      | (None, prj) \<Rightarrow> (Inr response_ok, p\<lparr>ps_prj := prj, ps_AionCh := ps_AionCh p @ [prj]\<rparr>))"

definition delete_services :: "AionSetting \<Rightarrow> AionSetting \<Rightarrow> AionSetting" where
  "delete_services d a = a\<lparr>as_Microservices := filter (\<lambda>(k, v). k \<notin> set (keys (as_Microservices d))) (as_Microservices a)\<rparr>"

definition projectServer_Delete :: "AionSetting option \<Rightarrow> project_server \<Rightarrow> ProjectResponse result \<times> project_server" where
  "projectServer_Delete prj p =
     (case prj of
        None \<Rightarrow> (Inl nil_deref, p)
      | Some d \<Rightarrow>
         (if as_Microservices d \<noteq> [] \<and> ps_prj p = None then (Inl nil_deref, p)
          else (case LoadConfigFromGRPC (map_option (delete_services d) (ps_prj p)) of
             (Some (Panic s), left) \<Rightarrow> (Inl (Panic s), p\<lparr>ps_prj := left\<rparr>)
           | (Some (Error s), left) \<Rightarrow> (Inr response_failed, p\<lparr>ps_prj := left\<rparr>)
           | (None, left) \<Rightarrow> (Inr response_ok, p\<lparr>ps_AionCh := ps_AionCh p @ [left], ps_prj := prj\<rparr>))))"

definition redisKey :: string where "redisKey = ''aion-cluster-status''"

definition projectServer_Status :: "'r redis_api \<Rightarrow> 'r \<Rightarrow> (Services \<times> go_error option) \<times> 'r" where
  "projectServer_Status api r =
     (case HGet api redisKey r of
        (Inl e, r') \<Rightarrow>
          ((\<lparr>sv_Response = Some \<lparr>pr_Message = err_text e, pr_Code = ResponseCode_Failed\<rparr>, sv_Status = None\<rparr>, Some e), r')
      | (Inr res, r') \<Rightarrow>
          ((\<lparr>sv_Response = Some \<lparr>pr_Message = '''', pr_Code = ResponseCode_Failed\<rparr>,
             sv_Status = Some (if length res = 0 then [] else res)\<rparr>, None), r'))"

section \<open>The client of the project service and aionctl\<close>

definition request :: "(AionSetting option \<Rightarrow> ProjectResponse result) \<Rightarrow> AionSetting option \<Rightarrow> go_error option \<times> string list" where
  "request rpc aion =
     (case rpc aion of
        Inl e \<Rightarrow> (Some e, [])
      | Inr reply \<Rightarrow> (None, [''apply request: '' @ pr_Message reply @ '' '']))"

definition Apply :: "go_error option \<Rightarrow> (AionSetting option \<Rightarrow> ProjectResponse result) \<Rightarrow> AionSetting option \<Rightarrow>
    go_error option \<times> string list" where
  "Apply dial rpc aion = (case dial of Some e \<Rightarrow> (Some e, []) | None \<Rightarrow> request rpc aion)"

definition Status :: "go_error option \<Rightarrow> Services result \<Rightarrow> ((string, string) gomap option \<Rightarrow> string result) \<Rightarrow>
    (string \<Rightarrow> string result) \<Rightarrow> string result" where
  "Status dial rpc marshal indent =
     (case dial of Some e \<Rightarrow> Inl e | None \<Rightarrow>
       (case rpc of Inl e \<Rightarrow> Inl e | Inr statuses \<Rightarrow>
         (case marshal (sv_Status statuses) of Inl e \<Rightarrow> Inl e | Inr byts \<Rightarrow> indent byts)))"

text \<open>The commands, with what they print; an error of sending a project is only printed.\<close>

definition applyCmd :: "string \<Rightarrow> string list \<Rightarrow> (string \<Rightarrow> AionSetting option result) \<Rightarrow>
    (AionSetting option \<Rightarrow> go_error option \<times> string list) \<Rightarrow> go_error option \<times> string list" where
  "applyCmd hostName args load send_project =
     (let out = [''aion-master:'' @ hostName]
      in (case args of
            [] \<Rightarrow> (None, out)
          | file # _ \<Rightarrow>
             (case load file of
                Inl e \<Rightarrow> (Some e, out)
              | Inr aion \<Rightarrow>
                  (case send_project aion of
                     (Some e, printed) \<Rightarrow>
                       (None, out @ printed @ [''failed to send services.yml to service-broker cause: '' @ err_text e @ '' ''])
                   | (None, printed) \<Rightarrow> (None, out @ printed)))))"

definition statusCmd :: "string \<Rightarrow> string result \<Rightarrow> go_error option \<times> string list" where
  "statusCmd hostName status =
     (let out = [''aion-master:'' @ hostName @ '' '']
      in (case status of Inl e \<Rightarrow> (Some e, out) | Inr jsnData \<Rightarrow> (None, out @ [jsnData])))"

section \<open>The workers, as the master sees them\<close>

type_synonym services_status = "(string, (string, bool) gomap option) gomap"

text \<open>A stream to a worker is a handle of type 'c.\<close>

record 'c worker_watcher =
  ww_ServicesStatus :: services_status
  ww_ClientStream :: "(string, 'c) gomap"
  ww_StatusMonitorCh :: "services_status list"

definition NewWorkerWatcher :: "'c worker_watcher" where
  "NewWorkerWatcher = \<lparr>ww_ServicesStatus = [], ww_ClientStream = [], ww_StatusMonitorCh = []\<rparr>"

text \<open>The metadata of a call; its keys are in lower case.\<close>

definition md_Get :: "(string, string list) gomap \<Rightarrow> string \<Rightarrow> string list" where
  "md_Get md k = (case map_of md k of None \<Rightarrow> [] | Some vs \<Rightarrow> vs)"

definition node_key :: "string \<Rightarrow> string \<Rightarrow> string" where
  "node_key name addr = name @ ''/'' @ addr"

definition node_name :: "(string, string list) gomap option \<Rightarrow> string result" where
  "node_name md =
     (case md of
        None \<Rightarrow> Inl (Error ''[JoinMasterAion] no meta data'')
      | Some m \<Rightarrow>
          (case (md_Get m ''nodename'', md_Get m ''nodeip'') of
             (n # _, i # _) \<Rightarrow> Inr (node_key n i)
           | _ \<Rightarrow> Inl (Panic ''index out of range'')))"

text \<open>
  The locked steps of \<open>JoinMasterAion\<close>: the stream of a worker is stored, a message of it is
  received and published, the stream ends. The calls of several workers run at once, so their
  steps mix in any order.
\<close>

datatype 'c cluster_event = Joined string 'c | Reported string "(string, bool) gomap option" | Closed string

fun cluster_step :: "'c worker_watcher \<Rightarrow> 'c cluster_event \<Rightarrow> 'c worker_watcher" where
  "cluster_step w (Joined nodeName stream) = w\<lparr>ww_ClientStream := put nodeName stream (ww_ClientStream w)\<rparr>"
| "cluster_step w (Reported nodeName st) =
     (let w' = w\<lparr>ww_ServicesStatus := put nodeName st (ww_ServicesStatus w)\<rparr>
      in w'\<lparr>ww_StatusMonitorCh := ww_StatusMonitorCh w' @ [ww_ServicesStatus w']\<rparr>)"
| "cluster_step w (Closed nodeName) = w\<lparr>ww_ServicesStatus := put nodeName None (ww_ServicesStatus w)\<rparr>"

definition cluster_run :: "'c worker_watcher \<Rightarrow> 'c cluster_event list \<Rightarrow> 'c worker_watcher" where
  "cluster_run w evs = foldl cluster_step w evs"

definition JoinMasterAion :: "(string, string list) gomap option \<Rightarrow> 'c \<Rightarrow> NodeMeta list \<Rightarrow> 'c worker_watcher \<Rightarrow>
    go_error \<times> 'c worker_watcher" where
  "JoinMasterAion md stream msgs w =
     (case node_name md of
        Inl e \<Rightarrow> (e, w)
      | Inr n \<Rightarrow> (Error ''grpc stream closed'',
          cluster_run w ([Joined n stream] @ map (\<lambda>nm. Reported n (nm_ServicesStatus nm)) msgs @ [Closed n])))"

text \<open>A setting from the project service goes to every device of the project that has joined.\<close>

fun send_devices :: "(string, 'c) gomap \<Rightarrow> AionSetting \<Rightarrow> (string \<times> Device option) list \<Rightarrow>
    go_error option \<times> ('c \<times> ClusterApply) list" where
  "send_devices streams aion [] = (None, [])"
| "send_devices streams aion ((k, None) # ds) = (Some nil_deref, [])"
| "send_devices streams aion ((k, Some v) # ds) =
     (case send_devices streams aion ds of
        (e, sent) \<Rightarrow>
          (e, (case map_of streams (node_key k (dv_Addr v)) of
                 None \<Rightarrow> []
               | Some c \<Rightarrow> [(c, \<lparr>ca_AionSetting = Some aion\<rparr>)]) @ sent))"

definition SendAionSettingToWorker :: "'c worker_watcher \<Rightarrow> AionSetting option \<Rightarrow> go_error option \<times> ('c \<times> ClusterApply) list" where
  "SendAionSettingToWorker w aionSetting =
     (case aionSetting of
        None \<Rightarrow> (Some nil_deref, [])
      | Some aion \<Rightarrow> send_devices (ww_ClientStream w) aion (as_Devices aion))"

section \<open>The worker's side\<close>

definition worker_meta :: "EnvironmentValue \<Rightarrow> (string, bool) gomap option \<Rightarrow> NodeMeta" where
  "worker_meta env st = \<lparr>nm_NodeName = ev_NodeName env, nm_NodeIP = ev_NodeIP env, nm_ServicesStatus = st\<rparr>"

definition worker_md :: "EnvironmentValue \<Rightarrow> (string, string list) gomap" where
  "worker_md env = [(''nodename'', [ev_NodeName env]), (''nodeip'', [ev_NodeIP env])]"

text \<open>What a worker sends: first its name alone, then every update of its status.\<close>

definition workerClient_sends :: "EnvironmentValue \<Rightarrow> (string, bool) gomap option list \<Rightarrow> NodeMeta list" where
  "workerClient_sends env updates = worker_meta env None # map (worker_meta env) updates"

text \<open>
  What a worker makes of a project from the master. An error of loading it is only logged, and
  then the nil setting is handed to the broker.
\<close>

definition workerClient_recv :: "ClusterApply \<Rightarrow> AionSetting option list \<Rightarrow> go_error option \<times> AionSetting option list" where
  "workerClient_recv rs aionCh =
     (case LoadConfigFromGRPC (ca_AionSetting rs) of
        (Some (Panic s), _) \<Rightarrow> (Some (Panic s), aionCh)
      | (Some (Error s), _) \<Rightarrow> (None, aionCh @ [None])
      | (None, aionSetting) \<Rightarrow> (None, aionCh @ [aionSetting]))"

section \<open>The monitor\<close>

definition status_fields :: "services_status \<Rightarrow> (string, iface) gomap" where
  "status_fields meta = map_vals (\<lambda>v. IMap (map_vals IBool (case v of None \<Rightarrow> [] | Some m \<Rightarrow> m))) meta"

definition monitor_step :: "'r redis_api \<Rightarrow> 'r \<Rightarrow> services_status \<Rightarrow> 'r" where
  "monitor_step api r meta = snd (HSet api redisKey (status_fields meta) r)"

text \<open>The monitor clears the hash, or ends the process, and then stores what it receives.\<close>

definition monitor_Start :: "'r redis_api \<Rightarrow> services_status list \<Rightarrow> 'r \<Rightarrow> go_error option \<times> 'r" where
  "monitor_Start api metas r =
     (case Delete api [redisKey] r of
        (Inl e, r') \<Rightarrow> (Some e, r')
      | (Inr _, r') \<Rightarrow> (None, foldl (monitor_step api) r' metas))"

section \<open>Applying and deleting projects\<close>

lemma apply_loaded:
  assumes "no_nil a"
  shows "projectServer_Apply (Some a) p = (Inr response_ok,
    p\<lparr>ps_prj := Some (snd (setInitializeValue a)), ps_AionCh := ps_AionCh p @ [Some (snd (setInitializeValue a))]\<rparr>)"
  using assms by (simp add: projectServer_Apply_def load_Some set_init_ok)

lemma no_nil_delete: "no_nil a \<Longrightarrow> no_nil (delete_services d a)"
  by (auto simp: no_nil_def delete_services_def)

lemma delete_loaded:
  assumes "ps_prj p = Some a" "no_nil a"
  shows "projectServer_Delete (Some d) p = (Inr response_ok, p\<lparr>ps_prj := Some d,
    ps_AionCh := ps_AionCh p @ [Some (snd (setInitializeValue (delete_services d a)))]\<rparr>)"
  using assms no_nil_delete [OF assms(2), of d]
  by (simp add: projectServer_Delete_def load_Some set_init_ok)

lemma keys_loaded: "no_nil a \<Longrightarrow> keys (as_Microservices (snd (setInitializeValue a))) = keys (as_Microservices a)"
  by (simp add: set_init_ok)

lemma keys_deleted:
  "keys (as_Microservices (delete_services d a)) = filter (\<lambda>k. k \<notin> set (keys (as_Microservices d))) (keys (as_Microservices a))"
  by (simp add: delete_services_def filter_map comp_def split_def)

text \<open>
  The answers of the project service to a project: OK exactly when it holds no nil, and
  only then is it handed to the broker. But the project that the service keeps, from which a
  later delete works, is replaced also when the project is refused.
\<close>

theorem apply_outcomes:
  "case projectServer_Apply q p of (answer, p') \<Rightarrow>
     (answer = Inr response_ok \<longleftrightarrow> (\<exists>a. q = Some a \<and> no_nil a)) \<and>
     ps_prj p' = snd (LoadConfigFromGRPC q) \<and>
     ps_AionCh p' = ps_AionCh p @ (if answer = Inr response_ok then [ps_prj p'] else [])"
proof (cases q)
  case None
  then show ?thesis by (simp add: projectServer_Apply_def LoadConfigFromGRPC_def nil_deref_def)
next
  case (Some a)
  show ?thesis
  proof (cases "no_nil a")
    case True
    then show ?thesis by (simp add: Some apply_loaded load_Some)
  next
    case False
    then obtain e where e: "fst (setInitializeValue a) = Some e" using set_init_ok_iff [of a] by auto
    have "response_failed \<noteq> response_ok" by (simp add: response_failed_def response_ok_def)
    with False e show ?thesis by (cases e) (simp_all add: Some projectServer_Apply_def load_Some)
  qed
qed

text \<open>
  C20. A delete deploys the stored project without the named microservices, and then stores the
  request in its place. So a second delete deploys what the first one deleted: after a project
  is applied and two deletes are made, the microservices handed to the broker are those of the
  first delete that the second does not name, and none that was left of the project.
\<close>

theorem delete_redeploys_deleted:
  assumes "no_nil a" "no_nil d"
  shows "\<exists>s1 s2 s3. ps_AionCh (snd (projectServer_Delete (Some e) (snd (projectServer_Delete (Some d)
        (snd (projectServer_Apply (Some a) p)))))) = ps_AionCh p @ [Some s1, Some s2, Some s3] \<and>
    keys (as_Microservices s1) = keys (as_Microservices a) \<and>
    keys (as_Microservices s2) = filter (\<lambda>k. k \<notin> set (keys (as_Microservices d))) (keys (as_Microservices a)) \<and>
    keys (as_Microservices s3) = filter (\<lambda>k. k \<notin> set (keys (as_Microservices e))) (keys (as_Microservices d))"
proof -
  let ?s1 = "snd (setInitializeValue a)"
  have s1: "no_nil ?s1" using set_init_wf [OF assms(1)] by (rule wf_no_nil)
  show ?thesis
    using s1 assms by (simp add: apply_loaded delete_loaded no_nil_delete keys_loaded keys_deleted)
qed

theorem delete_redeploys_deleted_witness:
  "\<exists>s1 s2 s3. ps_AionCh (snd (projectServer_Delete (Some (ex_setting\<lparr>as_Microservices := []\<rparr>))
      (snd (projectServer_Delete (Some ex_setting) (snd (projectServer_Apply (Some ex_setting) NewProjectServer)))))) =
        [Some s1, Some s2, Some s3] \<and>
    keys (as_Microservices s2) = [] \<and> keys (as_Microservices s3) = [''a'']"
proof -
  from delete_redeploys_deleted [OF ex_setting_no_nil ex_setting_no_nil, of "ex_setting\<lparr>as_Microservices := []\<rparr>" NewProjectServer]
  show ?thesis by (auto simp: NewProjectServer_def ex_setting_def)
qed

section \<open>From the master to the workers\<close>

text \<open>The streams that a project goes to: those of its devices that have joined.\<close>

definition joined_devices :: "(string, 'c) gomap \<Rightarrow> AionSetting \<Rightarrow> 'c list" where
  "joined_devices streams a = List.map_filter (\<lambda>(k, d). map_of streams (node_key k (dv_Addr (the d)))) (as_Devices a)"

lemma send_devices_ok:
  "None \<notin> snd ` set ds \<Longrightarrow> send_devices streams a ds =
     (None, map (\<lambda>c. (c, \<lparr>ca_AionSetting = Some a\<rparr>)) (List.map_filter (\<lambda>(k, d). map_of streams (node_key k (dv_Addr (the d)))) ds))"
proof (induction ds)
  case (Cons x ds)
  then obtain k d where "x = (k, Some d)" by (cases x; cases "snd x") auto
  with Cons show ?case by (simp add: List.map_filter_simps split: option.splits)
qed (simp add: List.map_filter_simps)

text \<open>
  A project applied at the master of a cluster: the service answers OK and loads it, the
  loaded project goes, once each and in the order of the project, to exactly its devices that
  have joined under their name and address, and a worker that receives it hands its broker the
  same loaded project, which is what the broker of a single device would have been given.
\<close>

theorem settings_reach_workers:
  assumes "no_nil a"
  shows "\<exists>a'. projectServer_Apply (Some a) p = (Inr response_ok, p\<lparr>ps_prj := Some a', ps_AionCh := ps_AionCh p @ [Some a']\<rparr>) \<and>
    wf_setting a' \<and>
    SendAionSettingToWorker w (Some a') =
      (None, map (\<lambda>c. (c, \<lparr>ca_AionSetting = Some a'\<rparr>)) (joined_devices (ww_ClientStream w) a')) \<and>
    workerClient_recv \<lparr>ca_AionSetting = Some a'\<rparr> ch = (None, ch @ [Some a'])"
proof -
  let ?a = "snd (setInitializeValue a)"
  note wf = set_init_wf [OF assms]
  have "None \<notin> snd ` set (as_Devices ?a)" using wf by (auto simp: wf_setting_def split: option.splits)
  then have "SendAionSettingToWorker w (Some ?a) =
      (None, map (\<lambda>c. (c, \<lparr>ca_AionSetting = Some ?a\<rparr>)) (joined_devices (ww_ClientStream w) ?a))"
    by (simp add: SendAionSettingToWorker_def joined_devices_def send_devices_ok)
  moreover have "workerClient_recv \<lparr>ca_AionSetting = Some ?a\<rparr> ch = (None, ch @ [Some ?a])"
    by (simp add: workerClient_recv_def load_Some set_init_id [OF wf])
  ultimately show ?thesis using apply_loaded [OF assms, of p] wf by blast
qed

definition ex_worker_env :: EnvironmentValue where
  "ex_worker_env = \<lparr>ev_AionHome = ''/var/lib/aion'', ev_RedisAddr = ''redis:6379'', ev_RepositoryPrefix = ''latonaio'',
     ev_Namespace = ''default'', ev_RegistrySecret = ''dockerhub'', ev_Mode = ''worker'', ev_NodeName = ''dev'',
     ev_NodeIP = ''10.0.0.2'', ev_Debug = ''false''\<rparr>"

definition ex_joined :: "nat worker_watcher" where
  "ex_joined = cluster_run NewWorkerWatcher [Joined (node_key (ev_NodeName ex_worker_env) (ev_NodeIP ex_worker_env)) 7]"

theorem settings_reach_workers_witness:
  "\<exists>a'. SendAionSettingToWorker ex_joined (Some a') = (None, [(7, \<lparr>ca_AionSetting = Some a'\<rparr>)]) \<and>
    workerClient_recv \<lparr>ca_AionSetting = Some a'\<rparr> [] = (None, [Some a'])"
proof -
  from settings_reach_workers [OF ex_setting_no_nil, of NewProjectServer ex_joined "[]"] obtain a' where
    a': "projectServer_Apply (Some ex_setting) NewProjectServer = (Inr response_ok, NewProjectServer\<lparr>ps_prj := Some a', ps_AionCh := [Some a']\<rparr>)"
    "SendAionSettingToWorker ex_joined (Some a') = (None, map (\<lambda>c. (c, \<lparr>ca_AionSetting = Some a'\<rparr>)) (joined_devices (ww_ClientStream ex_joined) a'))"
    "workerClient_recv \<lparr>ca_AionSetting = Some a'\<rparr> [] = (None, [Some a'])"
    by (auto simp: NewProjectServer_def)
  have "a' = snd (setInitializeValue ex_setting)"
    using a'(1) apply_loaded [OF ex_setting_no_nil, of NewProjectServer] by (simp add: NewProjectServer_def)
  moreover have "joined_devices (ww_ClientStream ex_joined) (snd (setInitializeValue ex_setting)) = [7]" by code_simp
  ultimately show ?thesis using a' by (intro exI [of _ a']) simp
qed

section \<open>What the status shows\<close>

text \<open>The published maps only get more nodes.\<close>

definition cluster_inv :: "'c worker_watcher \<Rightarrow> bool" where
  "cluster_inv w \<longleftrightarrow> wf_map (ww_ServicesStatus w) \<and>
     (\<forall>m \<in> set (ww_StatusMonitorCh w). wf_map m \<and> m \<noteq> [] \<and> set (keys m) \<subseteq> set (keys (ww_ServicesStatus w))) \<and>
     sorted_wrt (\<lambda>m m'. set (keys m) \<subseteq> set (keys m')) (ww_StatusMonitorCh w)"

lemma put_not_Nil [simp]: "put k v m \<noteq> []"
  by (cases m) auto

lemma set_keys_put [simp]: "fst ` set (put k v m) = insert k (fst ` set m)"
  using dom_update [of k v m] by (simp add: dom_map_of_conv_image_fst)

interpretation cluster: stepper cluster_step cluster_inv
proof
  fix w :: "'c worker_watcher" and e
  assume "cluster_inv w"
  then show "cluster_inv (cluster_step w e)"
    by (cases e) (auto simp: cluster_inv_def Let_def distinct_update sorted_wrt_append dest: bspec)
qed

lemma NewWorkerWatcher_inv: "cluster_inv NewWorkerWatcher"
  by (simp add: cluster_inv_def NewWorkerWatcher_def)

lemma quiet_channel:
  "\<forall>e \<in> set evs. \<forall>m st. e \<noteq> Reported m st \<Longrightarrow> ww_StatusMonitorCh (cluster_run w evs) = ww_StatusMonitorCh w"
  unfolding cluster_run_def
proof (induction evs arbitrary: w)
  case (Cons e evs)
  then show ?case by (cases e) simp_all
qed simp

lemma keys_status_fields [simp]: "keys (status_fields m) = keys m"
  by (simp add: status_fields_def)

lemma status_fields_Nil [simp]: "status_fields m = [] \<longleftrightarrow> m = []"
  by (metis keys_status_fields map_is_Nil_conv)

text \<open>
  The documented behaviour of the hash commands of Redis: \<open>HGETALL\<close> reads a hash, \<open>HSET\<close> sets the
  given fields and leaves the others, \<open>DEL\<close> removes a key. \<open>hash\<close> reads a hash off the server
  state, \<open>enc\<close> is what the client makes of a value.
\<close>

locale redis_hashes =
  fixes api :: "'r redis_api" and hash :: "'r \<Rightarrow> string \<Rightarrow> (string, string) gomap" and enc :: "iface \<Rightarrow> string"
  assumes hgetall: "r_HGetAll api key r = (Inr (hash r key), r)"
    and hset: "m \<noteq> [] \<Longrightarrow> wf_map m \<Longrightarrow> \<exists>n r'. r_HSet api key m r = (Inr n, r') \<and>
      map_of (hash r' key) = map_of (hash r key) ++ map_of (map_vals enc m)"
    and del_key: "\<exists>n r'. r_Del api [key] r = (Inr n, r') \<and> hash r' key = []"
begin

text \<open>After the monitor has stored growing maps one after the other the hash is the last of them.\<close>

lemma monitor_last:
  assumes r: "hash r redisKey = []"
  shows "\<forall>m \<in> set ms. wf_map m \<and> m \<noteq> [] \<Longrightarrow> sorted_wrt (\<lambda>m m'. set (keys m) \<subseteq> set (keys m')) ms \<Longrightarrow>
    map_of (hash (foldl (monitor_step api) r ms) redisKey) =
      (if ms = [] then Map.empty else map_of (map_vals enc (status_fields (last ms))))"
proof (induction ms rule: rev_induct)
  case Nil
  with r show ?case by simp
next
  case (snoc m ms)
  let ?r = "foldl (monitor_step api) r ms"
  from snoc.prems have m: "status_fields m \<noteq> []" "wf_map (status_fields m)" by simp_all
  then obtain n r' where set: "r_HSet api redisKey (status_fields m) ?r = (Inr n, r')"
    "map_of (hash r' redisKey) = map_of (hash ?r redisKey) ++ map_of (map_vals enc (status_fields m))"
    using hset by blast
  have IH: "map_of (hash ?r redisKey) = (if ms = [] then Map.empty else map_of (map_vals enc (status_fields (last ms))))"
    using snoc by (simp add: sorted_wrt_append)
  have "dom (map_of (hash ?r redisKey)) \<subseteq> dom (map_of (map_vals enc (status_fields m)))"
  proof (cases "ms = []")
    case False
    then have "set (keys (last ms)) \<subseteq> set (keys m)" using snoc.prems(2) by (simp add: sorted_wrt_append)
    then show ?thesis unfolding IH by (simp add: False dom_map_of_conv_image_fst del: map_of_map_vals flip: set_map)
  next
    case True
    then show ?thesis using r by simp
  qed
  then have "map_of (hash r' redisKey) = map_of (map_vals enc (status_fields m))"
    unfolding set(2) by (intro ext) (auto simp: map_add_def split: option.splits)
  moreover have "monitor_step api ?r m = r'" by (simp add: monitor_step_def HSet_def set(1))
  ultimately show ?case by simp
qed

end

definition node_field :: "(iface \<Rightarrow> string) \<Rightarrow> (string, bool) gomap option \<Rightarrow> string" where
  "node_field enc v = enc (IMap (map_vals IBool (case v of None \<Rightarrow> [] | Some m \<Rightarrow> m)))"

lemma map_of_status_fields: "map_of (map_vals enc (status_fields m)) k = map_option (node_field enc) (map_of m k)"
  by (simp add: status_fields_def node_field_def [abs_def] option.map_comp comp_def)

text \<open>What is stored and asked for after a report.\<close>

lemma status_after_report:
  assumes ok: "redis_hashes api hash enc" and quiet: "\<forall>e \<in> set closed. \<forall>m st. e \<noteq> Reported m st"
  shows "\<exists>r' s. monitor_Start api (ww_StatusMonitorCh (cluster_run NewWorkerWatcher (evs @ Reported n st # closed))) r = (None, r') \<and>
    projectServer_Status api r' =
      ((\<lparr>sv_Response = Some \<lparr>pr_Message = '''', pr_Code = ResponseCode_Failed\<rparr>, sv_Status = Some s\<rparr>, None), r') \<and>
    map_of s n = Some (node_field enc st) \<and>
    (\<forall>m. map_of s m = map_option (node_field enc)
      (map_of (ww_ServicesStatus (cluster_run NewWorkerWatcher (evs @ [Reported n st]))) m))"
proof -
  let ?w = "cluster_run NewWorkerWatcher (evs @ [Reported n st])"
  let ?ch = "ww_StatusMonitorCh (cluster_run NewWorkerWatcher (evs @ Reported n st # closed))"
  have split: "cluster_run NewWorkerWatcher (evs @ Reported n st # closed) = cluster_run ?w closed"
    by (simp add: cluster_run_def)
  have ch: "?ch = ww_StatusMonitorCh ?w" unfolding split by (rule quiet_channel [OF quiet])
  have inv: "cluster_inv ?w"
    unfolding cluster_run_def by (rule cluster.run_inv [OF NewWorkerWatcher_inv])
  have last: "ww_StatusMonitorCh ?w \<noteq> []" "last (ww_StatusMonitorCh ?w) = ww_ServicesStatus ?w"
    "map_of (ww_ServicesStatus ?w) n = Some st"
    by (simp_all add: cluster_run_def Let_def update_conv)
  from redis_hashes.del_key [OF ok] obtain i r0 where del: "r_Del api [redisKey] r = (Inr i, r0)" "hash r0 redisKey = []" by blast
  let ?r = "foldl (monitor_step api) r0 ?ch"
  have h: "map_of (hash ?r redisKey) = map_of (map_vals enc (status_fields (ww_ServicesStatus ?w)))"
    using redis_hashes.monitor_last [OF ok del(2), of ?ch] inv last(1,2) by (simp add: ch cluster_inv_def)
  have "monitor_Start api ?ch r = (None, ?r)" by (simp add: monitor_Start_def Delete_def del(1))
  moreover have "projectServer_Status api ?r =
      ((\<lparr>sv_Response = Some \<lparr>pr_Message = '''', pr_Code = ResponseCode_Failed\<rparr>, sv_Status = Some (hash ?r redisKey)\<rparr>, None), ?r)"
    by (simp add: projectServer_Status_def HGet_def redis_hashes.hgetall [OF ok])
  ultimately show ?thesis using last(3) by (intro exI [of _ ?r] exI [of _ "hash ?r redisKey"]) (simp add: h map_of_status_fields del: map_of_map_vals)
qed

text \<open>
  The status that \<open>aionctl status\<close> asks the master for: for every node what it said in its
  last report, as of the last report of any node, with a code that says failed. A stream that
  closes clears the status of its node only in the master's memory; until another worker
  reports, the services of a node that is gone are still shown as they were.
\<close>

theorem cluster_status_shown:
  assumes ok: "redis_hashes api hash enc" and quiet: "\<forall>e \<in> set closed. \<forall>m st. e \<noteq> Reported m st"
  shows "\<exists>r' s. monitor_Start api (ww_StatusMonitorCh (cluster_run NewWorkerWatcher (evs @ Reported n st # closed))) r = (None, r') \<and>
    projectServer_Status api r' =
      ((\<lparr>sv_Response = Some \<lparr>pr_Message = '''', pr_Code = ResponseCode_Failed\<rparr>, sv_Status = Some s\<rparr>, None), r') \<and>
    map_of s n = Some (node_field enc st) \<and>
    (\<forall>m. map_of s m = map_option (node_field enc)
      (map_of (ww_ServicesStatus (cluster_run NewWorkerWatcher (evs @ [Reported n st]))) m))"
  using assms by (rule status_after_report)

text \<open>A server that is only its hashes.\<close>

type_synonym ref_hashes = "string \<Rightarrow> (string, string) gomap"

definition ref_enc :: "iface \<Rightarrow> string" where
  "ref_enc v = (case v of IMap m \<Rightarrow> join '','' (keys m) | _ \<Rightarrow> '''')"

definition ref_hash_api :: "ref_hashes redis_api" where
  "ref_hash_api = \<lparr>r_XRead = (\<lambda>_ _ _ h. (Inl (Error ''no streams''), h)), r_XAdd = (\<lambda>_ _ _ h. (Inl (Error ''no streams''), h)),
     r_FlushAll = (\<lambda>h. (Inr ''OK'', \<lambda>_. [])), r_XDel = (\<lambda>_ _ h. (Inl (Error ''no streams''), h)),
     r_HGetAll = (\<lambda>key h. (Inr (h key), h)),
     r_HSet = (\<lambda>key m h. (Inr (int (length m)), h(key := AList.updates (keys m) (map (ref_enc \<circ> snd) m) (h key)))),
     r_Del = (\<lambda>ks h. (Inr (int (length ks)), \<lambda>k. if k \<in> set ks then [] else h k))\<rparr>"

lemma updates_map_vals:
  "wf_map m \<Longrightarrow> map_of (AList.updates (keys m) (map (f \<circ> snd) m) h) = map_of h ++ map_of (map_vals f m)"
proof (induction m arbitrary: h)
  case (Cons x m)
  obtain k v where x: "x = (k, v)" by (cases x)
  with Cons.prems have "map_of m k = None" by (simp add: map_of_eq_None_iff)
  with Cons show ?case
    by (auto simp: x map_add_def update_conv' fun_eq_iff split: option.splits)
qed (simp add: map_add_def)

interpretation ref_hashes: redis_hashes ref_hash_api "\<lambda>h key. h key" ref_enc
  by unfold_locales (simp_all add: ref_hash_api_def updates_map_vals)

theorem cluster_status_shown_witness:
  "\<exists>r' s. monitor_Start ref_hash_api (ww_StatusMonitorCh (cluster_run (NewWorkerWatcher :: nat worker_watcher)
      ([Joined ''dev/10.0.0.2'' 7] @ Reported ''dev/10.0.0.2'' (Some [(''a'', True)]) # [Closed ''dev/10.0.0.2'']))) (\<lambda>_. []) = (None, r') \<and>
    sv_Status (fst (fst (projectServer_Status ref_hash_api r'))) = Some s \<and> map_of s ''dev/10.0.0.2'' = Some ''a''"
proof -
  have "\<forall>e \<in> set [Closed ''dev/10.0.0.2'']. \<forall>m st. e \<noteq> (Reported m st :: nat cluster_event)" by simp
  from cluster_status_shown [OF ref_hashes.redis_hashes_axioms this, of "[Joined ''dev/10.0.0.2'' 7]" "''dev/10.0.0.2''" "Some [(''a'', True)]" "\<lambda>_. []"]
  obtain r' s where "monitor_Start ref_hash_api (ww_StatusMonitorCh (cluster_run (NewWorkerWatcher :: nat worker_watcher)
      ([Joined ''dev/10.0.0.2'' 7] @ Reported ''dev/10.0.0.2'' (Some [(''a'', True)]) # [Closed ''dev/10.0.0.2'']))) (\<lambda>_. []) = (None, r')"
    "projectServer_Status ref_hash_api r' =
      ((\<lparr>sv_Response = Some \<lparr>pr_Message = '''', pr_Code = ResponseCode_Failed\<rparr>, sv_Status = Some s\<rparr>, None), r')"
    "map_of s ''dev/10.0.0.2'' = Some (node_field ref_enc (Some [(''a'', True)]))" by blast
  then show ?thesis by (intro exI [of _ r'] exI [of _ s]) (simp add: node_field_def ref_enc_def)
qed

end
