(* ===== verification/ClusterRun.thy ===== *)
theory ClusterRun
  imports Controller Services
begin

text \<open>
  A project on its way through a cluster: from the project service of the master to the broker
  of a worker, which deploys it, and the status that comes back to the master and is shown.
\<close>

section \<open>What a worker reports\<close>

text \<open>The last status that was sent is the current one.\<close>

definition reported :: "'q broker \<Rightarrow> bool" where
  "reported b \<longleftrightarrow> (if br_updateTrigger b = [] then br_microservicesStatus b = []
     else last (br_updateTrigger b) = br_microservicesStatus b)"

lemma reported_set [simp]:
  "reported (SetServiceStatusActive s b)" "reported (SetServiceStatusDeactivate s b)"
  "br_microservicesStatus (SetServiceStatusActive s b) = put s True (br_microservicesStatus b)"
  "br_microservicesStatus (SetServiceStatusDeactivate s b) = put s False (br_microservicesStatus b)"
  by (simp_all add: reported_def SetServiceStatusActive_def SetServiceStatusDeactivate_def sendUpdateStatusTrigger_def Let_def)

text \<open>The part of the state that the status is about.\<close>

definition stat :: "'q broker \<Rightarrow> (string, bool) gomap \<times> (string, bool) gomap list \<times> bool" where
  "stat b = (br_microservicesStatus b, br_updateTrigger b, br_workerMode b)"

lemma stat_same:
  assumes "stat b' = stat b"
  shows "reported b' = reported b" "br_microservicesStatus b' = br_microservicesStatus b" "br_workerMode b' = br_workerMode b"
  using assms by (simp_all add: stat_def reported_def)

lemma stat_kept [simp]:
  "stat (snd (on_container f name b)) = stat b" "stat (spawn_watcher name i b) = stat b"
  by (auto simp: stat_def on_container_def spawn_watcher_def split: option.splits prod.splits)

lemma stat_start: "stat (snd (startMicroservice w name b)) = stat b"
proof -
  have "stat (snd (start_loop w name ns b)) = stat b" for ns b
  proof (induction ns arbitrary: b)
    case (Cons i ns)
    obtain r b' where r: "on_container (StartMicroservice w i) name b = (r, b')" by fastforce
    then have "stat b' = stat b" using stat_kept(1) [of "StartMicroservice w i" name b] by simp
    with Cons r show ?case by (cases r) simp_all
  qed simp
  then show ?thesis by (simp add: startMicroservice_def split: option.splits)
qed

lemma reported_stop:
  "reported b \<Longrightarrow> reported (StopAllMicroservice w b) \<and> br_workerMode (StopAllMicroservice w b) = br_workerMode b"
proof -
  have loop: "stat (stop_loop w name ns b) = stat b" for name ns b
    by (induction ns arbitrary: b) simp_all
  have "reported b \<Longrightarrow> reported (snd (stopMicroservice w name b)) \<and> br_workerMode (snd (stopMicroservice w name b)) = br_workerMode b"
    for name b by (simp add: stopMicroservice_def Let_def stat_same [OF loop] split: option.splits)
  then have "reported b \<Longrightarrow> reported (foldl (\<lambda>b name. snd (stopMicroservice w name b)) b ns) \<and>
      br_workerMode (foldl (\<lambda>b name. snd (stopMicroservice w name b)) b ns) = br_workerMode b" for ns
    by (induction ns arbitrary: b) simp_all
  then show "reported b \<Longrightarrow> ?thesis" by (simp add: StopAllMicroservice_def)
qed

text \<open>Setting up the containers says of every microservice of the project that it does not run.\<close>

lemma set_loop_reports:
  assumes "set_loop as ms b = (None, ms', b')" "reported b" "br_workerMode b"
  shows "reported b' \<and> br_workerMode b' \<and> set (keys ms) \<subseteq> dom (map_of (br_microserviceList b')) \<and>
    dom (map_of (br_microserviceList b)) \<subseteq> dom (map_of (br_microserviceList b')) \<and>
    map_of (br_microservicesStatus b') n = (if n \<in> set (keys ms) then Some False else map_of (br_microservicesStatus b) n)"
  using assms
proof (induction ms arbitrary: b ms')
  case (Cons p ms)
  obtain name v where p: "p = (name, v)" by fastforce
  from Cons.prems(1) obtain m env where m: "v = Some m" "ms_Env m = Some env"
    by (auto simp: p split: option.splits)
  obtain r m' b1 where r: "setMicroservice name (m\<lparr>ms_Env := Some (set_env b as env)\<rparr>) b = (r, m', b1)"
    by (cases "setMicroservice name (m\<lparr>ms_Env := Some (set_env b as env)\<rparr>) b") auto
  with Cons.prems(1) have "r = None" by (cases r) (auto simp: p m split: prod.splits)
  with r obtain sc where b1: "b1 = b\<lparr>br_microserviceList := put name sc (br_microserviceList b)\<rparr>"
    by (auto simp: setMicroservice_def split: sum.splits)
  let ?b2 = "SetServiceStatusDeactivate name b1"
  have w: "br_workerMode b1" using Cons.prems(3) by (simp add: b1)
  then obtain ms1 where "set_loop as ms ?b2 = (None, ms1, b')"
    using Cons.prems(1) by (auto simp: p m r \<open>r = None\<close> Let_def split: prod.splits)
  note IH = Cons.IH [OF this]
  have d: "dom (map_of (br_microserviceList ?b2)) = insert name (dom (map_of (br_microserviceList b)))"
    by (auto simp: b1 split: if_splits)
  from IH w have "reported b'" "br_workerMode b'" "insert name (set (keys ms)) \<subseteq> dom (map_of (br_microserviceList b'))"
    "dom (map_of (br_microserviceList b)) \<subseteq> dom (map_of (br_microserviceList b'))"
    "map_of (br_microservicesStatus b') n =
       (if n \<in> set (keys ms) then Some False else map_of (br_microservicesStatus ?b2) n)"
    unfolding d by simp_all
  then show ?case by (simp add: p b1)
qed simp

lemma startMicroservice_found:
  assumes "startMicroservice w name b = (Some e, b')" "name \<in> dom (map_of (br_microserviceList b))"
  shows "panicking (Some e)"
proof -
  have "start_loop w name ns c = (Some e, c') \<Longrightarrow> panicking (Some e)" for ns c c'
    by (induction ns arbitrary: c) (auto split: prod.splits option.splits if_splits)
  with assms show ?thesis by (auto simp: startMicroservice_def split: option.splits)
qed

lemma dom_start: "dom (map_of (br_microserviceList (snd (startMicroservice w name b)))) = dom (map_of (br_microserviceList b))"
proof -
  have "dom (map_of (br_microserviceList (snd (start_loop w name ns b)))) = dom (map_of (br_microserviceList b))" for ns b
  proof (induction ns arbitrary: b)
    case (Cons i ns)
    obtain r b' where r: "on_container (StartMicroservice w i) name b = (r, b')" by fastforce
    with on_container_dom [of "StartMicroservice w i" name b] Cons show ?case
      by (cases r) (simp_all add: spawn_watcher_def)
  qed simp
  then show ?thesis by (simp add: startMicroservice_def split: option.splits)
qed

text \<open>Starting says of those marked startup that they run.\<close>

lemma startup_loop_reports:
  assumes "startup_loop w ms errs b = (None, errs', b')" "reported b" "br_workerMode b"
    and "set (keys ms) \<subseteq> dom (map_of (br_microserviceList b))"
  shows "reported b' \<and> map_of (br_microservicesStatus b') n =
    (if \<exists>m. (n, Some m) \<in> set ms \<and> ms_Startup m then Some True else map_of (br_microservicesStatus b) n)"
  using assms
proof (induction ms arbitrary: b errs)
  case (Cons p ms)
  obtain name v where p: "p = (name, v)" by fastforce
  from Cons.prems(1) obtain m where m: "v = Some m" by (auto simp: p split: option.splits)
  show ?case
  proof (cases "ms_Startup m")
    case False
    with Cons.prems(1) have "startup_loop w ms errs b = (None, errs', b')" by (simp add: p m)
    from Cons.IH [OF this Cons.prems(2,3)] Cons.prems(4) False show ?thesis by (auto simp: p m)
  next
    case True
    obtain r b1 where r: "startMicroservice w name b = (r, b1)" by fastforce
    have st: "stat b1 = stat b" "dom (map_of (br_microserviceList b1)) = dom (map_of (br_microserviceList b))"
      using stat_start [of w name b] dom_start [of w name b] by (simp_all add: r)
    have "r = None"
    proof (cases r)
      case (Some e)
      with startMicroservice_found [of w name b e b1] r Cons.prems(1,4) True show ?thesis by (simp add: p m)
    qed simp
    with Cons.prems(1) True r have "startup_loop w ms errs (SetServiceStatusActive name b1) = (None, errs', b')"
      using Cons.prems(3) by (simp add: p m stat_same [OF st(1)])
    from Cons.IH [OF this] Cons.prems(3,4) st(2) True show ?thesis
      by (auto simp: p m stat_same [OF st(1)])
  qed
qed simp

text \<open>
  After a deployment on a worker the last report it has sent says of every microservice of the
  project whether it is marked startup.
\<close>

lemma deploy_reports:
  assumes "handle w (Deploy (Some a)) b = (None, b')" "reported b" "br_workerMode b"
    and a: "wf_setting a" "distinct (keys (as_Microservices a))" "as_Microservices a \<noteq> []"
  shows "br_updateTrigger b' \<noteq> [] \<and> last (br_updateTrigger b') = br_microservicesStatus b' \<and>
    (\<forall>name m. (name, Some m) \<in> set (as_Microservices a) \<longrightarrow> map_of (br_microservicesStatus b') name = Some (ms_Startup m))"
proof -
  let ?b1 = "(StopAllMicroservice w (b\<lparr>br_watchers := []\<rparr>))\<lparr>br_aionSetting := Some a\<rparr>"
  have "reported (b\<lparr>br_watchers := []\<rparr>)" using assms(2) by (simp add: reported_def)
  from reported_stop [OF this, of w] assms(3) have b1: "reported ?b1" "br_workerMode ?b1"
    by (simp_all add: reported_def)
  have filled: "filled_ms (snd p)" if "p \<in> set (as_Microservices a)" for p
    using a(1) that by (auto simp: wf_setting_def)
  obtain ms b2 where sl: "set_loop a (as_Microservices a) ?b1 = (None, ms, b2)"
    "ms = map (\<lambda>(name, v). (name, map_option (\<lambda>m. with_number (to_int (ms_Scale m)) (with_env ?b1 a m)) v)) (as_Microservices a)"
    using set_loop_runs [where b = ?b1 and as = a, OF a(2) filled] by auto
  note set = set_loop_reports [OF sl(1) b1]
  let ?b3 = "b2\<lparr>br_aionSetting := Some (a\<lparr>as_Microservices := ms\<rparr>)\<rparr>"
  have b3: "reported ?b3" "br_workerMode ?b3" "set (keys ms) \<subseteq> dom (map_of (br_microserviceList ?b3))"
    "map_of (br_microservicesStatus ?b3) n = (if n \<in> set (keys (as_Microservices a)) then Some False
       else map_of (br_microservicesStatus ?b1) n)" for n
    using set by (auto simp: reported_def sl(2) comp_def split_def)
  have "setMicroserviceList ?b1 = (None, ?b3)"
    using sl(1) by (simp add: setMicroserviceList_def GetMicroserviceList_def)
  then have "handle w (Deploy (Some a)) b = startStartupMicroservice w ?b3"
    by (simp add: handle_deploy_def Let_def)
  with assms(1) obtain errs where lp: "startup_loop w ms [] ?b3 = (None, errs, b')"
    by (auto simp: startStartupMicroservice_def GetMicroserviceList_def split: prod.splits option.splits if_splits)
  note run = startup_loop_reports [OF lp b3(1-3)]
  have st: "map_of (br_microservicesStatus b') name = Some (ms_Startup m)" if m: "(name, Some m) \<in> set (as_Microservices a)" for name m
  proof -
    have "(\<exists>m'. (name, Some m') \<in> set ms \<and> ms_Startup m') \<longleftrightarrow> ms_Startup m"
      using m eq_key_imp_eq_value [OF a(2) m] by (force simp: sl(2) deployed_flags)
    moreover have "name \<in> set (keys (as_Microservices a))" using m by force
    ultimately show ?thesis using run [of name] b3(4) [of name] by simp
  qed
  have "reported b'" using run by blast
  moreover obtain name v where "(name, v) \<in> set (as_Microservices a)" using a(3) by (cases "as_Microservices a") auto
  with filled have "\<exists>m. (name, Some m) \<in> set (as_Microservices a)" by (cases v) (fastforce simp: filled_ms_def)+
  with st have "br_microservicesStatus b' \<noteq> []" by fastforce
  ultimately show ?thesis using st by (auto simp: reported_def split: if_splits)
qed

section \<open>From the project to its status\<close>

lemma joined_device:
  assumes "no_nil a" "(ev_NodeName env, Some d) \<in> set (as_Devices a)" "dv_Addr d = ev_NodeIP env"
  shows "c \<in> set (joined_devices (put (node_key (ev_NodeName env) (ev_NodeIP env)) c streams) (snd (setInitializeValue a)))"
proof -
  have "(ev_NodeName env, Some (init_device d)) \<in> set (as_Devices (snd (setInitializeValue a)))"
    using assms(2) by (force simp: set_init_ok [OF assms(1)] map_vals_def init_device_ptr_def)
  moreover have "dv_Addr (init_device d) = ev_NodeIP env" using assms(3) by (simp add: init_device_def)
  ultimately show ?thesis by (force simp: joined_devices_def List.map_filter_def image_iff)
qed

text \<open>The events at the master when a worker has joined and sends its status after every change.\<close>

definition worker_events :: "EnvironmentValue \<Rightarrow> 'c \<Rightarrow> (string, bool) gomap list \<Rightarrow> 'c cluster_event list" where
  "worker_events env c updates = Joined (node_key (ev_NodeName env) (ev_NodeIP env)) c #
     map (\<lambda>nm. Reported (node_key (ev_NodeName env) (ev_NodeIP env)) (nm_ServicesStatus nm))
       (workerClient_sends env (map Some updates))"

lemma worker_events_last:
  "us \<noteq> [] \<Longrightarrow> worker_events env c us = worker_events env c (butlast us) @
     [Reported (node_key (ev_NodeName env) (ev_NodeIP env)) (Some (last us))]"
  by (cases us rule: rev_cases) (simp_all add: worker_events_def workerClient_sends_def worker_meta_def)

text \<open>The status of the master shows the last update of a worker.\<close>

lemma last_update_shown:
  fixes evs :: "'c cluster_event list" and c :: 'c
  assumes "redis_hashes api hash enc" "us \<noteq> []"
  shows "\<exists>r' s. monitor_Start api (ww_StatusMonitorCh (cluster_run NewWorkerWatcher (evs @ worker_events env c us))) r = (None, r') \<and>
    sv_Status (fst (fst (projectServer_Status api r'))) = Some s \<and>
    map_of s (node_key (ev_NodeName env) (ev_NodeIP env)) = Some (node_field enc (Some (last us)))"
proof -
  have none: "\<forall>e \<in> set []. \<forall>m st. (e :: 'c cluster_event) \<noteq> Reported m st" by simp
  from status_after_report [OF assms(1) none, of "evs @ worker_events env c (butlast us)" "node_key (ev_NodeName env) (ev_NodeIP env)"
      "Some (last us)" r]
  show ?thesis unfolding worker_events_last [OF assms(2)] by auto
qed

text \<open>A worker that has joined as a device of a project is sent the loaded project, and loads it.\<close>

lemma project_sent:
  fixes evs :: "'c cluster_event list" and c :: 'c
  assumes "no_nil a" "(ev_NodeName env, Some d) \<in> set (as_Devices a)" "dv_Addr d = ev_NodeIP env"
  shows "(c, \<lparr>ca_AionSetting = Some (snd (setInitializeValue a))\<rparr>) \<in> set (snd (SendAionSettingToWorker
      (cluster_run NewWorkerWatcher (evs @ worker_events env c [])) (Some (snd (setInitializeValue a)))))"
    "workerClient_recv \<lparr>ca_AionSetting = Some (snd (setInitializeValue a))\<rparr> [] = (None, [Some (snd (setInitializeValue a))])"
proof -
  let ?a = "snd (setInitializeValue a)" and ?w0 = "cluster_run NewWorkerWatcher (evs @ worker_events env c [])"
  have wf: "wf_setting ?a" by (rule set_init_wf [OF assms(1)])
  have "ww_ClientStream ?w0 = put (node_key (ev_NodeName env) (ev_NodeIP env)) c (ww_ClientStream (cluster_run NewWorkerWatcher evs))"
    by (simp add: cluster_run_def worker_events_def workerClient_sends_def Let_def)
  with joined_device [OF assms] have "c \<in> set (joined_devices (ww_ClientStream ?w0) ?a)" by simp
  moreover have "None \<notin> snd ` set (as_Devices ?a)" using wf by (auto simp: wf_setting_def split: option.splits)
  ultimately show "(c, \<lparr>ca_AionSetting = Some ?a\<rparr>) \<in> set (snd (SendAionSettingToWorker ?w0 (Some ?a)))"
    by (simp add: SendAionSettingToWorker_def joined_devices_def send_devices_ok)
  show "workerClient_recv \<lparr>ca_AionSetting = Some ?a\<rparr> [] = (None, [Some ?a])"
    by (simp add: workerClient_recv_def load_Some set_init_id [OF wf])
qed

text \<open>
  C7. A project through a whole cluster. A project without nil that is applied at the master
  is answered with OK and sent to a worker that has joined as one of its devices; the worker loads and
  deploys it without a panic, its instances that the cluster accepts are running and watched;
  and the status that is asked of the master after the worker's reports shows for this worker
  every microservice of the project, as running exactly when it is marked startup.
\<close>

theorem applied_project_shown:
  fixes evs :: "'c cluster_event list" and c :: 'c and w :: "'q k8s_world"
  assumes a: "no_nil a" "distinct (keys (as_Microservices a))" "as_Microservices a \<noteq> []"
    and dev: "(ev_NodeName env, Some d) \<in> set (as_Devices a)" "dv_Addr d = ev_NodeIP env"
    and w: "world_ok w" "\<forall>name m. (name, Some m) \<in> set (as_Microservices (snd (setInitializeValue a))) \<longrightarrow> buildable w m"
    and redis: "redis_hashes api hash enc"
  shows "\<exists>a' b' r' s. projectServer_Apply (Some a) p = (Inr response_ok, p\<lparr>ps_prj := Some a', ps_AionCh := ps_AionCh p @ [Some a']\<rparr>) \<and>
    (c, \<lparr>ca_AionSetting = Some a'\<rparr>) \<in> set (snd (SendAionSettingToWorker
       (cluster_run NewWorkerWatcher (evs @ worker_events env c [])) (Some a'))) \<and>
    workerClient_recv \<lparr>ca_AionSetting = Some a'\<rparr> [] = (None, [Some a']) \<and>
    handle w (Deploy (Some a')) (new_broker home True ke) = (None, b') \<and>
    (\<forall>name m i. (name, Some m) \<in> set (as_Microservices a') \<longrightarrow>
      cnt b' name i = int (count_list (br_watchers b') (name, i)) \<and>
      (ms_Startup m \<and> i \<in> {1..to_int (ms_Scale m)} \<and>
        (\<forall>h. fst (StartProcess w (cs_Container (snd (fresh_instance ke name (with_env (new_broker home True ke :: 'q broker) a' m) i))) h) = None)
        \<longrightarrow> 0 < cnt b' name i)) \<and>
    monitor_Start api (ww_StatusMonitorCh (cluster_run NewWorkerWatcher (evs @ worker_events env c (br_updateTrigger b')))) r = (None, r') \<and>
    sv_Status (fst (fst (projectServer_Status api r'))) = Some s \<and>
    map_of s (node_key (ev_NodeName env) (ev_NodeIP env)) = Some (node_field enc (Some (br_microservicesStatus b'))) \<and>
    (\<forall>name m. (name, Some m) \<in> set (as_Microservices a') \<longrightarrow> map_of (br_microservicesStatus b') name = Some (ms_Startup m))"
proof -
  let ?a = "snd (setInitializeValue a)" and ?b = "new_broker home True ke :: 'q broker"
  let ?n = "node_key (ev_NodeName env) (ev_NodeIP env)"
  have wf: "wf_setting ?a" by (rule set_init_wf [OF a(1)])
  have keys: "distinct (keys (as_Microservices ?a))" "as_Microservices ?a \<noteq> []"
    using a(2,3) keys_loaded [OF a(1)] by auto
  from deploy_project [OF w(1) new_broker_inv wf keys(1) w(2), of home True ke] obtain b' where
    b': "handle w (Deploy (Some ?a)) ?b = (None, b')"
    "\<And>name m i. (name, Some m) \<in> set (as_Microservices ?a) \<Longrightarrow>
       cnt b' name i = int (count_list (br_watchers b') (name, i)) \<and>
      (ms_Startup m \<and> i \<in> {1..to_int (ms_Scale m)} \<and>
        (\<forall>h. fst (StartProcess w (cs_Container (snd (fresh_instance (br_k8sEnv ?b) name (with_env ?b ?a m) i))) h) = None)
        \<longrightarrow> 0 < cnt b' name i)" by blast
  have "reported ?b" "br_workerMode ?b" by (simp_all add: reported_def new_broker_def)
  from deploy_reports [OF b'(1) this wf keys] have rep: "br_updateTrigger b' \<noteq> []"
    "last (br_updateTrigger b') = br_microservicesStatus b'"
    "\<forall>name m. (name, Some m) \<in> set (as_Microservices ?a) \<longrightarrow> map_of (br_microservicesStatus b') name = Some (ms_Startup m)"
    by auto
  note sent = project_sent [OF a(1) dev]
  from last_update_shown [OF redis rep(1), of evs env c r] obtain r' s where
    st: "monitor_Start api (ww_StatusMonitorCh (cluster_run NewWorkerWatcher (evs @ worker_events env c (br_updateTrigger b')))) r = (None, r')"
    "sv_Status (fst (fst (projectServer_Status api r'))) = Some s"
    "map_of s ?n = Some (node_field enc (Some (br_microservicesStatus b')))"
    unfolding rep(2) by blast
  have ke: "br_k8sEnv ?b = ke" by (simp add: new_broker_def)
  have runs: "\<forall>name m i. (name, Some m) \<in> set (as_Microservices ?a) \<longrightarrow>
      cnt b' name i = int (count_list (br_watchers b') (name, i)) \<and>
      (ms_Startup m \<and> i \<in> {1..to_int (ms_Scale m)} \<and>
        (\<forall>h. fst (StartProcess w (cs_Container (snd (fresh_instance ke name (with_env ?b ?a m) i))) h) = None)
        \<longrightarrow> 0 < cnt b' name i)"
    using b'(2) unfolding ke by blast
  from apply_loaded [OF a(1), of p] sent b'(1) runs st rep(3) show ?thesis
    by (intro exI [of _ ?a] exI [of _ b'] exI [of _ r'] exI [of _ s] conjI) assumption+
qed

theorem applied_project_shown_witness:
  "\<exists>b' r' s. handle ex_world (Deploy (Some (snd (setInitializeValue ex_setting)))) (new_broker ''/var/lib/aion'' True (pd_k8sEnv ex_pod)) = (None, b') \<and>
    sv_Status (fst (fst (projectServer_Status ref_hash_api r'))) = Some s \<and>
    map_of s ''dev/10.0.0.2'' = Some (node_field ref_enc (Some (br_microservicesStatus b')))"
proof -
  have a: "distinct (keys (as_Microservices ex_setting))" "as_Microservices ex_setting \<noteq> []"
    "(ev_NodeName ex_worker_env, Some ex_device) \<in> set (as_Devices ex_setting)" "dv_Addr ex_device = ev_NodeIP ex_worker_env"
    by (simp_all add: ex_setting_def ex_worker_env_def ex_device_def)
  have loaded: "ex_loaded_setting = snd (setInitializeValue ex_setting)"
    by (simp add: ex_loaded_setting_def load_Some set_init_ok [OF ex_setting_no_nil])
  have n: "node_key (ev_NodeName ex_worker_env) (ev_NodeIP ex_worker_env) = ''dev/10.0.0.2''" by code_simp
  from applied_project_shown [where c = "7 :: nat" and evs = "[]" and p = NewProjectServer and home = "''/var/lib/aion''"
      and ke = "pd_k8sEnv ex_pod" and r = "\<lambda>_. []",
      OF ex_setting_no_nil a ex_world_ok ex_setting_buildable [unfolded loaded] ref_hashes.redis_hashes_axioms]
  show ?thesis
    unfolding n apply_loaded [OF ex_setting_no_nil] by (simp add: NewProjectServer_def del: handle.simps) blast
qed

end
