(* ===== verification/MasterRun.thy ===== *)
theory MasterRun
  imports Services "HOL-Library.Sublist"
begin

text \<open>
  The process of the master at run time (masterServer and defaultServer of
  cmd/service-broker/main.go): the calls of the project service, the streams of the workers, the
  goroutine that passes the projects on and the monitor of the status take turns in any order.
  gRPC does not recover from the panic of a handler, so a panic ends the process. Each event is
  atomic; the code reads two maps without their lock, and such races are left out.
\<close>

section \<open>A call of the project service\<close>

datatype project_call = ApplyCall "AionSetting option" | DeleteCall "AionSetting option" | StatusCall

datatype answer = ProjectAnswer ProjectResponse | StatusAnswer Services "go_error option"

definition serve_call :: "'r redis_api \<Rightarrow> project_call \<Rightarrow> project_server \<Rightarrow> 'r \<Rightarrow> answer result \<times> project_server \<times> 'r" where
  "serve_call api call p r =
     (case call of
        ApplyCall q \<Rightarrow> (case projectServer_Apply q p of (res, p') \<Rightarrow> (map_sum id ProjectAnswer res, p', r))
      | DeleteCall q \<Rightarrow> (case projectServer_Delete q p of (res, p') \<Rightarrow> (map_sum id ProjectAnswer res, p', r))
      | StatusCall \<Rightarrow> (case projectServer_Status api r of ((sv, e), r') \<Rightarrow> (Inr (StatusAnswer sv e), p, r')))"

section \<open>The server of the default mode\<close>

text \<open>The project service writes to the project channel of the broker itself.\<close>

fun default_calls :: "'r redis_api \<Rightarrow> project_call list \<Rightarrow> answer list \<Rightarrow> project_server \<Rightarrow> 'r \<Rightarrow>
    go_error option \<times> answer list \<times> project_server \<times> 'r" where
  "default_calls api [] answers p r = (None, answers, p, r)"
| "default_calls api (c # cs) answers p r =
     (case serve_call api c p r of
        (Inl e, p', r') \<Rightarrow> (Some e, answers, p', r')
      | (Inr a, p', r') \<Rightarrow> default_calls api cs (answers @ [a]) p' r')"

text \<open>
  The listener may fail at once, and the server may fail after the calls it has served; the
  channel may hold the project that main has loaded.
\<close>

definition defaultServer :: "'r redis_api \<Rightarrow> go_error option \<Rightarrow> project_call list \<Rightarrow> go_error option \<Rightarrow>
    AionSetting option list \<Rightarrow> 'r \<Rightarrow> go_error option \<times> answer list \<times> project_server \<times> 'r" where
  "defaultServer api listen calls serve aionCh r =
     (let p = NewProjectServer\<lparr>ps_AionCh := aionCh\<rparr>
      in (case listen of
            Some e \<Rightarrow> (Some (Error ''cant start server''), [], p, r)
          | None \<Rightarrow>
             (case default_calls api calls [] p r of
                (Some e, rest) \<Rightarrow> (Some e, rest)
              | (None, rest) \<Rightarrow> (map_option (\<lambda>e. Error ''cant start server'') serve, rest))))"

section \<open>The master\<close>

text \<open>
  The project channel and the channel of the monitor are the lists of what has been sent to
  them, so the goroutines that read them have a position each. \<open>ma_sent\<close> is what was sent to
  the workers, with the stream.
\<close>

record ('r, 'c) master =
  ma_project :: project_server
  ma_workers :: "'c worker_watcher"
  ma_redis :: 'r
  ma_answers :: "answer list"
  ma_taken :: nat
  ma_sent :: "('c \<times> ClusterApply) list"
  ma_cleared :: bool
  ma_stored :: nat

definition new_master :: "'r \<Rightarrow> ('r, 'c) master" where
  "new_master r = \<lparr>ma_project = NewProjectServer, ma_workers = NewWorkerWatcher, ma_redis = r, ma_answers = [],
     ma_taken = 0, ma_sent = [], ma_cleared = False, ma_stored = 0\<rparr>"

text \<open>
  The events: a call of the project service; a worker opens its stream, reports and leaves; the
  goroutine of \<open>SendAionSettingToWorker\<close> and the monitor have their turns. The first turn of the
  monitor clears the hash, and a turn with nothing to take waits. What the monitor takes is not
  a copy: it is the map that the streams go on to write to, as it is when the monitor reads it.
\<close>

datatype 'c master_event =
    Called project_call
  | JoinCall "(string, string list) gomap option" 'c
  | Report string "(string, bool) gomap option"
  | Leave string
  | Dispatch
  | MonitorTurn

definition dispatch :: "('r, 'c) master \<Rightarrow> go_error option \<times> ('r, 'c) master" where
  "dispatch m =
     (if ma_taken m < length (ps_AionCh (ma_project m))
      then (case SendAionSettingToWorker (ma_workers m) (ps_AionCh (ma_project m) ! ma_taken m) of
              (e, sent) \<Rightarrow> (e, m\<lparr>ma_sent := ma_sent m @ sent, ma_taken := ma_taken m + 1\<rparr>))
      else (None, m))"

definition monitor_turn :: "'r redis_api \<Rightarrow> ('r, 'c) master \<Rightarrow> go_error option \<times> ('r, 'c) master" where
  "monitor_turn api m =
     (if \<not> ma_cleared m
      then (case Delete api [redisKey] (ma_redis m) of
              (Inl e, r) \<Rightarrow> (Some e, m\<lparr>ma_redis := r\<rparr>)
            | (Inr _, r) \<Rightarrow> (None, m\<lparr>ma_redis := r, ma_cleared := True\<rparr>))
      else if ma_stored m < length (ww_StatusMonitorCh (ma_workers m))
      then (None, m\<lparr>ma_redis := monitor_step api (ma_redis m) (ww_ServicesStatus (ma_workers m)), ma_stored := ma_stored m + 1\<rparr>)
      else (None, m))"

fun master_step :: "'r redis_api \<Rightarrow> ('r, 'c) master \<Rightarrow> 'c master_event \<Rightarrow> go_error option \<times> ('r, 'c) master" where
  "master_step api m (Called c) =
     (case serve_call api c (ma_project m) (ma_redis m) of
        (Inl e, p, r) \<Rightarrow> (Some e, m\<lparr>ma_project := p, ma_redis := r\<rparr>)
      | (Inr a, p, r) \<Rightarrow> (None, m\<lparr>ma_project := p, ma_redis := r, ma_answers := ma_answers m @ [a]\<rparr>))"
| "master_step api m (JoinCall md c) =
     (case node_name md of
        Inl (Panic s) \<Rightarrow> (Some (Panic s), m)
      | Inl (Error s) \<Rightarrow> (None, m)
      | Inr n \<Rightarrow> (None, m\<lparr>ma_workers := cluster_step (ma_workers m) (Joined n c)\<rparr>))"
| "master_step api m (Report n st) = (None, m\<lparr>ma_workers := cluster_step (ma_workers m) (Reported n st)\<rparr>)"
| "master_step api m (Leave n) = (None, m\<lparr>ma_workers := cluster_step (ma_workers m) (Closed n)\<rparr>)"
| "master_step api m Dispatch = dispatch m"
| "master_step api m MonitorTurn = monitor_turn api m"

fun master_run :: "'r redis_api \<Rightarrow> 'c master_event list \<Rightarrow> ('r, 'c) master \<Rightarrow> go_error option \<times> ('r, 'c) master" where
  "master_run api [] m = (None, m)"
| "master_run api (ev # evs) m =
     (case master_step api m ev of
        (Some e, m') \<Rightarrow> (Some e, m')
      | (None, m') \<Rightarrow> master_run api evs m')"

definition masterServer :: "'r redis_api \<Rightarrow> go_error option \<Rightarrow> 'c master_event list \<Rightarrow> go_error option \<Rightarrow> 'r \<Rightarrow>
    go_error option \<times> ('r, 'c) master" where
  "masterServer api listen evs serve r =
     (case listen of
        Some e \<Rightarrow> (Some (Error ''cant start server''), new_master r)
      | None \<Rightarrow>
         (case master_run api evs (new_master r) of
            (Some e, m) \<Rightarrow> (Some e, m)
          | (None, m) \<Rightarrow> (map_option (\<lambda>e. Error ''cant start server'') serve, m)))"


section \<open>The workers and the projects of a run\<close>

lemma master_run_snoc:
  "master_run api (evs @ [ev]) m =
     (case master_run api evs m of (Some e, m') \<Rightarrow> (Some e, m') | (None, m') \<Rightarrow> master_step api m' ev)"
  by (induction evs arbitrary: m) (auto split: prod.splits option.splits)

text \<open>What the streams of the workers contribute is a run of the cluster service.\<close>

fun cluster_events :: "'c master_event list \<Rightarrow> 'c cluster_event list" where
  "cluster_events [] = []"
| "cluster_events (JoinCall md c # evs) =
     (case node_name md of Inl e \<Rightarrow> cluster_events evs | Inr n \<Rightarrow> Joined n c # cluster_events evs)"
| "cluster_events (Report n st # evs) = Reported n st # cluster_events evs"
| "cluster_events (Leave n # evs) = Closed n # cluster_events evs"
| "cluster_events (Called c # evs) = cluster_events evs"
| "cluster_events (Dispatch # evs) = cluster_events evs"
| "cluster_events (MonitorTurn # evs) = cluster_events evs"

definition workers_after :: "'c master_event list \<Rightarrow> 'c worker_watcher" where
  "workers_after evs = cluster_run NewWorkerWatcher (cluster_events evs)"

lemma dispatch_parts:
  assumes "dispatch m = (e, m')"
  shows "ma_workers m' = ma_workers m" "ma_project m' = ma_project m" "ma_redis m' = ma_redis m"
    "ma_cleared m' = ma_cleared m" "ma_stored m' = ma_stored m"
  using assms by (auto simp: dispatch_def split: if_splits prod.splits)

lemma monitor_parts:
  assumes "monitor_turn api m = (e, m')"
  shows "ma_workers m' = ma_workers m" "ma_project m' = ma_project m" "ma_taken m' = ma_taken m" "ma_sent m' = ma_sent m"
  using assms by (auto simp: monitor_turn_def split: if_splits prod.splits sum.splits)

lemma workers_of_run:
  "master_run api evs m = (None, m') \<Longrightarrow> ma_workers m' = cluster_run (ma_workers m) (cluster_events evs)"
proof (induction evs arbitrary: m)
  case (Cons ev evs)
  then obtain m1 where 1: "master_step api m ev = (None, m1)" "master_run api evs m1 = (None, m')"
    by (auto split: prod.splits option.splits)
  from Cons.IH [OF 1(2)] 1(1) show ?case
    by (cases ev) (auto simp: cluster_run_def dispatch_parts monitor_parts split: prod.splits sum.splits go_error.splits)
qed (simp add: cluster_run_def)

lemma workers_of_new: "master_run api evs (new_master r) = (None, m) \<Longrightarrow> ma_workers m = workers_after evs"
  by (simp add: workers_of_run workers_after_def new_master_def)

text \<open>Every stream that is kept was joined under its name.\<close>

definition joined_by :: "'c master_event set \<Rightarrow> 'c worker_watcher \<Rightarrow> bool" where
  "joined_by E w \<longleftrightarrow> (\<forall>n c. map_of (ww_ClientStream w) n = Some c \<longrightarrow> (\<exists>md. JoinCall md c \<in> E \<and> node_name md = Inr n))"

lemma joined_after: "joined_by E w \<Longrightarrow> set evs \<subseteq> E \<Longrightarrow> joined_by E (cluster_run w (cluster_events evs))"
proof (induction evs arbitrary: w rule: cluster_events.induct)
  case (2 md c evs)
  show ?case
  proof (cases "node_name md")
    case (Inr n)
    with 2(3,4) have "joined_by E (cluster_step w (Joined n c))"
      by (auto simp: joined_by_def update_conv split: if_splits)
    from 2(2) [OF Inr this] 2(4) Inr show ?thesis by (simp add: cluster_run_def)
  qed (use 2 in simp)
next
  case (3 n st evs)
  have "joined_by E (cluster_step w (Reported n st))" using 3(2) by (simp add: joined_by_def Let_def)
  from 3(1) [OF this] 3(3) show ?case by (simp add: cluster_run_def)
next
  case (4 n evs)
  have "joined_by E (cluster_step w (Closed n))" using 4(2) by (simp add: joined_by_def)
  from 4(1) [OF this] 4(3) show ?case by (simp add: cluster_run_def)
qed (simp_all add: cluster_run_def)

text \<open>Where the projects come from: their microservices are those of one that was asked for.\<close>

definition asked_for :: "'c master_event set \<Rightarrow> AionSetting \<Rightarrow> bool" where
  "asked_for E a \<longleftrightarrow> (\<exists>q. (Called (ApplyCall (Some q)) \<in> E \<or> Called (DeleteCall (Some q)) \<in> E) \<and>
     set (keys (as_Microservices a)) \<subseteq> set (keys (as_Microservices q)))"

definition projects_asked :: "'c master_event set \<Rightarrow> project_server \<Rightarrow> bool" where
  "projects_asked E p \<longleftrightarrow> (\<forall>a. ps_prj p = Some a \<longrightarrow> asked_for E a) \<and>
     (\<forall>s \<in> set (ps_AionCh p). \<exists>a. s = Some a \<and> wf_setting a \<and> asked_for E a)"

lemma keys_init: "keys (as_Microservices (snd (setInitializeValue a))) = keys (as_Microservices a)"
proof -
  obtain e ds where "for_vals init_device_ptr (as_Devices a) = (e, ds)" by fastforce
  moreover obtain e' ms where ms: "for_vals init_microservice_ptr (as_Microservices a) = (e', ms)" by fastforce
  moreover have "keys ms = keys (as_Microservices a)"
    using keys_for_vals [of init_microservice_ptr "as_Microservices a"] by (simp add: ms)
  ultimately show ?thesis by (simp add: setInitializeValue_def split: option.splits)
qed

lemma load_asked:
  assumes "LoadConfigFromGRPC q = (e, q')" "\<forall>a. q = Some a \<longrightarrow> asked_for E a"
  shows "\<forall>a. q' = Some a \<longrightarrow> asked_for E a" "e = None \<Longrightarrow> \<exists>a. q' = Some a \<and> wf_setting a \<and> asked_for E a"
proof -
  have "asked_for E (snd (setInitializeValue a))" if "q = Some a" for a
    using assms(2) that by (simp add: asked_for_def keys_init)
  with assms(1) set_init_ok_iff set_init_wf
  show "\<forall>a. q' = Some a \<longrightarrow> asked_for E a" "e = None \<Longrightarrow> \<exists>a. q' = Some a \<and> wf_setting a \<and> asked_for E a"
    by (cases q; force simp: load_Some LoadConfigFromGRPC_def [of None])+
qed

lemma asked_part: "asked_for E a \<Longrightarrow> set (keys (as_Microservices b)) \<subseteq> set (keys (as_Microservices a)) \<Longrightarrow> asked_for E b"
  unfolding asked_for_def by (elim exE conjE) (rule exI, rule conjI, assumption, rule subset_trans)

lemma asked_delete: "asked_for E a \<Longrightarrow> asked_for E (delete_services d a)"
  by (erule asked_part) (simp only: keys_deleted filter_is_subset)

lemma serve_asked:
  assumes "serve_call api c p r = (res, p', r')" "projects_asked E p" "Called c \<in> E"
  shows "projects_asked E p'"
proof (cases c)
  case (ApplyCall q)
  obtain e q' where l: "LoadConfigFromGRPC q = (e, q')" by fastforce
  have "\<forall>a. q = Some a \<longrightarrow> asked_for E a" using assms(3) ApplyCall by (auto simp: asked_for_def)
  from load_asked [OF l this] assms(1,2) l show ?thesis
    by (auto simp: ApplyCall serve_call_def projectServer_Apply_def projects_asked_def split: option.splits go_error.splits)
next
  case (DeleteCall q)
  show ?thesis
  proof (cases q)
    case None
    with assms(1,2) show ?thesis by (simp add: DeleteCall serve_call_def projectServer_Delete_def)
  next
    case (Some d)
    obtain e q' where l: "LoadConfigFromGRPC (map_option (delete_services d) (ps_prj p)) = (e, q')" by fastforce
    have "\<forall>a. map_option (delete_services d) (ps_prj p) = Some a \<longrightarrow> asked_for E a"
      using assms(2) by (auto simp: projects_asked_def intro: asked_delete)
    from load_asked [OF l this] have l': "\<forall>a. q' = Some a \<longrightarrow> asked_for E a"
      "e = None \<Longrightarrow> \<exists>a. q' = Some a \<and> wf_setting a \<and> asked_for E a" by blast+
    have "asked_for E d" using assms(3) DeleteCall Some by (auto simp: asked_for_def)
    with l' assms(1,2) l Some show ?thesis
      by (auto simp: DeleteCall serve_call_def projectServer_Delete_def projects_asked_def
          split: option.splits go_error.splits if_splits)
  qed
next
  case StatusCall
  with assms(1,2) show ?thesis by (auto simp: serve_call_def split: prod.splits)
qed

lemma step_asked:
  "master_step api m ev = (e, m') \<Longrightarrow> projects_asked E (ma_project m) \<Longrightarrow> ev \<in> E \<Longrightarrow> projects_asked E (ma_project m')"
  by (cases ev) (auto simp: dispatch_parts monitor_parts split: prod.splits sum.splits go_error.splits dest: serve_asked)

lemma run_asked:
  "master_run api evs m = (e, m') \<Longrightarrow> projects_asked E (ma_project m) \<Longrightarrow> set evs \<subseteq> E \<Longrightarrow> projects_asked E (ma_project m')"
  by (induction evs arbitrary: m) (auto split: prod.splits option.splits dest: step_asked)

section \<open>What is sent to the workers\<close>

lemma zip_more: "length xs \<le> length ys \<Longrightarrow> zip xs (ys @ zs) = zip xs ys"
  by (simp add: zip_append2)

lemma zip_next: "length xs < length ys \<Longrightarrow> zip (xs @ [x]) ys = zip xs ys @ [(x, ys ! length xs)]"
proof (induction xs arbitrary: ys)
  case Nil
  then show ?case by (cases ys) auto
next
  case (Cons y xs)
  then show ?case by (cases ys) auto
qed

lemma serve_grows: "serve_call api c p r = (res, p', r') \<Longrightarrow> \<exists>zs. ps_AionCh p' = ps_AionCh p @ zs"
  by (auto simp: serve_call_def projectServer_Apply_def projectServer_Delete_def
      split: project_call.splits prod.splits option.splits go_error.splits if_splits)

definition sent_after :: "'c master_event list list \<Rightarrow> AionSetting option list \<Rightarrow> ('c \<times> ClusterApply) list" where
  "sent_after xss ch = concat (map (\<lambda>(xs, s). snd (SendAionSettingToWorker (workers_after xs) s)) (zip xss ch))"

lemma step_keeps_sent:
  assumes "master_step api m ev = (e, m')" "ev \<noteq> Dispatch"
  shows "ma_sent m' = ma_sent m" "ma_taken m' = ma_taken m" "\<exists>zs. ps_AionCh (ma_project m') = ps_AionCh (ma_project m) @ zs"
  using assms by (cases ev; auto simp: monitor_parts split: prod.splits sum.splits go_error.splits dest: serve_grows)+

text \<open>Each project on the channel is sent once, in order, to the workers that have joined by then.\<close>

lemma sends_of_run:
  "master_run api evs (new_master r) = (e, m) \<Longrightarrow> \<exists>xss. length xss = ma_taken m \<and>
     ma_taken m \<le> length (ps_AionCh (ma_project m)) \<and> (\<forall>xs \<in> set xss. prefix xs evs) \<and>
     ma_sent m = sent_after xss (ps_AionCh (ma_project m))"
proof (induction evs arbitrary: e m rule: rev_induct)
  case Nil
  then show ?case by (auto simp: new_master_def NewProjectServer_def sent_after_def)
next
  case (snoc ev evs)
  obtain e1 m1 where 1: "master_run api evs (new_master r) = (e1, m1)" by fastforce
  from snoc.IH [OF this] obtain xss where xss: "length xss = ma_taken m1" "ma_taken m1 \<le> length (ps_AionCh (ma_project m1))"
    "\<forall>xs \<in> set xss. prefix xs evs" "ma_sent m1 = sent_after xss (ps_AionCh (ma_project m1))" by blast
  have pre: "\<forall>xs \<in> set xss. prefix xs (evs @ [ev])" using xss(3) by (simp add: prefix_snoc)
  show ?case
  proof (cases e1)
    case (Some e')
    with snoc.prems 1 have "m = m1" by (simp add: master_run_snoc)
    with xss pre show ?thesis by blast
  next
    case None
    with snoc.prems 1 have step: "master_step api m1 ev = (e, m)" by (simp add: master_run_snoc)
    show ?thesis
    proof (cases "ev = Dispatch \<and> ma_taken m1 < length (ps_AionCh (ma_project m1))")
      case True
      let ?s = "ps_AionCh (ma_project m1) ! ma_taken m1"
      from True step have m: "m = m1\<lparr>ma_sent := ma_sent m1 @ snd (SendAionSettingToWorker (workers_after evs) ?s), ma_taken := ma_taken m1 + 1\<rparr>"
        using workers_of_new [of api evs r m1] 1 None by (auto simp: dispatch_def split: prod.splits)
      have "zip (xss @ [evs]) (ps_AionCh (ma_project m1)) = zip xss (ps_AionCh (ma_project m1)) @ [(evs, ?s)]"
        using zip_next [of xss "ps_AionCh (ma_project m1)" evs] True xss(1) by simp
      with xss pre True show ?thesis
        by (intro exI [of _ "xss @ [evs]"]) (simp add: m sent_after_def)
    next
      case False
      have "ma_sent m = ma_sent m1 \<and> ma_taken m = ma_taken m1 \<and> (\<exists>zs. ps_AionCh (ma_project m) = ps_AionCh (ma_project m1) @ zs)"
      proof (cases "ev = Dispatch")
        case True
        with False step show ?thesis by (auto simp: dispatch_def)
      next
        case other: False
        from step_keeps_sent [OF step other] show ?thesis by blast
      qed
      with xss pre show ?thesis by (auto intro!: exI [of _ xss] simp: sent_after_def zip_more)
    qed
  qed
qed

lemma sent_where:
  assumes "(c, ap) \<in> set (snd (SendAionSettingToWorker w (Some a)))" "wf_setting a"
  shows "ca_AionSetting ap = Some a \<and>
    (\<exists>k d. (k, Some d) \<in> set (as_Devices a) \<and> map_of (ww_ClientStream w) (node_key k (dv_Addr d)) = Some c)"
proof -
  have nn: "None \<notin> snd ` set (as_Devices a)" using assms(2) by (auto simp: wf_setting_def split: option.splits)
  with assms(1) have "c \<in> set (joined_devices (ww_ClientStream w) a)" "ca_AionSetting ap = Some a"
    by (auto simp: SendAionSettingToWorker_def joined_devices_def send_devices_ok)
  then obtain k d where kd: "(k, d) \<in> set (as_Devices a)" "map_of (ww_ClientStream w) (node_key k (dv_Addr (the d))) = Some c"
    by (auto simp: joined_devices_def List.map_filter_def)
  with nn obtain d' where "d = Some d'" by (cases d) force+
  with kd \<open>ca_AionSetting ap = Some a\<close> show ?thesis by auto
qed

lemma run_new_asked: "master_run api evs (new_master r) = (e, m) \<Longrightarrow> projects_asked (set evs) (ma_project m)"
  by (erule run_asked) (simp_all add: new_master_def NewProjectServer_def projects_asked_def)

lemma masterServer_run: "masterServer api None evs serve r = (e, m) \<Longrightarrow> \<exists>e'. master_run api evs (new_master r) = (e', m)"
  by (auto simp: masterServer_def split: prod.splits option.splits)

text \<open>
  C17. What a master sends to its workers. In whatever order calls, streams, goroutines and
  failures come, the projects of the channel are sent in their order, each once, to the
  streams that have been joined by then; every message holds a loaded project with all defaults,
  whose microservices are those of a project that was applied (or named in a delete), and
  goes to a stream that was joined under the name and address of one of its devices.
\<close>

theorem master_sends_projects:
  assumes "masterServer api None evs serve r = (e, m)"
  shows "(\<exists>xss. length xss = ma_taken m \<and> ma_taken m \<le> length (ps_AionCh (ma_project m)) \<and> (\<forall>xs \<in> set xss. prefix xs evs) \<and>
      ma_sent m = sent_after xss (ps_AionCh (ma_project m))) \<and>
    (\<forall>(c, ap) \<in> set (ma_sent m). \<exists>a k d md. ca_AionSetting ap = Some a \<and> wf_setting a \<and> asked_for (set evs) a \<and>
      Some a \<in> set (ps_AionCh (ma_project m)) \<and> (k, Some d) \<in> set (as_Devices a) \<and>
      JoinCall md c \<in> set evs \<and> node_name md = Inr (node_key k (dv_Addr d)))"
proof -
  from masterServer_run [OF assms] obtain e' where run: "master_run api evs (new_master r) = (e', m)" by blast
  from sends_of_run [OF run] obtain xss where xss: "length xss = ma_taken m"
    "ma_taken m \<le> length (ps_AionCh (ma_project m))" "\<forall>xs \<in> set xss. prefix xs evs"
    "ma_sent m = sent_after xss (ps_AionCh (ma_project m))" by blast
  have "\<exists>a k d md. ca_AionSetting ap = Some a \<and> wf_setting a \<and> asked_for (set evs) a \<and>
      Some a \<in> set (ps_AionCh (ma_project m)) \<and> (k, Some d) \<in> set (as_Devices a) \<and>
      JoinCall md c \<in> set evs \<and> node_name md = Inr (node_key k (dv_Addr d))" if "(c, ap) \<in> set (ma_sent m)" for c ap
  proof -
    from that xss(4) obtain xs s where xs: "(xs, s) \<in> set (zip xss (ps_AionCh (ma_project m)))"
      "(c, ap) \<in> set (snd (SendAionSettingToWorker (workers_after xs) s))" by (auto simp: sent_after_def)
    have s: "s \<in> set (ps_AionCh (ma_project m))" "prefix xs evs"
      using set_zip_rightD [OF xs(1)] set_zip_leftD [OF xs(1)] xss(3) by blast+
    with run_new_asked [OF run] obtain a where a: "s = Some a" "wf_setting a" "asked_for (set evs) a"
      by (auto simp: projects_asked_def)
    from sent_where [OF xs(2) [unfolded a(1)] a(2)] obtain k d where kd: "ca_AionSetting ap = Some a"
      "(k, Some d) \<in> set (as_Devices a)" "map_of (ww_ClientStream (workers_after xs)) (node_key k (dv_Addr d)) = Some c" by blast
    have "joined_by (set evs) (workers_after xs)"
      unfolding workers_after_def using set_mono_prefix [OF s(2)]
      by (intro joined_after) (simp_all add: joined_by_def NewWorkerWatcher_def)
    with kd a s(1) show ?thesis unfolding joined_by_def by blast
  qed
  with xss show ?thesis by blast
qed

text \<open>The worker named \<open>dev\<close> joins, and a project is applied that names it as a device.\<close>

definition ex_join :: "nat master_event" where
  "ex_join = JoinCall (Some (worker_md ex_worker_env)) 7"

definition ex_events :: "nat master_event list" where
  "ex_events = [ex_join, MonitorTurn, Called (ApplyCall (Some ex_setting)), Report ''dev/10.0.0.2'' (Some [(''a'', True)]),
     Dispatch, Called StatusCall, MonitorTurn]"

abbreviation ex_run_master :: "go_error option \<times> (ref_hashes, nat) master" where
  "ex_run_master \<equiv> masterServer ref_hash_api None ex_events None (\<lambda>_. [])"

lemma ex_master_facts:
  "fst ex_run_master = None" "map fst (ma_sent (snd ex_run_master)) = [7]" "ma_cleared (snd ex_run_master)"
  "ma_stored (snd ex_run_master) = length (ww_StatusMonitorCh (ma_workers (snd ex_run_master)))"
  by code_simp+

theorem master_sends_projects_witness:
  "\<exists>a d. map fst (ma_sent (snd ex_run_master)) = [7] \<and> wf_setting a \<and>
     Some a \<in> set (ps_AionCh (ma_project (snd ex_run_master))) \<and> (''dev'', Some d) \<in> set (as_Devices a)"
proof -
  have run: "ex_run_master = (None, snd ex_run_master)" using ex_master_facts(1) by (metis prod.collapse)
  from ex_master_facts(2) obtain ap where "(7, ap) \<in> set (ma_sent (snd ex_run_master))" by fastforce
  with master_sends_projects [OF run] obtain a k d md where
    a: "wf_setting a" "Some a \<in> set (ps_AionCh (ma_project (snd ex_run_master)))" "(k, Some d) \<in> set (as_Devices a)" by blast
  have "ps_AionCh (ma_project (snd ex_run_master)) = [Some (snd (setInitializeValue ex_setting))]" by code_simp
  with a(2) have "a = snd (setInitializeValue ex_setting)" by simp
  moreover have "keys (as_Devices (snd (setInitializeValue ex_setting))) = [''dev'']" by code_simp
  ultimately have "k = ''dev''" using a(3) by (metis empty_iff empty_set fst_conv image_eqI insertE list.set(2) set_map)
  with a ex_master_facts(2) show ?thesis by (intro exI [of _ a] exI [of _ d]) simp
qed

section \<open>When the master ends\<close>

text \<open>
  The events that end the process, by whether the service has a project: a delete without one,
  and a worker that joins with metadata that lack its name or its address.
\<close>

fun ends_process :: "bool \<Rightarrow> 'c master_event list \<Rightarrow> bool" where
  "ends_process p [] = False"
| "ends_process p (Called (ApplyCall q) # evs) = ends_process True evs"
| "ends_process p (Called (DeleteCall q) # evs) = (\<not> p \<or> ends_process p evs)"
| "ends_process p (JoinCall md c # evs) =
     ((\<exists>m. md = Some m \<and> (md_Get m ''nodename'' = [] \<or> md_Get m ''nodeip'' = [])) \<or> ends_process p evs)"
| "ends_process p (ev # evs) = ends_process p evs"

text \<open>The messages of a call, as gRPC delivers them, are not nil and hold no nil.\<close>

definition event_ok :: "'c master_event \<Rightarrow> bool" where
  "event_ok ev = (case ev of
      Called (ApplyCall q) \<Rightarrow> (case q of None \<Rightarrow> False | Some a \<Rightarrow> no_nil a)
    | Called (DeleteCall q) \<Rightarrow> (case q of None \<Rightarrow> False | Some a \<Rightarrow> no_nil a)
    | _ \<Rightarrow> True)"

definition calm :: "('r, 'c) master \<Rightarrow> bool" where
  "calm m \<longleftrightarrow> (\<forall>a. ps_prj (ma_project m) = Some a \<longrightarrow> no_nil a) \<and> (\<forall>s \<in> set (ps_AionCh (ma_project m)). \<exists>a. s = Some a \<and> wf_setting a)"

lemma delete_without_project:
  "ps_prj p = None \<Longrightarrow> \<exists>p'. projectServer_Delete (Some d) p = (Inl nil_deref, p')"
  by (auto simp: projectServer_Delete_def LoadConfigFromGRPC_def nil_deref_def)

lemma call_calm:
  assumes "calm m" "event_ok (Called c)" "master_step api m (Called c) = (e, m')"
  shows "(e = None \<longleftrightarrow> ps_prj (ma_project m) \<noteq> None \<or> (\<forall>q. c \<noteq> DeleteCall q)) \<and>
    (e = None \<longrightarrow> calm m' \<and> (ps_prj (ma_project m') \<noteq> None \<longleftrightarrow> ps_prj (ma_project m) \<noteq> None \<or> c \<noteq> StatusCall))"
proof (cases c)
  case (ApplyCall q)
  with assms(2) obtain a where a: "q = Some a" "no_nil a" by (auto simp: event_ok_def split: option.splits)
  have "wf_setting (snd (setInitializeValue a))" "no_nil (snd (setInitializeValue a))"
    using set_init_wf [OF a(2)] wf_no_nil by blast+
  with assms(1,3) show ?thesis
    by (auto simp: ApplyCall a(1) serve_call_def apply_loaded [OF a(2)] calm_def)
next
  case (DeleteCall q)
  with assms(2) obtain d where d: "q = Some d" "no_nil d" by (auto simp: event_ok_def split: option.splits)
  show ?thesis
  proof (cases "ps_prj (ma_project m)")
    case None
    from delete_without_project [OF this, of d] assms(3) None show ?thesis
      by (auto simp: DeleteCall d(1) serve_call_def)
  next
    case (Some a)
    with assms(1) have a: "no_nil a" by (simp add: calm_def)
    from set_init_wf [OF no_nil_delete [OF a, of d]] assms(1,3) show ?thesis
      by (auto simp: DeleteCall d serve_call_def delete_loaded [OF Some a] Some calm_def)
  qed
next
  case StatusCall
  with assms(1,3) show ?thesis by (auto simp: serve_call_def calm_def split: prod.splits)
qed

lemma dispatch_calm: "calm m \<Longrightarrow> fst (dispatch m) = None"
proof -
  assume "calm m"
  have "fst (SendAionSettingToWorker (ma_workers m) s) = None" if "s \<in> set (ps_AionCh (ma_project m))" for s
  proof -
    from \<open>calm m\<close> that obtain a where a: "s = Some a" "wf_setting a" by (auto simp: calm_def)
    then have "None \<notin> snd ` set (as_Devices a)" by (auto simp: wf_setting_def split: option.splits)
    with a(1) show ?thesis by (simp add: SendAionSettingToWorker_def send_devices_ok)
  qed
  then show ?thesis by (auto simp: dispatch_def split: prod.splits) (metis fst_conv nth_mem)
qed

lemma join_outcome:
  "master_step api m (JoinCall md c) = (e, m') \<Longrightarrow>
    (e = None \<longleftrightarrow> \<not> (\<exists>x. md = Some x \<and> (md_Get x ''nodename'' = [] \<or> md_Get x ''nodeip'' = []))) \<and>
    ma_project m' = ma_project m"
  by (auto simp: node_name_def split: option.splits list.splits)

lemma other_calm:
  assumes "\<And>r. \<exists>n r'. r_Del api [redisKey] r = (Inr n, r')" "calm m" "\<forall>c. ev \<noteq> Called c" "\<forall>md c. ev \<noteq> JoinCall md c"
    and "master_step api m ev = (e, m')"
  shows "e = None \<and> ma_project m' = ma_project m"
proof (cases ev)
  case Dispatch
  with assms(2,5) dispatch_calm [of m] dispatch_parts [of m e m'] show ?thesis by simp
next
  case MonitorTurn
  from assms(1) [of "ma_redis m"] assms(5) MonitorTurn monitor_parts [of api m e m'] show ?thesis
    by (auto simp: monitor_turn_def Delete_def split: if_splits)
qed (use assms in \<open>auto split: sum.splits go_error.splits\<close>)

lemma run_ends_iff:
  assumes "\<And>r. \<exists>n r'. r_Del api [redisKey] r = (Inr n, r')"
  shows "calm m \<Longrightarrow> \<forall>ev \<in> set evs. event_ok ev \<Longrightarrow>
    fst (master_run api evs m) = None \<longleftrightarrow> \<not> ends_process (ps_prj (ma_project m) \<noteq> None) evs"
proof (induction evs arbitrary: m)
  case (Cons ev evs)
  obtain e m' where step: "master_step api m ev = (e, m')" by fastforce
  from Cons.prems have ok: "event_ok ev" "\<forall>ev \<in> set evs. event_ok ev" by simp_all
  have run: "fst (master_run api (ev # evs) m) = (case e of None \<Rightarrow> fst (master_run api evs m') | Some x \<Rightarrow> Some x)"
    by (simp add: step split: option.splits)
  consider (call) c where "ev = Called c" | (join) md c where "ev = JoinCall md c"
    | (other) "\<forall>c. ev \<noteq> Called c" "\<forall>md c. ev \<noteq> JoinCall md c" by blast
  then show ?case
  proof cases
    case call
    from call_calm [OF Cons.prems(1) ok(1) [unfolded call] step [unfolded call]] Cons.IH [of m', OF _ ok(2)] show ?thesis
      unfolding run unfolding call by (cases c; cases e) auto
  next
    case join
    from join_outcome [OF step [unfolded join]] Cons.IH [of m', OF _ ok(2)] Cons.prems(1) show ?thesis
      unfolding run unfolding join by (cases e) (auto simp: calm_def)
  next
    case other
    with other_calm [OF assms Cons.prems(1) other step] have same: "e = None" "ma_project m' = ma_project m" by blast+
    have "ends_process p (ev # evs) = ends_process p evs" for p using other by (cases ev) auto
    with Cons.IH [of m', OF _ ok(2)] Cons.prems(1) same show ?thesis unfolding run by (simp add: calm_def)
  qed
qed simp

text \<open>The server of the default mode is a master that only gets calls.\<close>

lemma default_calls_run:
  "master_run api (map Called cs) m =
     (case default_calls api cs (ma_answers m) (ma_project m) (ma_redis m) of
        (e, as, p, r) \<Rightarrow> (e, m\<lparr>ma_project := p, ma_redis := r, ma_answers := as\<rparr>))"
proof (induction cs arbitrary: m)
  case (Cons c cs)
  show ?case
  proof (cases "serve_call api c (ma_project m) (ma_redis m)")
    case (fields res p r)
    then show ?thesis by (cases res) (simp_all add: Cons)
  qed
qed simp

text \<open>
  C19. When a call or a worker ends the process. With a Redis server that removes keys, and
  messages of calls that hold no nil, the process of the master panics exactly in two cases,
  whatever the order of calls, streams and goroutines: a project is to be deleted before one
  has been applied, or a worker joins with metadata that lack its name or its address. The
  server in default mode, which has no workers, panics exactly in the first case, also when
  main has loaded a project. (Steps are atomic here: what Go does when a map is read while it is
  written is not modelled.)
\<close>

theorem master_ends_iff:
  fixes evs :: "'c master_event list"
  assumes "\<And>r. \<exists>n r'. r_Del api [redisKey] r = (Inr n, r')" "\<forall>ev \<in> set evs. event_ok ev"
    and "\<forall>c \<in> set calls. event_ok (Called c :: 'c master_event)" "\<forall>s \<in> set ch. \<exists>a. s = Some a \<and> wf_setting a"
  shows "(fst (masterServer api None evs None r) = None \<longleftrightarrow> \<not> ends_process False evs) \<and>
    (fst (defaultServer api None calls None ch r) = None \<longleftrightarrow> \<not> ends_process False (map Called calls :: 'c master_event list))"
proof -
  let ?m = "new_master r :: ('a, 'c) master" and ?evs = "map Called calls :: 'c master_event list"
  let ?d = "?m\<lparr>ma_project := NewProjectServer\<lparr>ps_AionCh := ch\<rparr>\<rparr>"
  have m: "calm ?m" "(ps_prj (ma_project ?m) \<noteq> None) = False" by (simp_all add: calm_def new_master_def NewProjectServer_def)
  from run_ends_iff [OF assms(1) m(1) assms(2), unfolded m(2)]
  have "fst (master_run api evs ?m) = None \<longleftrightarrow> \<not> ends_process False evs" .
  then have "fst (masterServer api None evs None r) = None \<longleftrightarrow> \<not> ends_process False evs"
    by (cases "master_run api evs ?m"; cases "fst (master_run api evs ?m)") (auto simp: masterServer_def)
  moreover have d: "calm ?d" "(ps_prj (ma_project ?d) \<noteq> None) = False" "\<forall>ev \<in> set ?evs. event_ok ev"
    using assms(3,4) by (simp_all add: calm_def NewProjectServer_def)
  from run_ends_iff [OF assms(1) d(1,3), unfolded d(2)]
  have "fst (master_run api ?evs ?d) = None \<longleftrightarrow> \<not> ends_process False ?evs" .
  then have "fst (default_calls api calls [] (NewProjectServer\<lparr>ps_AionCh := ch\<rparr>) r) = None \<longleftrightarrow> \<not> ends_process False ?evs"
    by (auto simp: default_calls_run new_master_def split: prod.splits)
  then have "fst (defaultServer api None calls None ch r) = None \<longleftrightarrow> \<not> ends_process False ?evs"
    by (auto simp: defaultServer_def Let_def split: prod.splits option.splits)
  ultimately show ?thesis by blast
qed

theorem master_ends_iff_witness:
  "fst ex_run_master = None \<and>
   fst (defaultServer ref_hash_api None [DeleteCall (Some ex_setting)] None [] (\<lambda>_. [])) \<noteq> None \<and>
   fst (masterServer ref_hash_api None [JoinCall (Some [(''nodename'', [''dev''])]) (7 :: nat)] None (\<lambda>_. [])) \<noteq> None"
proof -
  have del: "\<exists>n r'. r_Del ref_hash_api [redisKey] r = (Inr n, r')" for r by (simp add: ref_hash_api_def)
  have ok: "\<forall>ev \<in> set ex_events. event_ok ev" "\<forall>c \<in> set [DeleteCall (Some ex_setting)]. event_ok (Called c :: nat master_event)"
    "\<forall>ev \<in> set [JoinCall (Some [(''nodename'', [''dev''])]) (7 :: nat)]. event_ok ev"
    using ex_setting_no_nil by (simp_all add: ex_events_def ex_join_def event_ok_def)
  have none: "\<forall>s \<in> set []. \<exists>a. s = Some a \<and> wf_setting a" by simp
  note ends = master_ends_iff [OF del _ ok(2) none, of _ "\<lambda>_. []"]
  from ends [OF ok(1)] ends [OF ok(3)] show ?thesis
    by (simp add: ex_events_def ex_join_def worker_md_def md_Get_def)
qed

section \<open>What the master shows of its workers\<close>

text \<open>
  What the master knows of the nodes after some events: the last report of each, and nothing of
  one that has left since.
\<close>

fun known_step :: "(string \<rightharpoonup> (string, bool) gomap option) \<Rightarrow> 'c master_event \<Rightarrow> (string \<rightharpoonup> (string, bool) gomap option)" where
  "known_step f (Report n st) = f(n \<mapsto> st)"
| "known_step f (Leave n) = f(n \<mapsto> None)"
| "known_step f ev = f"

definition known_after :: "'c master_event list \<Rightarrow> (string \<rightharpoonup> (string, bool) gomap option)" where
  "known_after evs = foldl known_step Map.empty evs"

lemma known_workers:
  "map_of (ww_ServicesStatus (cluster_run w (cluster_events evs))) = foldl known_step (map_of (ww_ServicesStatus w)) evs"
  by (induction evs arbitrary: w rule: cluster_events.induct)
    (auto simp: cluster_run_def Let_def update_conv' split: sum.splits)

text \<open>
  Redis has no more nodes than the master, and when something was published the master has some.
\<close>

definition shown_inv :: "('r \<Rightarrow> string \<Rightarrow> (string, string) gomap) \<Rightarrow> ('r, 'c) master \<Rightarrow> bool" where
  "shown_inv hash m \<longleftrightarrow> wf_map (ww_ServicesStatus (ma_workers m)) \<and>
     (ww_StatusMonitorCh (ma_workers m) \<noteq> [] \<longrightarrow> ww_ServicesStatus (ma_workers m) \<noteq> []) \<and>
     (ma_cleared m \<longrightarrow> dom (map_of (hash (ma_redis m) redisKey)) \<subseteq> dom (map_of (ww_ServicesStatus (ma_workers m))))"

lemma workers_keep:
  assumes "redis_hashes api hash enc" "master_step api m ev = (None, m')" "ev \<noteq> MonitorTurn"
  shows "ma_redis m' = ma_redis m" "ma_cleared m' = ma_cleared m" "ma_stored m' = ma_stored m"
    "ma_workers m' = ma_workers m \<or> (\<exists>e. ma_workers m' = cluster_step (ma_workers m) e)"
  using assms(2,3)
  by (cases ev; auto simp: dispatch_parts serve_call_def projectServer_Status_def HGet_def redis_hashes.hgetall [OF assms(1)]
      simp del: cluster_step.simps split: prod.splits sum.splits go_error.splits project_call.splits)+

lemma cluster_grows:
  "wf_map (ww_ServicesStatus w) \<Longrightarrow> wf_map (ww_ServicesStatus (cluster_step w e)) \<and>
   dom (map_of (ww_ServicesStatus w)) \<subseteq> dom (map_of (ww_ServicesStatus (cluster_step w e))) \<and>
   (ww_StatusMonitorCh (cluster_step w e) \<noteq> ww_StatusMonitorCh w \<or> ww_ServicesStatus w \<noteq> [] \<longrightarrow> ww_ServicesStatus (cluster_step w e) \<noteq> [])"
  by (cases e) (auto simp: Let_def distinct_update dom_update)

text \<open>A turn of the monitor that stores makes the hash what the master knows.\<close>

lemma store_turn:
  assumes "redis_hashes api hash enc" "shown_inv hash m" "ma_cleared m" "ma_stored m < length (ww_StatusMonitorCh (ma_workers m))"
    and "monitor_turn api m = (e, m')"
  shows "e = None \<and> m' = m\<lparr>ma_redis := ma_redis m', ma_stored := ma_stored m + 1\<rparr> \<and>
    map_of (hash (ma_redis m') redisKey) = map_option (node_field enc) \<circ> map_of (ww_ServicesStatus (ma_workers m))"
proof -
  let ?w = "ww_ServicesStatus (ma_workers m)"
  have m': "e = None" "m' = m\<lparr>ma_redis := monitor_step api (ma_redis m) ?w, ma_stored := ma_stored m + 1\<rparr>"
    using assms(3-5) by (simp_all add: monitor_turn_def)
  have w: "status_fields ?w \<noteq> []" "wf_map (status_fields ?w)" using assms(2,4) by (auto simp: shown_inv_def)
  from redis_hashes.hset [OF assms(1) this, of redisKey "ma_redis m"] obtain n r' where set:
    "r_HSet api redisKey (status_fields ?w) (ma_redis m) = (Inr n, r')"
    "map_of (hash r' redisKey) = map_of (hash (ma_redis m) redisKey) ++ map_of (map_vals enc (status_fields ?w))" by blast
  have "map_of (map_vals enc (status_fields ?w)) = map_option (node_field enc) \<circ> map_of ?w"
    by (simp add: fun_eq_iff map_of_status_fields del: map_of_map_vals)
  moreover have "dom (map_of (hash (ma_redis m) redisKey)) \<subseteq> dom (map_of ?w)"
    using assms(2,3) by (simp add: shown_inv_def)
  ultimately have "map_of (hash r' redisKey) = map_option (node_field enc) \<circ> map_of ?w"
    unfolding set(2) by (intro ext) (auto simp: map_add_def split: option.splits)
  moreover have "ma_redis m' = r'" by (simp add: m'(2) monitor_step_def HSet_def set(1))
  ultimately show ?thesis using m' by simp
qed

lemma shown_step:
  assumes "redis_hashes api hash enc" "shown_inv hash m" "master_step api m ev = (None, m')"
  shows "shown_inv hash m'"
proof (cases "ev = MonitorTurn")
  case False
  note same = workers_keep [OF assms(1,3) False]
  from same(4) show ?thesis
  proof
    assume "ma_workers m' = ma_workers m"
    with same assms(2) show ?thesis by (simp add: shown_inv_def)
  next
    assume "\<exists>e. ma_workers m' = cluster_step (ma_workers m) e"
    then obtain e where w: "ma_workers m' = cluster_step (ma_workers m) e" by blast
    note inv = assms(2) [unfolded shown_inv_def]
    note grow = cluster_grows [OF inv [THEN conjunct1], of e]
    have "dom (map_of (hash (ma_redis m) redisKey)) \<subseteq> dom (map_of (ww_ServicesStatus (cluster_step (ma_workers m) e)))"
      if "ma_cleared m"
      using inv [THEN conjunct2, THEN conjunct2, THEN mp, OF that] grow [THEN conjunct2, THEN conjunct1] by (rule subset_trans)
    moreover have "ww_ServicesStatus (cluster_step (ma_workers m) e) \<noteq> []" if "ww_StatusMonitorCh (cluster_step (ma_workers m) e) \<noteq> []"
      using inv grow that by (cases "ww_StatusMonitorCh (cluster_step (ma_workers m) e) = ww_StatusMonitorCh (ma_workers m)") auto
    ultimately show ?thesis
      unfolding shown_inv_def w same(1,2) by (intro conjI impI) (assumption | rule grow [THEN conjunct1])+
  qed
next
  case True
  with assms(3) have turn: "monitor_turn api m = (None, m')" by simp
  show ?thesis
  proof (cases "ma_cleared m \<and> ma_stored m < length (ww_StatusMonitorCh (ma_workers m))")
    case st: True
    from store_turn [OF assms(1,2) _ _ turn] st have
      "m' = m\<lparr>ma_redis := ma_redis m', ma_stored := ma_stored m + 1\<rparr>"
      and h: "map_of (hash (ma_redis m') redisKey) = map_option (node_field enc) \<circ> map_of (ww_ServicesStatus (ma_workers m))" by blast+
    from arg_cong [OF this(1), of ma_workers] have "ma_workers m' = ma_workers m" by simp
    with assms(2) h show ?thesis by (auto simp: shown_inv_def)
  next
    case False
    show ?thesis
    proof (cases "ma_cleared m")
      case True
      with False turn assms(2) show ?thesis by (simp add: monitor_turn_def)
    next
      case not: False
      from redis_hashes.del_key [OF assms(1), of redisKey "ma_redis m"] obtain n r' where
        "r_Del api [redisKey] (ma_redis m) = (Inr n, r')" "hash r' redisKey = []" by blast
      with not turn assms(2) show ?thesis by (auto simp: monitor_turn_def Delete_def shown_inv_def)
    qed
  qed
qed

lemma shown_run:
  "redis_hashes api hash enc \<Longrightarrow> master_run api evs m = (None, m') \<Longrightarrow> shown_inv hash m \<Longrightarrow> shown_inv hash m'"
  by (induction evs arbitrary: m) (auto split: prod.splits option.splits dest: shown_step)

text \<open>The count of what was stored only grows, and Redis is as it was while it does not.\<close>

lemma stored_step:
  assumes "redis_hashes api hash enc" "master_step api m ev = (None, m')" "ma_cleared m"
  shows "ma_cleared m' \<and> ma_stored m \<le> ma_stored m' \<and> (ma_stored m' = ma_stored m \<longrightarrow> ma_redis m' = ma_redis m)"
proof (cases "ev = MonitorTurn")
  case False
  from workers_keep [OF assms(1,2) False] assms(3) show ?thesis by simp
next
  case True
  with assms(2,3) show ?thesis by (auto simp: monitor_turn_def split: if_splits)
qed

lemma stored_run:
  "redis_hashes api hash enc \<Longrightarrow> master_run api evs m = (None, m') \<Longrightarrow> ma_cleared m \<Longrightarrow>
    ma_cleared m' \<and> ma_stored m \<le> ma_stored m' \<and> (ma_stored m' = ma_stored m \<longrightarrow> ma_redis m' = ma_redis m)"
proof (induction evs arbitrary: m)
  case (Cons ev evs)
  then obtain m1 where 1: "master_step api m ev = (None, m1)" "master_run api evs m1 = (None, m')"
    by (auto split: prod.splits option.splits)
  from stored_step [OF Cons.prems(1) 1(1) Cons.prems(3)] Cons.IH [OF Cons.prems(1) 1(2)] show ?case by auto
qed simp

lemma master_run_append:
  "master_run api (xs @ ys) m = (case master_run api xs m of (Some e, m') \<Rightarrow> (Some e, m') | (None, m') \<Rightarrow> master_run api ys m')"
  by (induction xs arbitrary: m) (auto split: prod.splits option.splits)

text \<open>
  C18. The status of a running master. In whatever order workers join, report and leave, projects
  are applied and the status is asked for, the status shows what the master knew when the
  monitor stored for the last time: for every node its last report before that turn, for a
  node that had left by then no services, and no other nodes. So a node that has left since is
  still shown as it was.
\<close>

theorem master_status_shown:
  assumes "redis_hashes api hash enc" "masterServer api None (xs @ MonitorTurn # ys) None r = (None, m)"
    and "master_run api xs (new_master r) = (None, m1)" "ma_cleared m1"
    and "ma_stored m1 < length (ww_StatusMonitorCh (ma_workers m1))" "ma_stored m = ma_stored m1 + 1"
  shows "\<exists>s. projectServer_Status api (ma_redis m) =
      ((\<lparr>sv_Response = Some \<lparr>pr_Message = '''', pr_Code = ResponseCode_Failed\<rparr>, sv_Status = Some s\<rparr>, None), ma_redis m) \<and>
    (\<forall>k. map_of s k = map_option (node_field enc) (known_after xs k))"
proof -
  have "master_run api (xs @ MonitorTurn # ys) (new_master r) = (None, m)"
    using assms(2) by (auto simp: masterServer_def split: prod.splits option.splits)
  then obtain m2 where m2: "monitor_turn api m1 = (None, m2)" "master_run api ys m2 = (None, m)"
    by (auto simp: master_run_append assms(3) split: prod.splits option.splits)
  have "shown_inv hash (new_master r)" by (simp add: shown_inv_def new_master_def NewWorkerWatcher_def)
  from store_turn [OF assms(1) shown_run [OF assms(1,3) this] assms(4,5) m2(1)] have
    st: "m2 = m1\<lparr>ma_redis := ma_redis m2, ma_stored := ma_stored m1 + 1\<rparr>"
    and h: "map_of (hash (ma_redis m2) redisKey) = map_option (node_field enc) \<circ> map_of (ww_ServicesStatus (ma_workers m1))" by blast+
  from arg_cong [OF st, of ma_stored] arg_cong [OF st, of ma_cleared] assms(4,6) stored_run [OF assms(1) m2(2)]
  have "ma_redis m = ma_redis m2" by simp
  moreover have "map_of (ww_ServicesStatus (ma_workers m1)) = known_after xs"
    using known_workers [of NewWorkerWatcher xs] workers_of_run [OF assms(3)]
    by (simp add: known_after_def new_master_def NewWorkerWatcher_def)
  ultimately show ?thesis
    by (intro exI [of _ "hash (ma_redis m) redisKey"]) (simp add: projectServer_Status_def HGet_def redis_hashes.hgetall [OF assms(1)] h)
qed

theorem master_status_shown_witness:
  "\<exists>s. sv_Status (fst (fst (projectServer_Status ref_hash_api (ma_redis (snd ex_run_master))))) = Some s \<and>
     map_of s ''dev/10.0.0.2'' = Some ''a''"
proof -
  let ?xs = "[ex_join, MonitorTurn, Called (ApplyCall (Some ex_setting)), Report ''dev/10.0.0.2'' (Some [(''a'', True)]),
    Dispatch, Called StatusCall]"
  let ?r = "master_run ref_hash_api ?xs (new_master (\<lambda>_. []))"
  have evs: "ex_events = ?xs @ MonitorTurn # []" by (simp add: ex_events_def)
  have run: "masterServer ref_hash_api None (?xs @ MonitorTurn # []) None (\<lambda>_. []) = (None, snd ex_run_master)"
    unfolding evs [symmetric] using ex_master_facts(1) by (metis prod.collapse)
  have "fst ?r = None" by code_simp
  then have r: "?r = (None, snd ?r)" by (metis prod.collapse)
  have st: "ma_cleared (snd ?r)" "ma_stored (snd ?r) < length (ww_StatusMonitorCh (ma_workers (snd ?r)))"
    "ma_stored (snd ex_run_master) = ma_stored (snd ?r) + 1" by code_simp+
  have "known_after ?xs ''dev/10.0.0.2'' = Some (Some [(''a'', True)])" by (simp add: known_after_def ex_join_def)
  with master_status_shown [OF ref_hashes.redis_hashes_axioms run r st] show ?thesis
    by (auto simp: node_field_def ref_enc_def)
qed

end
