(* ===== verification/Replicator.thy ===== *)
theory Replicator
  imports Config Kanban
begin

text \<open>
  The kanban replicator (cmd/kanban-replicator/app), which copies every kanban that is written
  to a stream into a Mongo collection, over pkg/my_mongo. The Mongo driver is a parameter.
\<close>

section \<open>The Mongo client\<close>

record 'd mongo_api =
  mg_InsertOne :: "(string, iface) gomap \<Rightarrow> 'd \<Rightarrow> go_error option \<times> 'd"
  mg_Connect :: "string \<Rightarrow> 'd \<Rightarrow> go_error option \<times> 'd"
  mg_Ping :: "'d \<Rightarrow> go_error option \<times> 'd"

definition mongo_error :: "string \<Rightarrow> go_error" where
  "mongo_error addr = Error (''cant connect to mongo (Address: '' @ addr @ '')'')"

definition connRetryCount :: nat where "connRetryCount = 10"

definition CreatePool :: "'d retrier \<Rightarrow> 'd mongo_api \<Rightarrow> string \<Rightarrow> 'd \<Rightarrow> go_error option \<times> 'd" where
  "CreatePool retry mg addr d =
     (case mg_Connect mg (''mongodb://'' @ addr) d of
        (Some e, d') \<Rightarrow> (Some (mongo_error addr), d')
      | (None, d') \<Rightarrow>
          retry connRetryCount (\<lambda>d. case mg_Ping mg d of (Some e, d'') \<Rightarrow> (Some (mongo_error addr), d'') | (None, d'') \<Rightarrow> (None, d'')) d')"

definition InsertOne :: "'d mongo_api \<Rightarrow> (string, iface) gomap \<Rightarrow> 'd \<Rightarrow> go_error option \<times> 'd" where
  "InsertOne mg document d =
     (case mg_InsertOne mg document d of
        (Some e, d') \<Rightarrow> (Some (Error (''cant write to mongo, '' @ err_text e)), d')
      | (None, d') \<Rightarrow> (None, d'))"

section \<open>Documents\<close>

text \<open>A null is the number of its enum, 0.\<close>

fun unpack_value :: "pb_value \<Rightarrow> iface" where
  "unpack_value (StructValue m) = IMap (map (\<lambda>(k, x). (k, unpack_value x)) m)"
| "unpack_value (ListValue vs) = ISlice (map unpack_value vs)"
| "unpack_value (StringValue s) = IString s"
| "unpack_value (NumberValue x) = IFloat64 x"
| "unpack_value (BoolValue b) = IBool b"
| "unpack_value NullValue = IInt 0"
| "unpack_value NoKind = INil"

text \<open>The fields of a nil Struct are a nil dereference.\<close>

definition unpackStruct :: "pb_struct option \<Rightarrow> iface result" where
  "unpackStruct data =
     (case data of
        None \<Rightarrow> Inl nil_deref
      | Some d \<Rightarrow> Inr (IMap (map_vals unpack_value d)))"

definition document :: "StatusKanban \<Rightarrow> string \<Rightarrow> iface \<Rightarrow> (string, iface) gomap" where
  "document k streamKey metadata =
     [(''streamKey'', IString streamKey), (''startAt'', IString (sk_StartAt k)), (''finishAt'', IString (sk_FinishAt k)),
      (''nextDeviceName'', IString (sk_NextDeviceName k)), (''connectionKey'', IString (sk_ConnectionKey k)),
      (''processNumber'', IInt (to_int (sk_ProcessNumber k))), (''priorSuccess'', IBool (sk_PriorSuccess k)),
      (''dataPath'', IString (sk_DataPath k)), (''fileList'', ISlice (map IString (sk_FileList k))), (''metadata'', metadata)]"

text \<open>An error of the insertion ends the process.\<close>

definition WriteKanbanMongo :: "'d mongo_api \<Rightarrow> StatusKanban option \<Rightarrow> string \<Rightarrow> 'd \<Rightarrow> go_error option \<times> 'd" where
  "WriteKanbanMongo mg kanban streamKey d =
     (case kanban of
        None \<Rightarrow> (Some nil_deref, d)
      | Some k \<Rightarrow>
          (case unpackStruct (sk_Metadata k) of
             Inl e \<Rightarrow> (Some e, d)
           | Inr metadata \<Rightarrow>
               (case InsertOne mg (document k streamKey metadata) d of
                  (Some e, d') \<Rightarrow> (Some (Error (''[FATAL] '' @ err_text e)), d')
                | (None, d') \<Rightarrow> (None, d'))))"

section \<open>Watching\<close>

fun getStreamKey :: "string \<Rightarrow> int \<Rightarrow> StatusType \<Rightarrow> string" where
  "getStreamKey msName number StatusType_Before = join '':'' [''kanban'', ''before'', msName, pad0 3 number]"
| "getStreamKey msName number StatusType_After = join '':'' [''kanban'', ''after'', msName, pad0 3 number]"
| "getStreamKey msName number _ = ''''"

text \<open>The loop over the channel of a stream's watcher; a failure stops the whole process.\<close>

fun write_loop :: "'d mongo_api \<Rightarrow> string \<Rightarrow> AdaptorKanban list \<Rightarrow> 'd \<Rightarrow> go_error option \<times> 'd" where
  "write_loop mg streamKey [] d = (None, d)"
| "write_loop mg streamKey (k # ks) d =
     (case WriteKanbanMongo mg (ak_Kanban k) streamKey d of
        (Some e, d') \<Rightarrow> (Some e, d')
      | (None, d') \<Rightarrow> write_loop mg streamKey ks d')"

definition replicator_WatchMicroservice :: "'r redis_api \<Rightarrow> json_codec \<Rightarrow> 'd mongo_api \<Rightarrow> string \<Rightarrow> int \<Rightarrow> StatusType \<Rightarrow> bool list \<Rightarrow>
    'r \<Rightarrow> 'd \<Rightarrow> go_error option \<times> 'd" where
  "replicator_WatchMicroservice api jc mg msName msNumber statusType turns r d =
     (case WatchKanban api jc (GetStreamKeyByStatusType msName msNumber statusType) False turns initPrevID r of
        (ks, closed, r') \<Rightarrow> write_loop mg (getStreamKey msName msNumber statusType) ks d)"

text \<open>
  The watchers that a project starts, and the loop that starts them: a new project cancels
  those of the old one.
\<close>

type_synonym stream_watch = "string \<times> int \<times> StatusType"

fun start_watchers :: "(string \<times> Microservice option) list \<Rightarrow> stream_watch list result" where
  "start_watchers [] = Inr []"
| "start_watchers ((msName, None) # mss) = Inl nil_deref"
| "start_watchers ((msName, Some msData) # mss) =
     (let started = concat (map (\<lambda>i. if \<not> ms_WithoutKanban msData
            then [(msName, i, StatusType_After), (msName, i, StatusType_Before)] else []) [1..to_int (ms_Scale msData)])
      in (case start_watchers mss of Inl e \<Rightarrow> Inl e | Inr ws \<Rightarrow> Inr (started @ ws)))"

datatype client_event = ClientDone | NewProject "AionSetting option"

fun StartWatchKanban :: "client_event list \<Rightarrow> stream_watch list \<Rightarrow> stream_watch list result" where
  "StartWatchKanban [] running = Inr running"
| "StartWatchKanban (ClientDone # es) running = Inr []"
| "StartWatchKanban (NewProject ya # es) running =
     (case ya of
        None \<Rightarrow> Inl nil_deref
      | Some a \<Rightarrow>
          (case start_watchers (GetMicroserviceList a) of
             Inl e \<Rightarrow> Inl e
           | Inr started \<Rightarrow> StartWatchKanban es started))"

lemma getStreamKey_eq: "getStreamKey = GetStreamKeyByStatusType"
proof (intro ext)
  fix n :: string and i :: int and t :: StatusType
  show "getStreamKey n i t = GetStreamKeyByStatusType n i t"
    by (cases t) (simp_all add: GetBeforeStreamKey_def GetAfterStreamKey_def)
qed

text \<open>The replicator names streams as the kanban adaptor does.\<close>

interpretation replicator_keys: stream_naming getStreamKey "{StatusType_Before, StatusType_After}"
  unfolding getStreamKey_eq by (rule kanban_keys.stream_naming_axioms)

section \<open>What is recorded\<close>

definition streams_of :: "string \<Rightarrow> Microservice \<Rightarrow> stream_watch list" where
  "streams_of name m = concat (map (\<lambda>i. if \<not> ms_WithoutKanban m
     then [(name, i, StatusType_After), (name, i, StatusType_Before)] else []) [1..to_int (ms_Scale m)])"

lemma set_streams_of: "w \<in> set (streams_of name m) \<longleftrightarrow> \<not> ms_WithoutKanban m \<and>
    (\<exists>i t. w = (name, i, t) \<and> 1 \<le> i \<and> i \<le> to_int (ms_Scale m) \<and> t \<in> {StatusType_Before, StatusType_After})"
  by (auto simp: streams_of_def split: if_splits)

lemma distinct_pairs: "distinct is \<Longrightarrow> distinct (concat (map (\<lambda>i. [(name, i, StatusType_After), (name, i, StatusType_Before)]) is))"
  by (induction "is") auto

lemma concat_Nils: "concat (map (\<lambda>x. []) xs) = []"
  by (induction xs) simp_all

lemma distinct_streams_of: "distinct (streams_of name m)"
  using distinct_pairs [of "[1..to_int (ms_Scale m)]" name]
  by (cases "ms_WithoutKanban m") (simp_all add: streams_of_def concat_Nils)

lemma start_watchers_ok:
  "None \<notin> snd ` set mss \<Longrightarrow> start_watchers mss = Inr (concat (map (\<lambda>(name, m). streams_of name (the m)) mss))"
  by (induction mss rule: start_watchers.induct) (auto simp: streams_of_def Let_def)

lemma distinct_started:
  "wf_map mss \<Longrightarrow> distinct (concat (map (\<lambda>(name, m). streams_of name (the m)) mss))"
proof (induction mss)
  case (Cons x mss)
  obtain name m where x: "x = (name, m)" by (cases x)
  have "set (streams_of name (the m)) \<inter> set (concat (map (\<lambda>(name, m). streams_of name (the m)) mss)) = {}"
  proof (intro equals0I)
    fix w
    assume "w \<in> set (streams_of name (the m)) \<inter> set (concat (map (\<lambda>(name, m). streams_of name (the m)) mss))"
    then obtain m' where "(name, m') \<in> set mss" by (auto simp: set_streams_of)
    with Cons.prems show False by (force simp: x)
  qed
  with Cons show ?case by (simp add: x distinct_streams_of)
qed simp

definition recorded :: "'d mongo_api \<Rightarrow> string \<Rightarrow> 'd \<Rightarrow> StatusKanban \<Rightarrow> 'd" where
  "recorded mg streamKey d k =
     snd (mg_InsertOne mg (document k streamKey (IMap (map_vals unpack_value (the (sk_Metadata k))))) d)"

definition has_metadata :: "StatusKanban \<Rightarrow> bool" where
  "has_metadata k \<longleftrightarrow> sk_Metadata k \<noteq> None"

lemma WriteKanbanMongo_ok:
  assumes "\<And>doc d. fst (mg_InsertOne mg doc d) = None"
  shows "WriteKanbanMongo mg (Some k) streamKey d =
    (if has_metadata k then (None, recorded mg streamKey d k) else (Some nil_deref, d))"
  using assms by (auto simp: WriteKanbanMongo_def unpackStruct_def InsertOne_def recorded_def has_metadata_def
      split: option.splits prod.splits) (metis fst_conv option.distinct(1))+

lemma write_loop_ok:
  assumes "\<And>doc d. fst (mg_InsertOne mg doc d) = None"
  shows "map ak_Kanban aks = map Some ks \<Longrightarrow> write_loop mg streamKey aks d =
    (if list_all has_metadata ks then None else Some nil_deref, foldl (recorded mg streamKey) d (takeWhile has_metadata ks))"
proof (induction ks arbitrary: aks d)
  case (Cons k ks)
  then obtain a as where "aks = a # as" "ak_Kanban a = Some k" "map ak_Kanban as = map Some ks" by (cases aks) auto
  with Cons.IH [of as] show ?case by (simp add: WriteKanbanMongo_ok [OF assms])
qed simp

text \<open>What the watchers of a project are, and what one of them does.\<close>

lemma set_started:
  assumes "wf_map mss" "None \<notin> snd ` set mss"
  shows "set (concat (map (\<lambda>(name, m). streams_of name (the m)) mss)) =
    {(name, i, t). \<exists>m. map_of mss name = Some (Some m) \<and> \<not> ms_WithoutKanban m \<and>
      1 \<le> i \<and> i \<le> to_int (ms_Scale m) \<and> t \<in> {StatusType_Before, StatusType_After}}" (is "set ?ws = ?S")
proof (intro set_eqI)
  fix w :: stream_watch
  obtain name i t where w: "w = (name, i, t)" by (cases w)
  have "w \<in> set ?ws \<longleftrightarrow> (\<exists>m. (name, m) \<in> set mss \<and> w \<in> set (streams_of name (the m)))"
    by (auto simp: w set_streams_of)
  also have "\<dots> \<longleftrightarrow> (\<exists>m. (name, Some m) \<in> set mss \<and> w \<in> set (streams_of name m))"
    using assms(2) by (metis image_eqI not_None_eq option.sel snd_conv)
  also have "\<dots> \<longleftrightarrow> w \<in> ?S"
    using assms(1) by (simp add: w set_streams_of conj_commute conj_left_commute)
  finally show "w \<in> set ?ws \<longleftrightarrow> w \<in> ?S" .
qed

lemma stream_recorded:
  assumes "redis_streams api ent lt" "\<And>doc d. fst (mg_InsertOne mg doc d) = None"
    and ks: "list_all2 (decodes jc) (ent r (getStreamKey name i t)) ks" "n \<le> length ks"
  shows "replicator_WatchMicroservice api jc mg name i t (replicate n False) r d =
    (if list_all has_metadata (take n ks) then None else Some nil_deref,
     foldl (recorded mg (getStreamKey name i t)) d (takeWhile has_metadata (take n ks)))"
proof -
  have len: "length (ent r (getStreamKey name i t)) = length ks" using ks(1) by (rule list_all2_lengthD)
  then have "n \<le> length (ent r (getStreamKey name i t))" using ks(2) by simp
  from redis_streams.watch_prefix [OF assms(1) ks(1) this, of False] obtain r' where w:
    "WatchKanban api jc (getStreamKey name i t) False (replicate n False) initPrevID r =
      (map (\<lambda>(e, k). \<lparr>ak_ID = fst e, ak_Kanban = Some k\<rparr>) (zip (take n (ent r (getStreamKey name i t))) ks), False, r')" by blast
  show ?thesis
    unfolding replicator_WatchMicroservice_def getStreamKey_eq [symmetric] w prod.case
    by (rule write_loop_ok [OF assms(2) zip_kanbans [OF len]])
qed

text \<open>
  C21. A loaded project makes the replicator watch, once each, the before and the after stream of
  every instance of every microservice with kanbans, under different names. Each of these
  watchers inserts one document per kanban of its stream, in order, with the name of the stream
  and the unpacked metadata, up to the first kanban without metadata, at which the process
  panics.
\<close>

theorem replicator_records:
  assumes a: "wf_setting a" "wf_map (as_Microservices a)"
    and ok: "redis_streams api ent lt" and ins: "\<And>doc d. fst (mg_InsertOne mg doc d) = None"
  shows "\<exists>ws. StartWatchKanban [NewProject (Some a)] old = Inr ws \<and> distinct ws \<and>
    distinct (map (\<lambda>(name, i, t). getStreamKey name i t) ws) \<and>
    set ws = {(name, i, t). \<exists>m. map_of (as_Microservices a) name = Some (Some m) \<and> \<not> ms_WithoutKanban m \<and>
      1 \<le> i \<and> i \<le> to_int (ms_Scale m) \<and> t \<in> {StatusType_Before, StatusType_After}} \<and>
    (\<forall>(name, i, t) \<in> set ws. \<forall>r ks n. list_all2 (decodes jc) (ent r (getStreamKey name i t)) ks \<and> n \<le> length ks \<longrightarrow>
      replicator_WatchMicroservice api jc mg name i t (replicate n False) r d =
        (if list_all has_metadata (take n ks) then None else Some nil_deref,
         foldl (recorded mg (getStreamKey name i t)) d (takeWhile has_metadata (take n ks))))"
proof -
  let ?ws = "concat (map (\<lambda>(name, m). streams_of name (the m)) (as_Microservices a))"
  have none: "None \<notin> snd ` set (as_Microservices a)"
    using a(1) by (fastforce simp: wf_setting_def filled_ms_def split: option.splits)
  have start: "StartWatchKanban [NewProject (Some a)] old = Inr ?ws"
    by (simp add: start_watchers_ok [OF none] GetMicroserviceList_def)
  note set = set_started [OF a(2) none]
  have keys: "distinct (map (\<lambda>(name, i, t). getStreamKey name i t) ?ws)"
  proof (rule replicator_keys.distinct_keys [OF distinct_started [OF a(2)]])
    fix name i t
    assume "(name, i, t) \<in> set ?ws"
    then show "t \<in> {StatusType_Before, StatusType_After}" unfolding set by blast
  qed
  show ?thesis
    using start distinct_started [OF a(2)] keys set stream_recorded [OF ok ins] by (intro exI [of _ ?ws] conjI) (auto simp: split_def)
qed

definition ex_mongo :: "(string, iface) gomap list mongo_api" where
  "ex_mongo = \<lparr>mg_InsertOne = (\<lambda>doc d. (None, d @ [doc])), mg_Connect = (\<lambda>addr d. (None, d)), mg_Ping = (\<lambda>d. (None, d))\<rparr>"

text \<open>One kanban with metadata, and then one without.\<close>

definition ex_mixed_codec :: json_codec where
  "ex_mixed_codec = \<lparr>jc_marshal = (\<lambda>k. Inl (Error ''not used'')),
     jc_unmarshal = (\<lambda>s. Inr (if s = ''x'' then ex_kanban\<lparr>sk_Metadata := Some []\<rparr> else ex_kanban))\<rparr>"

definition ex_replicated :: AionSetting where
  "ex_replicated = snd (setInitializeValue ex_setting)"

theorem replicator_records_witness:
  "\<exists>ws. StartWatchKanban [NewProject (Some ex_replicated)] [] = Inr ws \<and> (''a'', 1, StatusType_After) \<in> set ws \<and>
    replicator_WatchMicroservice ref_api ex_mixed_codec ex_mongo ''a'' 1 StatusType_After [False, False] ex_redis [] =
      (Some nil_deref, [document (ex_kanban\<lparr>sk_Metadata := Some []\<rparr>) (getStreamKey ''a'' 1 StatusType_After) (IMap [])])"
proof -
  have a: "wf_setting ex_replicated" "wf_map (as_Microservices ex_replicated)"
    using set_init_wf [OF ex_setting_no_nil] set_init_ok [OF ex_setting_no_nil]
    by (simp_all add: ex_replicated_def) (simp add: ex_setting_def)
  have ins: "fst (mg_InsertOne ex_mongo doc d) = None" for doc d by (simp add: ex_mongo_def)
  let ?ks = "[ex_kanban\<lparr>sk_Metadata := Some []\<rparr>, ex_kanban]"
  from replicator_records [where ent = ref_ent and lt = shorter and jc = ex_mixed_codec and d = "[]" and old = "[]",
      OF a ref_redis_streams ins]
  obtain ws where ws: "StartWatchKanban [NewProject (Some ex_replicated)] [] = Inr ws"
    "set ws = {(name, i, t). \<exists>m. map_of (as_Microservices ex_replicated) name = Some (Some m) \<and> \<not> ms_WithoutKanban m \<and>
      1 \<le> i \<and> i \<le> to_int (ms_Scale m) \<and> t \<in> {StatusType_Before, StatusType_After}}"
    and run: "\<forall>(name, i, t) \<in> set ws. \<forall>r ks n. list_all2 (decodes ex_mixed_codec) (ref_ent r (getStreamKey name i t)) ks \<and> n \<le> length ks \<longrightarrow>
      replicator_WatchMicroservice ref_api ex_mixed_codec ex_mongo name i t (replicate n False) r [] =
        (if list_all has_metadata (take n ks) then None else Some nil_deref,
         foldl (recorded ex_mongo (getStreamKey name i t)) [] (takeWhile has_metadata (take n ks)))" by blast
  have "map_option (map_option (\<lambda>m. (ms_WithoutKanban m, to_int (ms_Scale m)))) (map_of (as_Microservices ex_replicated) ''a'') =
      Some (Some (False, 1))" by code_simp
  then have started: "(''a'', 1, StatusType_After) \<in> set ws" unfolding ws(2) by auto
  have ent: "ref_ent ex_redis key = [(''10'', [(''kanban'', IString ''x'')]), (''110'', [(''kanban'', IString ''y'')])]" for key
    by (simp add: ref_ent_def ex_redis_def shorter_def)
  have dec: "list_all2 (decodes ex_mixed_codec) (ref_ent ex_redis key) ?ks" for key
    by (simp add: ent decodes_def unmarshalKanban_def ex_mixed_codec_def)
  have "replicator_WatchMicroservice ref_api ex_mixed_codec ex_mongo ''a'' 1 StatusType_After (replicate 2 False) ex_redis [] =
      (if list_all has_metadata (take 2 ?ks) then None else Some nil_deref,
       foldl (recorded ex_mongo (getStreamKey ''a'' 1 StatusType_After)) [] (takeWhile has_metadata (take 2 ?ks)))"
    by (rule bspec [OF run started, unfolded prod.case, rule_format], rule conjI, rule dec) simp
  then show ?thesis using ws(1) started
    by (intro exI [of _ ws]) (simp add: numeral_2_eq_2 has_metadata_def ex_kanban_def recorded_def ex_mongo_def
        del: getStreamKey.simps)
qed

end
