(* ===== verification/Clock.thy ===== *)
theory Clock
  imports GoStrings "HOL-Library.List_Lexorder" "HOL-Library.Char_ord"
begin

text \<open>
  The two date formats of pkg/common (date.go). The clock is a parameter: the nanoseconds
  since 1970 that \<open>time.Now\<close> returns, which must not be negative. The calendar of package time
  and the layouts that the code passes to \<open>Format\<close> are written out; times are in the fixed zone
  of the code, nine hours ahead.
\<close>

section \<open>The calendar\<close>

definition leap :: "nat \<Rightarrow> bool" where
  "leap y \<longleftrightarrow> y mod 4 = 0 \<and> (y mod 100 \<noteq> 0 \<or> y mod 400 = 0)"

definition days_in_year :: "nat \<Rightarrow> nat" where
  "days_in_year y = (if leap y then 366 else 365)"

definition month_days :: "nat \<Rightarrow> nat list" where
  "month_days y = [31, if leap y then 29 else 28, 31, 30, 31, 30, 31, 31, 30, 31, 30, 31]"

text \<open>The year and the day in it, from a first year and the days since its start.\<close>

function year_loop :: "nat \<Rightarrow> nat \<Rightarrow> nat \<times> nat" where
  "year_loop y d = (if d < days_in_year y then (y, d) else year_loop (Suc y) (d - days_in_year y))"
  by pat_completeness auto
termination
  by (relation "measure snd") (auto simp: days_in_year_def)

declare year_loop.simps [simp del]

fun month_loop :: "nat list \<Rightarrow> nat \<Rightarrow> nat \<Rightarrow> nat \<times> nat" where
  "month_loop [] m d = (m, Suc d)"
| "month_loop (l # ls) m d = (if d < l \<or> ls = [] then (m, Suc d) else month_loop ls (Suc m) (d - l))"

definition civil :: "nat \<Rightarrow> nat \<times> nat \<times> nat" where
  "civil days = (case year_loop 1970 days of (y, d) \<Rightarrow> (y, month_loop (month_days y) 1 d))"

section \<open>The formats\<close>

definition local_ms :: "int \<Rightarrow> nat" where
  "local_ms ns = nat (ns div 1000000) + 9 * 60 * 60 * 1000"

definition year_of :: "int \<Rightarrow> nat" where
  "year_of ns = fst (civil (local_ms ns div 86400000))"

text \<open>The layouts \<open>20060102150405\<close>, with the milliseconds behind it, and \<open>2006-01-02T15:04:05.000+09:00\<close>.\<close>

definition GetFileNameDatetime :: "int \<Rightarrow> string" where
  "GetFileNameDatetime ns =
     (let t = local_ms ns; nano = nat (ns div 1000000) mod 1000 in
      (case civil (t div 86400000) of (y, m, d) \<Rightarrow>
         pad0 4 (int y) @ pad0 2 (int m) @ pad0 2 (int d) @ pad0 2 (int (t div 3600000 mod 24)) @
         pad0 2 (int (t div 60000 mod 60)) @ pad0 2 (int (t div 1000 mod 60)) @ pad0 3 (int nano)))"

definition GetIsoDatetime :: "int \<Rightarrow> string" where
  "GetIsoDatetime ns =
     (let t = local_ms ns in
      (case civil (t div 86400000) of (y, m, d) \<Rightarrow>
         pad0 4 (int y) @ ''-'' @ pad0 2 (int m) @ ''-'' @ pad0 2 (int d) @ ''T'' @ pad0 2 (int (t div 3600000 mod 24)) @ '':'' @
         pad0 2 (int (t div 60000 mod 60)) @ '':'' @ pad0 2 (int (t div 1000 mod 60)) @ ''.'' @ pad0 3 (int (t mod 1000)) @ ''+09:00''))"

section \<open>The calendar is that of the days\<close>

text \<open>The number of a day, as a reference.\<close>

definition day_number :: "nat \<times> nat \<times> nat \<Rightarrow> nat" where
  "day_number p = (case p of (y, m, d) \<Rightarrow>
     (\<Sum>k = 1970..<y. days_in_year k) + sum_list (take (m - 1) (month_days y)) + (d - 1))"

lemma year_loop_bounds:
  "year_loop y d = (y', r) \<Longrightarrow> y \<le> y' \<and> r < days_in_year y' \<and> d = (\<Sum>k = y..<y'. days_in_year k) + r"
proof (induction y d rule: year_loop.induct)
  case (1 y d)
  show ?case
  proof (cases "d < days_in_year y")
    case True
    with 1(2) show ?thesis by (auto simp: year_loop.simps [of y])
  next
    case False
    with 1(2) have "year_loop (Suc y) (d - days_in_year y) = (y', r)" by (simp add: year_loop.simps [of y])
    from 1(1) [OF False this] False show ?thesis by (auto simp: sum.atLeast_Suc_lessThan)
  qed
qed

lemma month_loop_bounds:
  "month_loop ls m d = (m', r) \<Longrightarrow> ls \<noteq> [] \<Longrightarrow> d < sum_list ls \<Longrightarrow>
    m \<le> m' \<and> m' < m + length ls \<and> 0 < r \<and> r \<le> ls ! (m' - m) \<and> d = sum_list (take (m' - m) ls) + (r - 1)"
proof (induction ls m d rule: month_loop.induct)
  case (2 l ls m d)
  show ?case
  proof (cases "d < l \<or> ls = []")
    case True
    with 2(2,4) show ?thesis by auto
  next
    case False
    with 2(2,4) have "month_loop ls (Suc m) (d - l) = (m', r)" "ls \<noteq> []" "d - l < sum_list ls" by auto
    from 2(1) [OF False this] have IH: "Suc m \<le> m'" "m' < Suc m + length ls" "0 < r" "r \<le> ls ! (m' - Suc m)"
      "d - l = sum_list (take (m' - Suc m) ls) + (r - 1)" by auto
    then have "m' - m = Suc (m' - Suc m)" by simp
    moreover have "d = l + (sum_list (take (m' - Suc m) ls) + (r - 1))" using IH(5) False by linarith
    ultimately show ?thesis using IH False by simp
  qed
qed simp

lemma year_months: "sum_list (month_days y) = days_in_year y" "length (month_days y) = 12"
  "l \<in> set (month_days y) \<Longrightarrow> l \<le> 31" "month_days y \<noteq> []"
  by (auto simp: month_days_def days_in_year_def split: if_splits)

lemma civil_bounds:
  assumes "civil n = (y, m, d)"
  shows "1970 \<le> y" "1 \<le> m" "m \<le> 12" "1 \<le> d" "d \<le> 31" "day_number (y, m, d) = n"
proof -
  obtain r where r: "year_loop 1970 n = (y, r)" "month_loop (month_days y) 1 r = (m, d)"
    using assms by (auto simp: civil_def split: prod.splits)
  note y = year_loop_bounds [OF r(1)]
  have "r < sum_list (month_days y)" using y by (simp add: year_months)
  note m = month_loop_bounds [OF r(2) year_months(4) this]
  show "1970 \<le> y" "1 \<le> m" "m \<le> 12" "1 \<le> d" using y m by (auto simp: year_months(2))
  have "m - 1 < length (month_days y)" using m by linarith
  then have "month_days y ! (m - 1) \<le> 31" by (rule year_months(3) [OF nth_mem])
  with m show "d \<le> 31" by linarith
  show "day_number (y, m, d) = n" using y m by (simp add: day_number_def)
qed

section \<open>Order\<close>

lemma block_less:
  fixes a b c d :: string
  assumes "a < b \<or> (a = b \<and> c < d)" "length a = length b"
  shows "a @ c < b @ d"
  using assms by (auto simp: list_less_def intro: lexord_sufI lexord_append_leftI)

lemma digit_less: "a < b \<Longrightarrow> b < 10 \<Longrightarrow> digit a < digit b"
proof -
  assume "a < b" "b < 10"
  then have "a < 10" by simp
  from lt10_cases [OF this] lt10_cases [OF \<open>b < 10\<close>] \<open>a < b\<close> show ?thesis
    by (auto simp: digit_def less_char_def)
qed

lemma radix_less: "(a :: nat) < b \<Longrightarrow> a div k < b div k \<or> (a div k = b div k \<and> a mod k < b mod k)"
  by (metis div_le_mono div_mult_mod_eq le_neq_implies_less less_imp_le_nat nat_add_left_cancel_less)

text \<open>A number in a field of fixed width.\<close>

fun digits_of :: "nat \<Rightarrow> nat \<Rightarrow> string" where
  "digits_of 0 n = []"
| "digits_of (Suc k) n = digits_of k (n div 10) @ [digit (n mod 10)]"

lemma length_digits_of [simp]: "length (digits_of k n) = k"
  by (induction k arbitrary: n) simp_all

lemma digits_of_zero: "digits_of k 0 = replicate k (CHR ''0'')"
  by (induction k) (simp_all add: digit_def replicate_append_same)

lemma nat_str_width: "0 < k \<Longrightarrow> n < 10 ^ k \<Longrightarrow>
  length (nat_str n) \<le> k \<and> replicate (k - length (nat_str n)) (CHR ''0'') @ nat_str n = digits_of k n"
proof (induction k arbitrary: n)
  case (Suc k)
  show ?case
  proof (cases "n < 10")
    case True
    then show ?thesis by (simp add: nat_str_small digits_of_zero)
  next
    case False
    with Suc.prems have "0 < k" "n div 10 < 10 ^ k" by (cases k; simp)+
    from Suc.IH [OF this] False show ?thesis by (simp add: nat_str_big)
  qed
qed simp

lemma pad0_digits: "0 < k \<Longrightarrow> n < 10 ^ k \<Longrightarrow> pad0 k (int n) = digits_of k n"
  using nat_str_width [of k n] by (simp add: pad0_def)

lemma digits_less: "a < b \<Longrightarrow> b < 10 ^ k \<Longrightarrow> digits_of k a < digits_of k b"
proof (induction k arbitrary: a b)
  case (Suc k)
  from radix_less [OF Suc.prems(1), of 10] have "a div 10 < b div 10 \<or> (a div 10 = b div 10 \<and> a mod 10 < b mod 10)" .
  moreover have "b div 10 < 10 ^ k" using Suc.prems(2) by simp
  ultimately have "digits_of k (a div 10) < digits_of k (b div 10) \<or>
      (digits_of k (a div 10) = digits_of k (b div 10) \<and> [digit (a mod 10)] < [digit (b mod 10)])"
    using Suc.IH [of "a div 10" "b div 10"] digit_less [of "a mod 10" "b mod 10"] by auto
  then show ?case unfolding digits_of.simps by (rule block_less) simp
qed simp

lemma field_less:
  assumes "a < b \<or> (a = b \<and> r < s)" "a < 10 ^ k" "b < 10 ^ k" "0 < k"
  shows "pad0 k (int a) @ r < pad0 k (int b) @ s"
  using assms digits_less [of a b k] by (intro block_less) (auto simp: pad0_digits)

lemma field_sep_less:
  assumes "a < b \<or> (a = b \<and> r < s)" "a < 10 ^ k" "b < 10 ^ k" "0 < k"
  shows "pad0 k (int a) @ x @ r < pad0 k (int b) @ x @ s"
proof (rule field_less [OF _ assms(2-4)])
  have "r < s \<Longrightarrow> x @ r < x @ s" by (simp add: block_less)
  with assms(1) show "a < b \<or> (a = b \<and> x @ r < x @ s)" by blast
qed

text \<open>The parts of a time are ordered as the time is.\<close>

lemma year_loop_less:
  "year_loop y a = (y1, r1) \<Longrightarrow> year_loop y b = (y2, r2) \<Longrightarrow> a < b \<Longrightarrow> y1 < y2 \<or> (y1 = y2 \<and> r1 < r2)"
proof (induction y a arbitrary: b rule: year_loop.induct)
  case (1 y a)
  show ?case
  proof (cases "b < days_in_year y")
    case True
    then have "year_loop y a = (y, a)" "year_loop y b = (y, b)" using 1(4) by (simp_all add: year_loop.simps [of y])
    with 1(2-4) show ?thesis by simp
  next
    case False
    with 1(3) have b: "year_loop (Suc y) (b - days_in_year y) = (y2, r2)" by (simp add: year_loop.simps [of y])
    show ?thesis
    proof (cases "a < days_in_year y")
      case True
      with 1(2) have "y1 = y" by (simp add: year_loop.simps [of y])
      with year_loop_bounds [OF b] show ?thesis by simp
    next
      case a: False
      with 1(2) have "year_loop (Suc y) (a - days_in_year y) = (y1, r1)" by (simp add: year_loop.simps [of y])
      from 1(1) [OF a this b] 1(4) a show ?thesis by simp
    qed
  qed
qed

lemma month_loop_ge: "m \<le> fst (month_loop ls m d)"
  by (induction ls m d rule: month_loop.induct) auto

lemma month_loop_less:
  "month_loop ls m a = (m1, d1) \<Longrightarrow> month_loop ls m b = (m2, d2) \<Longrightarrow> a < b \<Longrightarrow> m1 < m2 \<or> (m1 = m2 \<and> d1 < d2)"
proof (induction ls m a arbitrary: b rule: month_loop.induct)
  case (2 l ls m a)
  show ?case
  proof (cases "a < l \<or> ls = []")
    case True
    then show ?thesis using 2(2-4) month_loop_ge [of "Suc m" ls "b - l"] by (auto split: if_splits)
  next
    case False
    with 2(2-4) have "month_loop ls (Suc m) (a - l) = (m1, d1)" "month_loop ls (Suc m) (b - l) = (m2, d2)" "a - l < b - l"
      by auto
    from 2(1) [OF False this] show ?thesis .
  qed
qed simp

lemma civil_less:
  assumes "civil a = (y1, m1, d1)" "civil b = (y2, m2, d2)" "a < b"
  shows "y1 < y2 \<or> y1 = y2 \<and> (m1 < m2 \<or> m1 = m2 \<and> d1 < d2)"
proof -
  obtain r1 r2 where r: "year_loop 1970 a = (y1, r1)" "month_loop (month_days y1) 1 r1 = (m1, d1)"
    "year_loop 1970 b = (y2, r2)" "month_loop (month_days y2) 1 r2 = (m2, d2)"
    using assms by (auto simp: civil_def split: prod.splits)
  from year_loop_less [OF r(1,3) assms(3)] month_loop_less [OF r(2), of r2 m2 d2] r(4) show ?thesis by auto
qed

lemma clock_parts:
  fixes a b :: nat
  assumes "a < b"
  shows "a div 86400000 < b div 86400000 \<or> a div 86400000 = b div 86400000 \<and>
    (a div 3600000 mod 24 < b div 3600000 mod 24 \<or> a div 3600000 mod 24 = b div 3600000 mod 24 \<and>
    (a div 60000 mod 60 < b div 60000 mod 60 \<or> a div 60000 mod 60 = b div 60000 mod 60 \<and>
    (a div 1000 mod 60 < b div 1000 mod 60 \<or> a div 1000 mod 60 = b div 1000 mod 60 \<and> a mod 1000 < b mod 1000)))"
proof -
  have split: "n div 60000 = n div 1000 div 60" "n div 3600000 = n div 1000 div 60 div 60"
    "n div 86400000 = n div 1000 div 60 div 60 div 24" for n :: nat by (simp_all add: div_mult2_eq [symmetric])
  show ?thesis
    unfolding split using radix_less [OF assms, of 1000] radix_less [of "a div 1000" "b div 1000" 60]
      radix_less [of "a div 1000 div 60" "b div 1000 div 60" 60]
      radix_less [of "a div 1000 div 60 div 60" "b div 1000 div 60 div 60" 24] by metis
qed

text \<open>Both formats are seven fields with separators.\<close>

lemma stamp_less:
  assumes "y1 < y2 \<or> y1 = y2 \<and> (m1 < m2 \<or> m1 = m2 \<and> (d1 < d2 \<or> d1 = d2 \<and> (h1 < h2 \<or> h1 = h2 \<and>
      (i1 < i2 \<or> i1 = i2 \<and> (s1 < s2 \<or> s1 = s2 \<and> n1 < n2)))))"
    and "y1 < 10 ^ 4" "y2 < 10 ^ 4" "m1 < 10 ^ 2" "m2 < 10 ^ 2" "d1 < 10 ^ 2" "d2 < 10 ^ 2" "h1 < 10 ^ 2" "h2 < 10 ^ 2"
    and "i1 < 10 ^ 2" "i2 < 10 ^ 2" "s1 < 10 ^ 2" "s2 < 10 ^ 2" "n1 < 10 ^ 3" "n2 < 10 ^ 3"
  shows "pad0 4 (int y1) @ x1 @ pad0 2 (int m1) @ x2 @ pad0 2 (int d1) @ x3 @ pad0 2 (int h1) @ x4 @ pad0 2 (int i1) @ x5 @
      pad0 2 (int s1) @ x6 @ pad0 3 (int n1) @ z <
    pad0 4 (int y2) @ x1 @ pad0 2 (int m2) @ x2 @ pad0 2 (int d2) @ x3 @ pad0 2 (int h2) @ x4 @ pad0 2 (int i2) @ x5 @
      pad0 2 (int s2) @ x6 @ pad0 3 (int n2) @ z"
proof -
  let ?n = "pad0 3 (int n1) @ z" and ?n' = "pad0 3 (int n2) @ z"
  let ?s = "pad0 2 (int s1) @ x6 @ ?n" and ?s' = "pad0 2 (int s2) @ x6 @ ?n'"
  let ?i = "pad0 2 (int i1) @ x5 @ ?s" and ?i' = "pad0 2 (int i2) @ x5 @ ?s'"
  let ?h = "pad0 2 (int h1) @ x4 @ ?i" and ?h' = "pad0 2 (int h2) @ x4 @ ?i'"
  let ?d = "pad0 2 (int d1) @ x3 @ ?h" and ?d' = "pad0 2 (int d2) @ x3 @ ?h'"
  have n: "?n < ?n'" if "n1 < n2" by (rule field_less) (use that assms(14,15) in auto)
  have s: "?s < ?s'" if "s1 < s2 \<or> s1 = s2 \<and> n1 < n2"
    by (rule field_sep_less) (use that n assms(12,13) in auto)
  have i: "?i < ?i'" if "i1 < i2 \<or> i1 = i2 \<and> (s1 < s2 \<or> s1 = s2 \<and> n1 < n2)"
    by (rule field_sep_less) (use that s assms(10,11) in auto)
  have h: "?h < ?h'" if "h1 < h2 \<or> h1 = h2 \<and> (i1 < i2 \<or> i1 = i2 \<and> (s1 < s2 \<or> s1 = s2 \<and> n1 < n2))"
    by (rule field_sep_less) (use that i assms(8,9) in auto)
  have d: "?d < ?d'" if "d1 < d2 \<or> d1 = d2 \<and> (h1 < h2 \<or> h1 = h2 \<and> (i1 < i2 \<or> i1 = i2 \<and> (s1 < s2 \<or> s1 = s2 \<and> n1 < n2)))"
    by (rule field_sep_less) (use that h assms(6,7) in auto)
  have m: "pad0 2 (int m1) @ x2 @ ?d < pad0 2 (int m2) @ x2 @ ?d'"
    if "m1 < m2 \<or> m1 = m2 \<and> (d1 < d2 \<or> d1 = d2 \<and> (h1 < h2 \<or> h1 = h2 \<and> (i1 < i2 \<or> i1 = i2 \<and> (s1 < s2 \<or> s1 = s2 \<and> n1 < n2))))"
    by (rule field_sep_less) (use that d assms(4,5) in auto)
  show ?thesis
    by (rule field_sep_less) (use assms(1-3) m in auto)
qed

section \<open>Properties\<close>

lemma date_lengths:
  assumes "year_of ns \<le> 9999"
  shows "length (GetFileNameDatetime ns) = 17" "length (GetIsoDatetime ns) = 29"
proof -
  obtain y m d where c: "civil (local_ms ns div 86400000) = (y, m, d)" by (cases "civil (local_ms ns div 86400000)") auto
  have y: "y < 10 ^ 4" using assms by (simp add: year_of_def c)
  have f: "length (pad0 k (int n)) = k" if "0 < k" "n < 10 ^ k" for k n using that by (simp add: pad0_digits)
  have md: "m < 10 ^ 2" "d < 10 ^ 2" using civil_bounds(3,5) [OF c] by simp_all
  show "length (GetFileNameDatetime ns) = 17" "length (GetIsoDatetime ns) = 29"
    using f [of 4 y] f [of 2 m] f [of 2 d] y md
    by (simp_all add: GetFileNameDatetime_def GetIsoDatetime_def c Let_def f)
qed

text \<open>
  A kanban's start time and the time in a file's name are ordered as the clock is: of two
  times at different milliseconds, to the year 9999, the later has the later string in the
  order of strings, both in the ISO format and in the format for file names; the strings have
  a fixed length, and the date in them is the one of the day.
\<close>

theorem datetimes_sorted:
  assumes "0 \<le> s" "s div 1000000 < t div 1000000" "year_of t \<le> 9999"
  shows "GetIsoDatetime s < GetIsoDatetime t \<and> GetFileNameDatetime s < GetFileNameDatetime t \<and>
    length (GetIsoDatetime s) = 29 \<and> length (GetFileNameDatetime s) = 17 \<and>
    day_number (civil (local_ms s div 86400000)) = local_ms s div 86400000"
proof -
  let ?a = "local_ms s" and ?b = "local_ms t"
  have ab: "?a < ?b" using assms(1,2) by (simp add: local_ms_def)
  obtain y1 m1 d1 y2 m2 d2 where c: "civil (?a div 86400000) = (y1, m1, d1)" "civil (?b div 86400000) = (y2, m2, d2)"
    by (metis prod_cases3)
  note parts = clock_parts [OF ab] and days = civil_less [OF c]
  have same: "?a div 86400000 = ?b div 86400000 \<Longrightarrow> y1 = y2 \<and> m1 = m2 \<and> d1 = d2" using c by simp
  have date: "y1 < y2 \<or> y1 = y2 \<and> (m1 < m2 \<or> m1 = m2 \<and> (d1 < d2 \<or> d1 = d2 \<and> ?a div 86400000 = ?b div 86400000))"
    using parts days same by blast
  have y: "y1 < 10 ^ 4" "y2 < 10 ^ 4" using date assms(3) by (auto simp: year_of_def c)
  have md: "m1 < 10 ^ 2" "m2 < 10 ^ 2" "d1 < 10 ^ 2" "d2 < 10 ^ 2"
    using civil_bounds(3,5) [OF c(1)] civil_bounds(3,5) [OF c(2)] by simp_all
  have nano: "nat (x div 1000000) mod 1000 = local_ms x mod 1000" for x
    using mod_mult_self1 [of "nat (x div 1000000)" 32400 1000] by (simp add: local_ms_def)
  have lt: "x mod 24 < 10 ^ 2" "x mod 60 < 10 ^ 2" "x mod 1000 < 10 ^ 3" for x :: nat
    using mod_less_divisor [of 24 x] mod_less_divisor [of 60 x] mod_less_divisor [of 1000 x] by simp_all
  have order: "y1 < y2 \<or> y1 = y2 \<and> (m1 < m2 \<or> m1 = m2 \<and> (d1 < d2 \<or> d1 = d2 \<and>
    (?a div 3600000 mod 24 < ?b div 3600000 mod 24 \<or> ?a div 3600000 mod 24 = ?b div 3600000 mod 24 \<and>
    (?a div 60000 mod 60 < ?b div 60000 mod 60 \<or> ?a div 60000 mod 60 = ?b div 60000 mod 60 \<and>
    (?a div 1000 mod 60 < ?b div 1000 mod 60 \<or> ?a div 1000 mod 60 = ?b div 1000 mod 60 \<and> ?a mod 1000 < ?b mod 1000)))))"
    using parts days same by blast
  note less = stamp_less [OF order y md lt(1,1,2,2,2,2,3,3)]
  have "GetIsoDatetime s < GetIsoDatetime t"
    using less [of "''-''" "''-''" "''T''" "'':''" "'':''" "''.''" "''+09:00''"] by (simp only: GetIsoDatetime_def Let_def c prod.case)
  moreover have "GetFileNameDatetime s < GetFileNameDatetime t"
    using less [of "[]" "[]" "[]" "[]" "[]" "[]" "[]"]
    by (simp only: GetFileNameDatetime_def Let_def c prod.case nano append_Nil append_Nil2)
  moreover have "year_of s \<le> 9999" using date assms(3) by (auto simp: year_of_def c)
  ultimately show ?thesis
    using date_lengths [of s] civil_bounds(6) [OF c(1)] by (simp add: c)
qed

theorem datetimes_sorted_witness:
  "GetIsoDatetime 1609426799999000000 = ''2020-12-31T23:59:59.999+09:00''
  \<and> GetIsoDatetime 1609426799999000000 < GetIsoDatetime 1609426800000000000"
proof -
  have c: "civil 18627 = (2020, 12, 31)" "civil 18628 = (2021, 1, 1)"
    by (simp_all add: civil_def year_loop.simps days_in_year_def leap_def month_days_def)
  then have "year_of 1609426800000000000 \<le> 9999" by (simp add: year_of_def local_ms_def)
  from datetimes_sorted [OF _ _ this, of 1609426799999000000]
  have "GetIsoDatetime 1609426799999000000 < GetIsoDatetime 1609426800000000000" by simp
  moreover have "GetIsoDatetime 1609426799999000000 = ''2020-12-31T23:59:59.999+09:00''"
    by (simp add: GetIsoDatetime_def local_ms_def c Let_def num_eval)
  ultimately show ?thesis by blast
qed

end
