(* ===== verification/Startup.thy ===== *)
theory Startup
  imports DeviceRun Services Replicator SendServer Clock "HOL-Library.Sublist"
begin

text \<open>
  How the programs start and end: the environments of the four servers (env.go of each), the
  log of pkg/log, and the main functions of the service broker, the kanban server, send-anything
  and the replicator. What \<open>envconfig.Process\<close> makes of the environment, the flag -c, whether a
  path exists, the listener and the signals are parameters. A fatal log ends the process.
\<close>

section \<open>The log\<close>

record logger =
  lg_processName :: string
  lg_pid :: int

text \<open>A call of Go's package log; the last two end the process.\<close>

datatype std_log = StdPrintf string "iface list" | StdPrint "iface list" | StdPrintln "iface list"
  | StdFatalf string "iface list" | StdFatal "iface list"

definition getFormat :: "logger \<Rightarrow> string \<Rightarrow> string" where
  "getFormat l loglevel = ''- '' @ loglevel @ '' - '' @ pad_sp 5 (lg_pid l) @ '' - '' @ lg_processName l @ '' - ''"

definition logger_Printf :: "logger \<Rightarrow> string \<Rightarrow> string \<Rightarrow> iface list \<Rightarrow> std_log" where
  "logger_Printf l loglevel format v = StdPrintf (getFormat l loglevel @ format) v"

definition logger_Print :: "logger \<Rightarrow> string \<Rightarrow> iface list \<Rightarrow> std_log" where
  "logger_Print l loglevel v = StdPrint (IString (getFormat l loglevel) # v)"

definition logger_Println :: "logger \<Rightarrow> string \<Rightarrow> iface list \<Rightarrow> std_log" where
  "logger_Println l loglevel v = StdPrintln (IString (getFormat l loglevel) # v)"

definition logger_Fatalf :: "logger \<Rightarrow> string \<Rightarrow> string \<Rightarrow> iface list \<Rightarrow> std_log" where
  "logger_Fatalf l loglevel format v = StdFatalf (getFormat l loglevel @ format) v"

definition logger_Fatal :: "logger \<Rightarrow> string \<Rightarrow> iface list \<Rightarrow> std_log" where
  "logger_Fatal l loglevel v = StdFatal (IString (getFormat l loglevel) # v)"

text \<open>\<open>SetFormat\<close> takes the effective group of the process for its number.\<close>

definition SetFormat :: "string \<Rightarrow> int \<Rightarrow> logger \<Rightarrow> logger" where
  "SetFormat processName egid l = l\<lparr>lg_processName := processName, lg_pid := egid\<rparr>"

definition log_GetEnv :: "string result \<Rightarrow> string result \<times> std_log list" where
  "log_GetEnv process =
     (case process of
        Inl e \<Rightarrow> (Inl (Error ''Can not read debug option''), [StdFatalf ''Can not read debug option'' []])
      | Inr debug \<Rightarrow> (Inr debug, if debug = ''true'' then [StdPrintf ''Debug mode on'' []] else []))"

text \<open>The functions of the package, over the default logger and the debug option.\<close>

definition log_Printf :: "logger \<Rightarrow> string \<Rightarrow> iface list \<Rightarrow> std_log list" where
  "log_Printf l format v = [logger_Printf l ''INFO'' format v]"

definition log_Print :: "logger \<Rightarrow> iface list \<Rightarrow> std_log list" where
  "log_Print l v = [logger_Print l ''INFO'' v]"

definition log_Println :: "logger \<Rightarrow> iface list \<Rightarrow> std_log list" where
  "log_Println l v = [logger_Println l ''INFO'' v]"

definition log_Debugf :: "string \<Rightarrow> logger \<Rightarrow> string \<Rightarrow> iface list \<Rightarrow> std_log list" where
  "log_Debugf debug l format v = (if debug = ''true'' then [logger_Printf l ''DEBUG'' format v] else [])"

definition log_Debugln :: "string \<Rightarrow> logger \<Rightarrow> iface list \<Rightarrow> std_log list" where
  "log_Debugln debug l v = (if debug = ''true'' then [logger_Println l ''DEBUG'' v] else [])"

definition log_Warnf :: "logger \<Rightarrow> string \<Rightarrow> iface list \<Rightarrow> std_log list" where
  "log_Warnf l format v = [logger_Printf l ''WARN'' format v]"

definition log_Warnln :: "logger \<Rightarrow> iface list \<Rightarrow> std_log list" where
  "log_Warnln l v = [logger_Println l ''WARN'' v]"

definition log_Errorf :: "logger \<Rightarrow> string \<Rightarrow> iface list \<Rightarrow> std_log list" where
  "log_Errorf l format v = [logger_Printf l ''ERROR'' format v]"

definition log_Errorln :: "logger \<Rightarrow> iface list \<Rightarrow> std_log list" where
  "log_Errorln l v = [logger_Println l ''ERROR'' v]"

definition log_Fatal :: "logger \<Rightarrow> iface list \<Rightarrow> std_log list" where
  "log_Fatal l v = [logger_Fatal l ''FATAL'' v]"

definition log_Fatalf :: "logger \<Rightarrow> string \<Rightarrow> iface list \<Rightarrow> std_log list" where
  "log_Fatalf l format v = [logger_Fatalf l ''FATAL'' format v]"

text \<open>The pods watcher of pkg/k8s only logs the events of pods.\<close>

datatype pod_event = PodAdded string | PodDeleted string | PodUpdated string

fun PodsWatcher :: "logger \<Rightarrow> pod_event \<Rightarrow> std_log list" where
  "PodsWatcher l (PodAdded name) = log_Print l [IString ''[k8s] Add pod: '', IString name]"
| "PodsWatcher l (PodDeleted name) = log_Print l [IString ''[k8s] Delete pod: '', IString name]"
| "PodsWatcher l (PodUpdated name) = log_Print l [IString (''[k8s] Update pod: '' @ name)]"

lemmas log_defs = log_Printf_def log_Print_def log_Println_def log_Debugf_def log_Debugln_def log_Warnf_def
  log_Warnln_def log_Errorf_def log_Errorln_def log_Fatal_def log_Fatalf_def logger_Printf_def logger_Print_def
  logger_Println_def logger_Fatalf_def logger_Fatal_def

section \<open>Environments\<close>

definition home_missing :: "string \<Rightarrow> go_error" where
  "home_missing home = Error (''AION_HOME does not exist : '' @ home)"

definition flag_default :: "string option \<Rightarrow> string" where
  "flag_default c = (case c of None \<Rightarrow> ''./yaml/sample.yml'' | Some p \<Rightarrow> p)"

record FlagValue =
  fl_ConfigPath :: string

text \<open>The service broker.\<close>

record broker_config =
  cf_env :: EnvironmentValue
  cf_flag :: FlagValue

definition broker_GetConfig :: "EnvironmentValue result \<Rightarrow> string option \<Rightarrow> (string \<Rightarrow> bool) \<Rightarrow> broker_config result" where
  "broker_GetConfig process c not_exist =
     (case process of
        Inl e \<Rightarrow> Inl (Error (''cant load environment variable: '' @ err_text e))
      | Inr env \<Rightarrow>
          (if not_exist (ev_AionHome env) then Inl (home_missing (ev_AionHome env))
           else Inr \<lparr>cf_env = env, cf_flag = \<lparr>fl_ConfigPath = flag_default c\<rparr>\<rparr>))"

definition broker_GetDebug :: "broker_config \<Rightarrow> string" where "broker_GetDebug e = ev_Debug (cf_env e)"
definition broker_GetConfigPath :: "broker_config \<Rightarrow> string" where "broker_GetConfigPath e = fl_ConfigPath (cf_flag e)"
definition broker_GetAionHome :: "broker_config \<Rightarrow> string" where "broker_GetAionHome e = ev_AionHome (cf_env e)"
definition broker_GetDataDir :: "broker_config \<Rightarrow> string" where "broker_GetDataDir e = PathJoin [ev_AionHome (cf_env e), ''Data'']"
definition broker_GetRedisAddr :: "broker_config \<Rightarrow> string" where "broker_GetRedisAddr e = ev_RedisAddr (cf_env e)"
definition GetRepositoryPrefix :: "broker_config \<Rightarrow> string" where "GetRepositoryPrefix e = ev_RepositoryPrefix (cf_env e)"
definition GetNamespace :: "broker_config \<Rightarrow> string" where "GetNamespace e = ev_Namespace (cf_env e)"
definition GetRegistrySecret :: "broker_config \<Rightarrow> string" where "GetRegistrySecret e = ev_RegistrySecret (cf_env e)"
definition GetNodeName :: "broker_config \<Rightarrow> string" where "GetNodeName e = ev_NodeName (cf_env e)"
definition GetNodeIP :: "broker_config \<Rightarrow> string" where "GetNodeIP e = ev_NodeIP (cf_env e)"

text \<open>The kanban server.\<close>

definition kanban_GetConfig :: "Env result \<Rightarrow> (string \<Rightarrow> bool) \<Rightarrow> Env result" where
  "kanban_GetConfig process not_exist =
     (case process of
        Inl e \<Rightarrow> Inl (Error (''cant get env yaml: '' @ err_text e))
      | Inr env \<Rightarrow> (if not_exist (AionHome env) then Inl (home_missing (AionHome env)) else Inr env))"

definition kanban_GetAionHome :: "Env \<Rightarrow> string" where "kanban_GetAionHome e = AionHome e"
definition GetSBAddr :: "Env \<Rightarrow> string" where "GetSBAddr e = SBAddr e"
definition kanban_GetRedisAddr :: "Env \<Rightarrow> string" where "kanban_GetRedisAddr e = RedisAddr e"
definition kanban_GetServerPort :: "Env \<Rightarrow> int" where "kanban_GetServerPort e = ServerPort e"

text \<open>Send-anything.\<close>

record send_env =
  sn_AionHome :: string
  sn_ServerPort :: int
  sn_ClientPort :: int

definition send_GetConfig :: "send_env result \<Rightarrow> (string \<Rightarrow> bool) \<Rightarrow> send_env result" where
  "send_GetConfig process not_exist =
     (case process of
        Inl e \<Rightarrow> Inl (Error (''cant get env yaml: '' @ err_text e))
      | Inr env \<Rightarrow> (if not_exist (sn_AionHome env) then Inl (home_missing (sn_AionHome env)) else Inr env))"

definition send_GetAionHome :: "send_env \<Rightarrow> string" where "send_GetAionHome e = sn_AionHome e"
definition send_GetDataDir :: "send_env \<Rightarrow> string" where "send_GetDataDir e = PathJoin [sn_AionHome e, ''Data'']"
definition send_GetServerPort :: "send_env \<Rightarrow> int" where "send_GetServerPort e = sn_ServerPort e"
definition send_GetClientPort :: "send_env \<Rightarrow> int" where "send_GetClientPort e = sn_ClientPort e"

text \<open>The replicator.\<close>

record replicator_env =
  rn_AionHome :: string
  rn_RedisAddr :: string
  rn_MongoAddr :: string
  rn_KanbanDB :: string
  rn_KanbanCollection :: string

record replicator_config =
  rc_env :: replicator_env
  rc_configPath :: string

definition replicator_GetConfig :: "replicator_env result \<Rightarrow> string option \<Rightarrow> (string \<Rightarrow> bool) \<Rightarrow> replicator_config result" where
  "replicator_GetConfig process c not_exist =
     (case process of
        Inl e \<Rightarrow> Inl (Error (''cant load environment variable: '' @ err_text e))
      | Inr env \<Rightarrow>
          (if not_exist (rn_AionHome env) then Inl (home_missing (rn_AionHome env))
           else Inr \<lparr>rc_env = env, rc_configPath = flag_default c\<rparr>))"

definition replicator_GetAionHome :: "replicator_config \<Rightarrow> string" where "replicator_GetAionHome c = rn_AionHome (rc_env c)"
definition replicator_GetRedisAddr :: "replicator_config \<Rightarrow> string" where "replicator_GetRedisAddr c = rn_RedisAddr (rc_env c)"
definition GetMongoAddr :: "replicator_config \<Rightarrow> string" where "GetMongoAddr c = rn_MongoAddr (rc_env c)"
definition replicator_GetConfigPath :: "replicator_config \<Rightarrow> string" where "replicator_GetConfigPath c = rc_configPath c"
definition GetKanbanDB :: "replicator_config \<Rightarrow> string" where "GetKanbanDB c = rn_KanbanDB (rc_env c)"
definition GetKanbanCollection :: "replicator_config \<Rightarrow> string" where "GetKanbanCollection c = rn_KanbanCollection (rc_env c)"

section \<open>The service broker\<close>

text \<open>An error of clearing Redis is only logged, and the device controller always comes up.\<close>

definition StartMicroservicesController :: "'r redis_api \<Rightarrow> broker_config \<Rightarrow> 'r \<Rightarrow> 'r watcher \<times> 'q broker" where
  "StartMicroservicesController api env redis =
     (case FlushAll api redis of (e, redis') \<Rightarrow>
       (NewWatcher redis',
        new_broker (broker_GetAionHome env) (IsWorkerMode (cf_env env))
          (NewK8sEnv (broker_GetDataDir env) (GetRepositoryPrefix env) (GetNamespace env) (GetRegistrySecret env))))"

text \<open>
  \<open>main\<close> up to the point where it waits for the signal: what is on the project channel, what it
  serves, and the state of the broker. \<open>load\<close> reads the project file.
\<close>

definition service_broker_main :: "'r redis_api \<Rightarrow> EnvironmentValue result \<Rightarrow> string option \<Rightarrow> (string \<Rightarrow> bool) \<Rightarrow>
    (string \<Rightarrow> AionSetting option result) \<Rightarrow> 'r \<Rightarrow> (AionSetting option list \<times> role \<times> 'r watcher \<times> 'q broker) result" where
  "service_broker_main api process c not_exist load redis =
     (case broker_GetConfig process c not_exist of
        Inl e \<Rightarrow> Inl e
      | Inr env \<Rightarrow>
          (case broker_main (cf_env env) (load (broker_GetConfigPath env)) of
             Inl e \<Rightarrow> Inl e
           | Inr (aionCh, role) \<Rightarrow> Inr (aionCh, role, StartMicroservicesController api env redis)))"

text \<open>The signal: everything is stopped, and the process ends.\<close>

definition on_sigterm :: "'q k8s_world \<Rightarrow> 'q broker \<Rightarrow> 'q broker" where
  "on_sigterm w b = StopAllMicroservice w b"

section \<open>The other servers\<close>

text \<open>What ends a server: its listener fails, or a signal.\<close>

datatype server_end = ServeFails go_error | Signalled

definition kanban_NewServer :: "go_error option \<Rightarrow> server_end \<Rightarrow> go_error option" where
  "kanban_NewServer listen ev =
     (case listen of
        Some e \<Rightarrow> Some (Error (''failed to listen: '' @ err_text e))
      | None \<Rightarrow> (case ev of ServeFails e \<Rightarrow> Some e | Signalled \<Rightarrow> None))"

definition createServerConnection :: "go_error option \<Rightarrow> server_end \<Rightarrow> go_error option" where
  "createServerConnection listen ev =
     (case listen of
        Some e \<Rightarrow> Some (Error (''failed to listen: '' @ err_text e))
      | None \<Rightarrow> (case ev of
           ServeFails e \<Rightarrow> Some (Error (''receive error channel: '' @ ''serve error: '' @ err_text e))
         | Signalled \<Rightarrow> None))"

text \<open>The exit status of the two main functions, which drop the error of the server.\<close>

definition kanban_main :: "Env result \<Rightarrow> (string \<Rightarrow> bool) \<Rightarrow> go_error option \<Rightarrow> server_end \<Rightarrow> nat" where
  "kanban_main process not_exist listen ev =
     (case kanban_GetConfig process not_exist of Inl e \<Rightarrow> 1
      | Inr env \<Rightarrow> (case kanban_NewServer listen ev of Some e \<Rightarrow> 0 | None \<Rightarrow> 0))"

definition send_main :: "send_env result \<Rightarrow> (string \<Rightarrow> bool) \<Rightarrow> go_error option \<Rightarrow> server_end \<Rightarrow> nat" where
  "send_main process not_exist listen ev =
     (case send_GetConfig process not_exist of Inl e \<Rightarrow> 1
      | Inr env \<Rightarrow> (case createServerConnection listen ev of Some e \<Rightarrow> 0 | None \<Rightarrow> 0))"

lemma server_errors_dropped:
  "kanban_main process not_exist listen ev = 0 \<longleftrightarrow> (\<exists>env. process = Inr env \<and> \<not> not_exist (AionHome env))"
  by (auto simp: kanban_main_def kanban_GetConfig_def split: sum.splits option.splits)

section \<open>Stopping everything\<close>

text \<open>
  A start that fails on the way, after the config map or the workload has been applied, leaves
  the count at zero, so a stop does nothing: it makes no call, and these objects stay.
\<close>

lemma partial_start_not_cleaned:
  assumes "map_of (sc_containerList sc) i = Some c" "NumOfUpState c = 0" "StartProcess w (cs_Container c) h = (Some e, h')"
    and "i \<le> int (length (sc_containerList sc))"
  shows "snd (StartMicroservice w i (sc, h)) = (sc, h') \<and> snd (StopMicroservice w i (sc, h')) = (sc, h')"
  using assms by (simp add: StartMicroservice_def StopMicroservice_def)

text \<open>What a stop leaves as it is: which instances there are and what they are made of.\<close>

definition instance_of :: "'q broker \<Rightarrow> string \<Rightarrow> int \<Rightarrow> ContainerMicroservice option" where
  "instance_of b name i = (case map_of (br_microserviceList b) name of None \<Rightarrow> None
     | Some sc \<Rightarrow> map_option cs_Container (map_of (sc_containerList sc) i))"

definition scale_of :: "'q broker \<Rightarrow> string \<Rightarrow> nat option" where
  "scale_of b name = map_option GetScale (map_of (br_microserviceList b) name)"

lemma set_up_same:
  "map_of (sc_containerList sc) j = Some c \<Longrightarrow>
    map_option cs_Container (map_of (sc_containerList (set_up j c n sc)) i) = map_option cs_Container (map_of (sc_containerList sc) i)"
  by (auto simp: set_up_def)

lemma length_put: "map_of m k = Some v \<Longrightarrow> length (put k w m) = length m"
  by (induction m) (auto split: if_splits)

lemma stop_keeps:
  "instance_of (snd (on_container (StopMicroservice w j) n b)) name i = instance_of b name i \<and>
   scale_of (snd (on_container (StopMicroservice w j) n b)) name = scale_of b name"
  by (auto simp: on_container_def StopMicroservice_def instance_of_def scale_of_def GetScale_def set_up_same
      set_up_def length_put split: option.splits prod.splits)

text \<open>A stop only adds calls; a delete is called whatever becomes of it.\<close>

lemma delete_calls:
  assumes "retry_documented rt"
  shows "prefix (h @ [DeleteObj kd n]) (snd (delete_and_wait srv rt kd n n' failed still h))"
proof -
  let ?f = "check_gone srv kd n' still" and ?h = "h @ [DeleteObj kd n]"
  obtain ok h' where at: "attempts K8s.connRetryCount ?f ?h = (ok, h')" by fastforce
  from attempts_check_gone [OF at] obtain k where "h' = ?h @ replicate k (Get kd n')" by blast
  moreover have "snd (rt K8s.connRetryCount ?f ?h) = h'"
    using retry_documentedD(2) [OF assms, of K8s.connRetryCount ?f ?h] at by (simp add: K8s.connRetryCount_def)
  ultimately show ?thesis by (auto simp: delete_and_wait_def api_call_def split: option.splits)
qed

lemma delete_grows:
  assumes "retry_documented rt"
  shows "prefix h (snd (delete_and_wait srv rt kd n n' failed still h))"
  using delete_calls [OF assms, of h] by (metis append_prefixD)

lemma resource_delete_grows:
  "retry_documented (kw_retry w) \<Longrightarrow> prefix h (snd (K8sResource_Delete w k h))"
  by (cases k) (simp_all add: Job_Delete_def Deployment_Delete_def delete_grows)

lemma stop_all_steps:
  assumes "StopAllProcess w c h = (e, h3)"
  obtains h1 h2 where "h1 = snd (Service_Delete (kw_server w) (kw_retry w) (cm_Service c) h)"
    "h2 = snd (K8sResource_Delete w (cm_K8s c) h1)"
    "h3 = snd (ConfigMap_Delete (kw_server w) (kw_retry w) (cm_ConfigMap c) h2)"
  using assms by (auto simp: StopAllProcess_def Let_def split: prod.splits if_splits)

lemma stop_all_grows:
  assumes "retry_documented (kw_retry w)" "StopAllProcess w c h = (e, h3)"
  shows "prefix h h3"
proof -
  obtain h1 h2 where "h1 = snd (Service_Delete (kw_server w) (kw_retry w) (cm_Service c) h)"
    "h2 = snd (K8sResource_Delete w (cm_K8s c) h1)"
    "h3 = snd (ConfigMap_Delete (kw_server w) (kw_retry w) (cm_ConfigMap c) h2)"
    using assms(2) by (rule stop_all_steps)
  then have "prefix h h1" "prefix h1 h2" "prefix h2 h3"
    by (simp_all add: Service_Delete_def ConfigMap_Delete_def delete_grows [OF assms(1)] resource_delete_grows [OF assms(1)])
  then show ?thesis by (auto intro: prefix_order.trans)
qed

text \<open>Each of the three objects of an instance is deleted on the way.\<close>

definition deletes :: "(kind \<times> string) list \<Rightarrow> 'q calls \<Rightarrow> 'q calls \<Rightarrow> bool" where
  "deletes rs h h' \<longleftrightarrow> (\<exists>cs. h' = h @ cs \<and> (\<forall>r \<in> set rs. DeleteObj (fst r) (snd r) \<in> set cs))"

lemma deletes_step: "prefix (h @ [DeleteObj kd n]) h' \<Longrightarrow> deletes [(kd, n)] h h'"
  by (auto simp: deletes_def prefix_def)

lemma deletes_trans: "deletes rs h h1 \<Longrightarrow> deletes us h1 h2 \<Longrightarrow> deletes (rs @ us) h h2"
  unfolding deletes_def by fastforce

lemma stop_all_deletes:
  assumes "retry_documented (kw_retry w)" "StopAllProcess w (NewContainerMicroservice ke s m i) h = (e, h3)"
  shows "deletes [service_res s i, workload s m i, config_res s i] h h3"
proof -
  let ?c = "NewContainerMicroservice ke s m i"
  obtain h1 h2 where st: "h1 = snd (Service_Delete (kw_server w) (kw_retry w) (cm_Service ?c) h)"
    "h2 = snd (K8sResource_Delete w (cm_K8s ?c) h1)"
    "h3 = snd (ConfigMap_Delete (kw_server w) (kw_retry w) (cm_ConfigMap ?c) h2)"
    using assms(2) by (rule stop_all_steps)
  have 1: "prefix (h @ [DeleteObj (fst (service_res s i)) (snd (service_res s i))]) h1"
    unfolding st(1) instance_parts Service_Delete_def service_res_def
    by (simp add: srv_label_def NewService_def delete_calls [OF assms(1)])
  have 2: "prefix (h1 @ [DeleteObj (fst (workload s m i)) (snd (workload s m i))]) h2"
    unfolding st(2) workload_def NewContainerMicroservice_def
    by (simp add: Let_def Job_Delete_def Deployment_Delete_def NewJob_def NewDeployment_def delete_calls [OF assms(1)])
  have 3: "prefix (h2 @ [DeleteObj (fst (config_res s i)) (snd (config_res s i))]) h3"
    unfolding st(3) instance_parts ConfigMap_Delete_def config_res_def
    by (simp add: NewConfigMap_def delete_calls [OF assms(1)])
  from deletes_trans [OF deletes_step [OF 1] deletes_trans [OF deletes_step [OF 2] deletes_step [OF 3]]] show ?thesis by simp
qed

text \<open>A stop of an instance that is counted runs \<open>StopAllProcess\<close>, and zeroes the count if that succeeds.\<close>

lemma stop_now:
  assumes "instance_of b name i = Some c" "scale_of b name = Some n" "i \<le> int n" "cnt b name i \<noteq> 0"
    and "b' = snd (on_container (StopMicroservice w i) name b)"
  shows "\<exists>e. StopAllProcess w c (br_calls b) = (e, br_calls b') \<and> (e = None \<longrightarrow> cnt b' name i = 0)"
proof -
  obtain sc cs where sc: "map_of (br_microserviceList b) name = Some sc" "map_of (sc_containerList sc) i = Some cs"
    "cs_Container cs = c" "length (sc_containerList sc) = n"
    using assms(1,2) by (auto simp: instance_of_def scale_of_def GetScale_def split: option.splits)
  obtain e h where st: "StopAllProcess w c (br_calls b) = (e, h)" by force
  have "NumOfUpState cs \<noteq> 0" using assms(4) sc by (simp add: cnt_def count_of_def)
  then have b': "b' = b\<lparr>br_microserviceList := put name (if e = None then set_up i cs 0 sc else sc) (br_microserviceList b), br_calls := h\<rparr>"
    using assms(3) sc st by (cases e) (simp_all add: assms(5) on_container_def StopMicroservice_def)
  then show ?thesis using st by (simp add: cnt_def count_of_def set_up_def)
qed

lemma stop_grows:
  assumes "retry_documented (kw_retry w)"
  shows "prefix (br_calls b) (br_calls (snd (on_container (StopMicroservice w j) n b)))"
  using stop_all_grows [OF assms]
  by (auto simp: on_container_def StopMicroservice_def split: option.splits prod.splits)

lemma stop_other:
  assumes "(n, j) \<noteq> (name, i)"
  shows "cnt (snd (on_container (StopMicroservice w j) n b)) name i = cnt b name i"
proof -
  have f: "sc_serve w (sc_request.Stop j) = StopMicroservice w j" by (simp add: fun_eq_iff)
  show ?thesis using serve_cnt [of w "sc_request.Stop j" n b name i] assms by (auto simp: f)
qed

lemma stop_stays_zero:
  "cnt b name i = 0 \<Longrightarrow> cnt (snd (on_container (StopMicroservice w j) n b)) name i = 0"
proof -
  have f: "sc_serve w (sc_request.Stop j) = StopMicroservice w j" by (simp add: fun_eq_iff)
  show "cnt b name i = 0 \<Longrightarrow> ?thesis"
    using serve_cnt [of w "sc_request.Stop j" n b name i] by (auto simp: f)
qed

lemma stop_loop_keeps:
  "instance_of (stop_loop w n js b) name i = instance_of b name i \<and> scale_of (stop_loop w n js b) name = scale_of b name \<and>
   (cnt b name i = 0 \<longrightarrow> cnt (stop_loop w n js b) name i = 0)"
  by (induction js arbitrary: b) (simp_all add: stop_keeps stop_stays_zero)

text \<open>Between two states of the broker, the objects of an instance were deleted, or that was tried.\<close>

definition stopped_between :: "'q k8s_world \<Rightarrow> string \<Rightarrow> int \<Rightarrow> ContainerMicroservice \<Rightarrow> 'q broker \<Rightarrow> 'q broker \<Rightarrow> bool" where
  "stopped_between w name i c b b' \<longleftrightarrow> (\<exists>h e h'. StopAllProcess w c h = (e, h') \<and> prefix (br_calls b) h \<and>
     prefix h' (br_calls b') \<and> (e = None \<longrightarrow> cnt b' name i = 0))"

lemma stopped_later:
  "stopped_between w name i c b b' \<Longrightarrow> prefix (br_calls b') (br_calls b'') \<Longrightarrow> (cnt b' name i = 0 \<longrightarrow> cnt b'' name i = 0) \<Longrightarrow>
    stopped_between w name i c b b''"
  unfolding stopped_between_def using prefix_order.trans by blast

lemma stopped_earlier:
  "stopped_between w name i c b' b'' \<Longrightarrow> prefix (br_calls b) (br_calls b') \<Longrightarrow> stopped_between w name i c b b''"
  unfolding stopped_between_def using prefix_order.trans by blast

lemma stop_loop_grows:
  assumes "retry_documented (kw_retry w)"
  shows "prefix (br_calls b) (br_calls (stop_loop w n js b))"
proof (induction js arbitrary: b)
  case (Cons j js)
  from prefix_order.trans [OF stop_grows [OF assms] Cons.IH] show ?case by simp
qed simp

lemma stop_loop_other: "n \<noteq> name \<Longrightarrow> cnt (stop_loop w n js b) name i = cnt b name i"
  by (induction js arbitrary: b) (simp_all add: stop_other)

lemma stop_loop_stops:
  assumes "retry_documented (kw_retry w)" "instance_of b name i = Some c" "scale_of b name = Some n" "i \<le> int n"
    and "i \<in> set js" "cnt b name i \<noteq> 0"
  shows "stopped_between w name i c b (stop_loop w name js b)"
  using assms(2,3,5,6)
proof (induction js arbitrary: b)
  case (Cons j js)
  let ?b = "snd (on_container (StopMicroservice w j) name b)"
  show ?case
  proof (cases "i = j")
    case True
    from stop_now [OF Cons.prems(1,2) assms(4) Cons.prems(4) refl, of w] have "stopped_between w name i c b ?b"
      unfolding stopped_between_def True by blast
    then show ?thesis
      using stopped_later [OF _ stop_loop_grows [OF assms(1), of ?b name js]] stop_loop_keeps [of w name js ?b name i] by simp
  next
    case False
    then have "cnt ?b name i = cnt b name i" by (intro stop_other) simp
    with Cons False have "stopped_between w name i c ?b (stop_loop w name js ?b)" by (simp add: stop_keeps)
    with stopped_earlier [OF _ stop_grows [OF assms(1)]] show ?thesis by simp
  qed
qed simp

lemma status_calls: "br_calls (SetServiceStatusDeactivate s b) = br_calls b"
  by (simp add: SetServiceStatusDeactivate_def sendUpdateStatusTrigger_def Let_def)

lemma status_keeps:
  "instance_of (SetServiceStatusDeactivate s b) name i = instance_of b name i"
  "scale_of (SetServiceStatusDeactivate s b) name = scale_of b name"
  by (simp_all add: instance_of_def scale_of_def)

lemma stopMicroservice_keeps:
  "instance_of (snd (stopMicroservice w n b)) name i = instance_of b name i \<and>
   scale_of (snd (stopMicroservice w n b)) name = scale_of b name \<and>
   (cnt b name i = 0 \<longrightarrow> cnt (snd (stopMicroservice w n b)) name i = 0)"
  by (simp add: stopMicroservice_def Let_def stop_loop_keeps status_keeps split: option.splits)

lemma stopMicroservice_grows:
  "retry_documented (kw_retry w) \<Longrightarrow> prefix (br_calls b) (br_calls (snd (stopMicroservice w n b)))"
  using stop_loop_grows [of w b n] by (simp add: stopMicroservice_def Let_def status_calls split: option.splits)

lemma stopMicroservice_other: "n \<noteq> name \<Longrightarrow> cnt (snd (stopMicroservice w n b)) name i = cnt b name i"
  by (simp add: stopMicroservice_def Let_def stop_loop_other split: option.splits)

lemma stopMicroservice_stops:
  assumes "retry_documented (kw_retry w)" "instance_of b name i = Some c" "scale_of b name = Some n" "1 \<le> i" "i \<le> int n"
    and "cnt b name i \<noteq> 0"
  shows "stopped_between w name i c b (snd (stopMicroservice w name b))"
proof -
  have "i \<in> set [1..int n]" using assms(4,5) by simp
  from stop_loop_stops [OF assms(1-3,5) this assms(6)]
  have st: "stopped_between w name i c b (stop_loop w name [1..int n] b)" .
  then have "stopped_between w name i c b (SetServiceStatusDeactivate name (stop_loop w name [1..int n] b))"
    by (rule stopped_later) (simp_all add: status_calls)
  with st assms(3) show ?thesis
    by (auto simp: stopMicroservice_def scale_of_def Let_def)
qed

lemma stop_all_stops:
  assumes "retry_documented (kw_retry w)" "1 \<le> i" "i \<le> int n"
  shows "instance_of b name i = Some c \<Longrightarrow> scale_of b name = Some n \<Longrightarrow> cnt b name i \<noteq> 0 \<Longrightarrow> name \<in> set ns \<Longrightarrow>
    stopped_between w name i c b (foldl (\<lambda>b name. snd (stopMicroservice w name b)) b ns)"
proof (induction ns arbitrary: b)
  case (Cons n' ns)
  let ?b = "snd (stopMicroservice w n' b)" and ?f = "\<lambda>b name. snd (stopMicroservice w name b)"
  have rest: "prefix (br_calls b) (br_calls (foldl ?f b ns)) \<and> (cnt b name i = 0 \<longrightarrow> cnt (foldl ?f b ns) name i = 0)" for b
  proof (induction ns arbitrary: b)
    case (Cons m ns)
    from prefix_order.trans [OF stopMicroservice_grows [OF assms(1), of b m]] Cons [of "?f b m"] stopMicroservice_keeps [of w m b name i]
    show ?case by simp
  qed simp
  show ?case
  proof (cases "n' = name")
    case True
    with stopMicroservice_stops [OF assms(1) Cons.prems(1,2) assms(2,3) Cons.prems(3)] stopped_later [OF _ conjunct1 [OF rest] conjunct2 [OF rest]]
    show ?thesis by simp
  next
    case False
    with Cons.IH [of ?b] Cons.prems have "stopped_between w name i c ?b (foldl ?f ?b ns)"
      by (simp add: stopMicroservice_keeps stopMicroservice_other)
    with stopped_earlier [OF _ stopMicroservice_grows [OF assms(1)]] show ?thesis by simp
  qed
qed simp

text \<open>
  C23. The end of the broker: on the signal, as on every new project, for each instance that is
  counted as started, of every microservice it knows, the service, the workload and the config
  map are deleted, whatever the cluster answers for them and for the others, and if these
  deletes succeed the count is zero. An instance whose start failed on the way is not counted
  and not stopped: \<open>partial_start_not_cleaned\<close>.
\<close>

theorem shutdown_stops_instances:
  assumes "retry_documented (kw_retry w)"
    and "map_of (br_microserviceList b) name = Some sc" "map_of (sc_containerList sc) i = Some cs"
    and "1 \<le> i" "i \<le> int (GetScale sc)" "NumOfUpState cs \<noteq> 0" "cs_Container cs = NewContainerMicroservice ke s m i"
  shows "\<exists>h e h'. prefix (br_calls b) h \<and> StopAllProcess w (cs_Container cs) h = (e, h') \<and>
    deletes [service_res s i, workload s m i, config_res s i] h h' \<and> prefix h' (br_calls (on_sigterm w b)) \<and>
    (e = None \<longrightarrow> cnt (on_sigterm w b) name i = 0)"
proof -
  have "instance_of b name i = Some (cs_Container cs)" "scale_of b name = Some (GetScale sc)" "cnt b name i \<noteq> 0"
    using assms(2,3,6) by (simp_all add: instance_of_def scale_of_def cnt_def count_of_def)
  moreover have "name \<in> set (keys (br_microserviceList b))" using map_of_SomeD [OF assms(2)] by force
  ultimately have "stopped_between w name i (cs_Container cs) b (on_sigterm w b)"
    unfolding on_sigterm_def StopAllMicroservice_def by (rule stop_all_stops [OF assms(1,4,5)])
  then show ?thesis
    using stop_all_deletes [OF assms(1)] unfolding stopped_between_def assms(7) by blast
qed

text \<open>The microservice of the example as the start has left it.\<close>

definition ex_started_ms :: Microservice where
  "ex_started_ms = (case map_of (as_Microservices ex_local) ''a'' of Some (Some m) \<Rightarrow>
     m\<lparr>ms_Env := Some (put ''MS_NUMBER'' (itoa 1) (set_env (dn_broker ex_start) ex_local (case ms_Env m of Some e \<Rightarrow> e | None \<Rightarrow> [])))\<rparr>)"

theorem shutdown_stops_instances_witness:
  "\<exists>h e h'. prefix (br_calls (dn_broker ex_deployed)) h \<and> prefix h' (br_calls (on_sigterm ex_world (dn_broker ex_deployed))) \<and>
    deletes [service_res ''a'' 1] h h'"
proof -
  let ?b = "dn_broker ex_deployed"
  have r: "retry_documented (kw_retry ex_world)" by (simp add: ex_world_def)
  have "map_option (\<lambda>sc. (GetScale sc, map_option NumOfUpState (map_of (sc_containerList sc) 1))) (map_of (br_microserviceList ?b) ''a'') =
      Some (1, Some 1)" by code_simp
  then obtain sc cs where sc: "map_of (br_microserviceList ?b) ''a'' = Some sc" "map_of (sc_containerList sc) 1 = Some cs"
    "(1 :: int) \<le> int (GetScale sc)" "NumOfUpState cs \<noteq> 0" by auto
  have "instance_of ?b ''a'' 1 = Some (NewContainerMicroservice (pd_k8sEnv ex_pod) ''a'' ex_started_ms 1)" by code_simp
  with sc have "cs_Container cs = NewContainerMicroservice (pd_k8sEnv ex_pod) ''a'' ex_started_ms 1"
    by (simp add: instance_of_def)
  from shutdown_stops_instances [OF r sc(1,2) _ sc(3,4) this] show ?thesis
    unfolding deletes_def by (metis list.set_intros(1) empty_iff empty_set set_ConsD order.refl)
qed

section \<open>The data directory\<close>

lemma host_path_parts_snoc: "host_path_parts ns (ps @ [q]) = concat (map (\<lambda>p. p @ ''/'') ps) @ ns @ ''/'' @ q @ ''/''"
proof (induction ps)
  case (Cons p ps)
  then show ?case by (cases "ps @ [q]") auto
qed simp

text \<open>
  C24. One data directory for all: when the four programs run with the same home, the directory
  that the kanban server writes into the kanban of a starting microservice, the one in which
  send-anything stores the files for it, and the one below the volume that the service broker
  mounts into every pod are the same; on the host the volume is below the home under the
  name of the namespace.
\<close>

theorem kanban_path_mounted:
  assumes home: "\<forall>n \<in> set home. plain_name n" and name: "plain_name (name @ ''_'' @ itoa n)"
    and env: "ev_AionHome (cf_env conf) = abs_path home" "AionHome kenv = abs_path home" "sn_AionHome senv = abs_path home"
    and pod: "pd_k8sEnv p = br_k8sEnv (snd (StartMicroservicesController api conf redis))"
  shows "(\<exists>mount \<in> set (getVolumeMountList p). vm_Name mount = ''aion-data'' \<and> vm_MountPath mount = abs_path (home @ [''Data''])) \<and>
    sk_DataPath (initial_kanban now (newSession name n (GetDataDir kenv))) = abs_path (home @ [''Data'', name @ ''_'' @ itoa n]) \<and>
    GetMsDataPath (send_GetDataDir senv) name n = abs_path (home @ [''Data'', name @ ''_'' @ itoa n]) \<and>
    getHostAionDataPath p = ''/'' @ concat (map (\<lambda>p. p @ ''/'') home) @ GetNamespace conf @ ''/Data/''"
proof -
  have data: "plain_name ''Data''" by (simp add: plain_name_def slash_def)
  note dir = Join_name [OF home data]
  have ke: "pd_k8sEnv p = NewK8sEnv (abs_path (home @ [''Data''])) (GetRepositoryPrefix conf) (GetNamespace conf) (GetRegistrySecret conf)"
    by (simp add: pod StartMicroservicesController_def new_broker_def broker_GetDataDir_def env dir split_beta)
  have plain: "\<forall>n \<in> set (home @ [''Data'']). plain_name n" using home data by simp
  have ms: "GetMsDataPath (abs_path (home @ [''Data''])) name n = abs_path (home @ [''Data'', name @ ''_'' @ itoa n])"
    using Join_name [OF plain name] by (simp add: GetMsDataPath_def)
  have "split_on (CHR ''/'') (abs_path (home @ [''Data''])) = ([] # home) @ [''Data'']"
    using split_names [OF _ plain] by (simp add: abs_path_def split_abs [unfolded slash_def] slash_def)
  then have "getHostAionDataPath p = ''/'' @ concat (map (\<lambda>p. p @ ''/'') home) @ GetNamespace conf @ ''/Data/''"
    using host_path_parts_snoc [of "GetNamespace conf" "[] # home" "''Data''"]
    by (simp add: getHostAionDataPath_def ke NewK8sEnv_def)
  moreover have "sk_DataPath (initial_kanban now (newSession name n (GetDataDir kenv))) = abs_path (home @ [''Data'', name @ ''_'' @ itoa n])"
    by (simp add: initial_kanban_def newSession_def GetDataDir_def env dir ms)
  ultimately show ?thesis
    by (simp add: getVolumeMountList_def ke NewK8sEnv_def send_GetDataDir_def env dir ms)
qed

definition ex_broker_config :: broker_config where
  "ex_broker_config = \<lparr>cf_env = ex_worker_env, cf_flag = \<lparr>fl_ConfigPath = flag_default None\<rparr>\<rparr>"

theorem kanban_path_mounted_witness:
  "sk_DataPath (initial_kanban [] (newSession ''a'' 1 (GetDataDir \<lparr>AionHome = ''/var/lib/aion'', RedisAddr = [], ServerPort = 11010, SBAddr = []\<rparr>))) =
    ''/var/lib/aion/Data/a_1''"
proof -
  let ?home = "[''var'', ''lib'', ''aion'']"
  let ?b = "snd (StartMicroservicesController ref_api ex_broker_config (\<lambda>_. [])) :: string broker"
  have home: "\<forall>n \<in> set ?home. plain_name n" "plain_name (''a'' @ ''_'' @ itoa 1)" by code_simp+
  have p: "abs_path ?home = ''/var/lib/aion''" "abs_path (?home @ [''Data'', ''a'' @ ''_'' @ itoa 1]) = ''/var/lib/aion/Data/a_1''"
    by code_simp+
  have env: "ev_AionHome (cf_env ex_broker_config) = abs_path ?home"
    unfolding p by (simp add: ex_broker_config_def ex_worker_env_def)
  have pod: "pd_k8sEnv (ex_pod\<lparr>pd_k8sEnv := br_k8sEnv ?b\<rparr>) = br_k8sEnv ?b" by simp
  have env2: "AionHome \<lparr>AionHome = ''/var/lib/aion'', RedisAddr = [], ServerPort = 11010, SBAddr = []\<rparr> = abs_path ?home"
    "sn_AionHome \<lparr>sn_AionHome = ''/var/lib/aion'', sn_ServerPort = 11011, sn_ClientPort = 30100\<rparr> = abs_path ?home"
    unfolding p by simp_all
  from kanban_path_mounted [OF home env env2 pod, of "[]"] show ?thesis
    unfolding p by (elim conjE)
qed

section \<open>The start of a device\<close>

text \<open>
  What the service broker starts from is the initial state of a device, when Redis could be
  cleared; an error of that is only logged, so old kanbans may then be in the streams.
\<close>

lemma device_starts:
  assumes "\<exists>m. r_FlushAll api redis = (Inr m, r)"
  shows "StartMicroservicesController api conf redis =
    (dn_watcher (new_device (broker_GetAionHome conf) (IsWorkerMode (cf_env conf)) ke r),
     dn_broker (new_device (broker_GetAionHome conf) (IsWorkerMode (cf_env conf))
       (NewK8sEnv (broker_GetDataDir conf) (GetRepositoryPrefix conf) (GetNamespace conf) (GetRegistrySecret conf)) r))"
  using assms by (auto simp: StartMicroservicesController_def FlushAll_def new_device_def NewWatcher_def)

end
