(* ===== verification/Commands.thy ===== *)
theory Commands
  imports Startup
begin

text \<open>
  The programs around the brokers: the commands of aionctl (cmd/aionctl) up to the project
  service they call, the worker's connection to its master (workerClient of
  cmd/service-broker/main.go), and the main function of the replicator.
\<close>

section \<open>aionctl\<close>

record ctl_flags =
  ct_HostName :: string
  ct_PortNumber :: string

definition default_flags :: ctl_flags where
  "default_flags = \<lparr>ct_HostName = ''localhost'', ct_PortNumber = ''31110''\<rparr>"

definition ctl_address :: "ctl_flags \<Rightarrow> string" where
  "ctl_address fl = ct_HostName fl @ '':'' @ ct_PortNumber fl"

text \<open>What the library makes of the command line: a command with arguments it accepts, or an error.\<close>

datatype ctl_command = HelpCmd | ApplyCmd "string list" | StatusCmd

fun RootCmd :: "ctl_flags \<Rightarrow> (string \<Rightarrow> AionSetting option result) \<Rightarrow> (string \<Rightarrow> AionSetting option \<Rightarrow> go_error option \<times> string list) \<Rightarrow>
    (string \<Rightarrow> string result) \<Rightarrow> ctl_command result \<Rightarrow> go_error option \<times> string list" where
  "RootCmd fl load send_project status (Inl e) = (Some e, [])"
| "RootCmd fl load send_project status (Inr HelpCmd) = (None, [join [CHR 0x0A] [[], ''Basic Commands'', ''  apply'', ''  status'', []]])"
| "RootCmd fl load send_project status (Inr (ApplyCmd args)) = applyCmd (ctl_address fl) args load (send_project (ctl_address fl))"
| "RootCmd fl load send_project status (Inr StatusCmd) = statusCmd (ctl_address fl) (status (ctl_address fl))"

text \<open>The exit status: also an error ends with 0.\<close>

definition aionctl_main :: "go_error option \<times> string list \<Rightarrow> nat \<times> string list" where
  "aionctl_main executed = (case executed of (Some e, out) \<Rightarrow> (0, out) | (None, out) \<Rightarrow> (0, out))"

text \<open>
  The call of the project service: \<open>wire\<close> is what the transport makes of a setting, and \<open>dial\<close>
  whether the connection can be opened.
\<close>

definition rpc_Apply :: "(AionSetting option \<Rightarrow> AionSetting option result) \<Rightarrow> project_server \<Rightarrow> AionSetting option \<Rightarrow>
    ProjectResponse result \<times> project_server" where
  "rpc_Apply wire p aion = (case wire aion of Inl e \<Rightarrow> (Inl e, p) | Inr a \<Rightarrow> projectServer_Apply a p)"

definition aionctl_apply :: "ctl_flags \<Rightarrow> go_error option \<Rightarrow> (AionSetting option \<Rightarrow> AionSetting option result) \<Rightarrow>
    (string \<Rightarrow> AionSetting option result) \<Rightarrow> string \<Rightarrow> project_server \<Rightarrow> (go_error option \<times> string list) \<times> project_server" where
  "aionctl_apply fl dial wire load file p =
     (RootCmd fl load (\<lambda>addr. Apply dial (\<lambda>a. fst (rpc_Apply wire p a))) (\<lambda>addr. Inr '''') (Inr (ApplyCmd [file])),
      (case load file of Inl e \<Rightarrow> p | Inr aion \<Rightarrow> if dial = None then snd (rpc_Apply wire p aion) else p))"

definition file_setting :: "(string \<Rightarrow> string result) \<Rightarrow> (string \<Rightarrow> YamlAionSetting result) \<Rightarrow> string \<Rightarrow> AionSetting option result" where
  "file_setting contents unmarshal file = map_sum id Some (LoadConfigFromFile contents unmarshal file)"

lemma file_no_nil: "LoadConfigFromFile contents unmarshal file = Inr a \<Longrightarrow> no_nil a"
  by (auto simp: LoadConfigFromFile_def intro: mapTo_no_nil split: sum.splits)

text \<open>
  C12. One file, two ways in. A project file that aionctl applies is handed to the deployment of
  the broker as the very setting that the broker in its default mode loads from the same file
  when it starts, and is answered with Success; a file that the one cannot load, the other cannot load
  either, for the same reason, and then the project service is left as it was.
\<close>

theorem applied_file_as_default:
  assumes mode: "ev_Mode env = DefaultMode" and wire: "\<And>a. wire (Some a) = Inr (Some a)"
  shows "case broker_main env (map_sum id Some (LoadConfigFromDirectory contents unmarshal fileName)) of
      Inl e \<Rightarrow> aionctl_apply fl None wire (file_setting contents unmarshal) fileName p =
        ((Some e, [''aion-master:'' @ ctl_address fl]), p)
    | Inr (aionCh, role) \<Rightarrow> role = DefaultServer \<and> (\<exists>a. aionCh = [Some a] \<and> wf_setting a \<and>
        aionctl_apply fl None wire (file_setting contents unmarshal) fileName p =
          ((None, [''aion-master:'' @ ctl_address fl, ''apply request: Success '']),
           p\<lparr>ps_prj := Some a, ps_AionCh := ps_AionCh p @ aionCh\<rparr>))"
proof (cases "LoadConfigFromFile contents unmarshal fileName")
  case (Inl e)
  with mode show ?thesis
    by (simp add: broker_main_def Let_def IsDefaultMode_def DefaultMode_def MasterMode_def WorkerMode_def
        LoadConfigFromDirectory_def aionctl_apply_def file_setting_def applyCmd_def)
next
  case (Inr a)
  note ok = file_no_nil [OF Inr]
  let ?a = "snd (setInitializeValue a)"
  have "fst (setInitializeValue a) = None" by (simp add: set_init_ok [OF ok])
  then have "LoadConfigFromDirectory contents unmarshal fileName = Inr ?a"
    using Inr by (simp add: LoadConfigFromDirectory_def split_beta)
  with mode have "broker_main env (map_sum id Some (LoadConfigFromDirectory contents unmarshal fileName)) = Inr ([Some ?a], DefaultServer)"
    by (simp add: broker_main_def Let_def IsDefaultMode_def GetMode_def DefaultMode_def MasterMode_def WorkerMode_def)
  moreover have "aionctl_apply fl None wire (file_setting contents unmarshal) fileName p =
      ((None, [''aion-master:'' @ ctl_address fl, ''apply request: Success '']),
       p\<lparr>ps_prj := Some ?a, ps_AionCh := ps_AionCh p @ [Some ?a]\<rparr>)"
    by (simp add: aionctl_apply_def file_setting_def Inr applyCmd_def Apply_def request_def rpc_Apply_def wire
        apply_loaded [OF ok] response_ok_def)
  moreover have "wf_setting ?a" by (rule set_init_wf [OF ok])
  ultimately show ?thesis by simp
qed

definition ex_yaml :: YamlAionSetting where
  "ex_yaml = \<lparr>ya_Microservices = [], ya_Devices = [(''dev'', Some \<lparr>yd_Addr = ''10.0.0.2'', yd_SSHPort = 0, yd_Username = [],
     yd_Password = [], yd_AionHome = []\<rparr>)], ya_DeviceName = ''dev'', ya_Debug = ''false''\<rparr>"

theorem applied_file_as_default_witness:
  "\<exists>a. aionctl_apply default_flags None Inr (file_setting Inr (\<lambda>_. Inr ex_yaml)) ''services.yml'' NewProjectServer =
    ((None, [''aion-master:localhost:31110'', ''apply request: Success '']), \<lparr>ps_AionCh = [Some a], ps_prj = Some a\<rparr>)"
proof -
  let ?env = "ex_worker_env\<lparr>ev_Mode := DefaultMode\<rparr>"
  have "ev_Mode ?env = DefaultMode" "\<And>a. Inr (Some a) = (Inr (Some a) :: AionSetting option result)" by simp_all
  note same = applied_file_as_default [OF this, where contents = Inr and unmarshal = "\<lambda>_. Inr ex_yaml" and fileName = "''services.yml''"
      and fl = default_flags and p = NewProjectServer]
  have "\<not> isl (broker_main ?env (map_sum id Some (LoadConfigFromDirectory Inr (\<lambda>_. Inr ex_yaml) ''services.yml'')))"
    by code_simp
  then obtain aionCh role where
    "broker_main ?env (map_sum id Some (LoadConfigFromDirectory Inr (\<lambda>_. Inr ex_yaml) ''services.yml'')) = Inr (aionCh, role)"
    by (cases "broker_main ?env (map_sum id Some (LoadConfigFromDirectory Inr (\<lambda>_. Inr ex_yaml) ''services.yml''))") auto
  with same show ?thesis
    by (auto simp: default_flags_def ctl_address_def NewProjectServer_def)
qed

section \<open>The worker's connection\<close>

text \<open>
  What happens on the stream of a worker, in any order: a message from the master or the end of
  the stream, and a new status, which is sent or fails to be.
\<close>

datatype worker_event = FromMaster "ClusterApply result" | StatusChanged "(string, bool) gomap option" "go_error option"

fun worker_loop :: "EnvironmentValue \<Rightarrow> worker_event list \<Rightarrow> NodeMeta list \<Rightarrow> AionSetting option list \<Rightarrow>
    go_error option \<times> NodeMeta list \<times> AionSetting option list" where
  "worker_loop env [] sent aionCh = (None, sent, aionCh)"
| "worker_loop env (FromMaster (Inl e) # evs) sent aionCh = (Some (Error ''grpc stream RecvMsg failed ,cause:''), sent, aionCh)"
| "worker_loop env (FromMaster (Inr rs) # evs) sent aionCh =
     (case workerClient_recv rs aionCh of
        (Some e, aionCh') \<Rightarrow> (Some e, sent, aionCh')
      | (None, aionCh') \<Rightarrow> worker_loop env evs sent aionCh')"
| "worker_loop env (StatusChanged st (Some e) # evs) sent aionCh = (Some (Error ''grpc stream send failed ,cause:''), sent, aionCh)"
| "worker_loop env (StatusChanged st None # evs) sent aionCh = worker_loop env evs (sent @ [worker_meta env st]) aionCh"

text \<open>Every failure ends the process.\<close>

definition workerClient :: "EnvironmentValue \<Rightarrow> go_error option \<Rightarrow> go_error option \<Rightarrow> go_error option \<Rightarrow> worker_event list \<Rightarrow>
    AionSetting option list \<Rightarrow> go_error option \<times> NodeMeta list \<times> AionSetting option list" where
  "workerClient env dial opened send_meta evs aionCh =
     (case dial of
        Some e \<Rightarrow> (Some (Error (''grpc dial failed , cause: '' @ err_text e)), [], aionCh)
      | None \<Rightarrow>
         (case opened of
            Some e \<Rightarrow> (Some (Error ''grpc JoinMasterAion request failed ,cause:''), [], aionCh)
          | None \<Rightarrow>
             (case send_meta of
                Some e \<Rightarrow> (Some (Error (''[gcp][client]send failed cause: '' @ err_text e)), [], aionCh)
              | None \<Rightarrow> worker_loop env evs [worker_meta env None] aionCh)))"

text \<open>
  While the connection lasts, a worker sends its name and then every status, and hands every
  project it can load to the broker, in the order they come.
\<close>

definition worker_updates :: "worker_event list \<Rightarrow> (string, bool) gomap option list" where
  "worker_updates evs = List.map_filter (\<lambda>ev. case ev of StatusChanged st None \<Rightarrow> Some st | _ \<Rightarrow> None) evs"

definition worker_projects :: "worker_event list \<Rightarrow> ClusterApply list" where
  "worker_projects evs = List.map_filter (\<lambda>ev. case ev of FromMaster (Inr rs) \<Rightarrow> Some rs | _ \<Rightarrow> None) evs"

lemma worker_loop_runs:
  assumes "\<forall>ev \<in> set evs. (\<exists>st. ev = StatusChanged st None) \<or>
    (\<exists>a. ev = FromMaster (Inr \<lparr>ca_AionSetting = Some a\<rparr>) \<and> wf_setting a)"
  shows "worker_loop env evs sent aionCh =
    (None, sent @ map (worker_meta env) (worker_updates evs), aionCh @ map ca_AionSetting (worker_projects evs))"
  using assms
proof (induction evs arbitrary: sent aionCh)
  case (Cons ev evs)
  from Cons.prems consider (status) st where "ev = StatusChanged st None"
    | (project) a where "ev = FromMaster (Inr \<lparr>ca_AionSetting = Some a\<rparr>)" "wf_setting a" by auto
  then show ?case
  proof cases
    case status
    with Cons show ?thesis by (simp add: worker_updates_def worker_projects_def List.map_filter_simps)
  next
    case project
    then have "workerClient_recv \<lparr>ca_AionSetting = Some a\<rparr> aionCh = (None, aionCh @ [Some a])"
      by (simp add: workerClient_recv_def load_Some set_init_id)
    with Cons project show ?thesis by (simp add: worker_updates_def worker_projects_def List.map_filter_simps)
  qed
qed (simp add: worker_updates_def worker_projects_def List.map_filter_simps)

lemma worker_sends:
  assumes "\<forall>ev \<in> set evs. (\<exists>st. ev = StatusChanged st None) \<or>
    (\<exists>a. ev = FromMaster (Inr \<lparr>ca_AionSetting = Some a\<rparr>) \<and> wf_setting a)"
  shows "workerClient env None None None evs [] =
    (None, workerClient_sends env (worker_updates evs), map ca_AionSetting (worker_projects evs))"
  by (simp add: workerClient_def worker_loop_runs [OF assms] workerClient_sends_def)

section \<open>The main function of the replicator\<close>

record 'r replicator_client =
  rl_aionHome :: string
  rl_redis :: 'r

definition NewClient :: "'d retrier \<Rightarrow> 'd mongo_api \<Rightarrow> replicator_config \<Rightarrow> 'r \<Rightarrow> 'd \<Rightarrow> 'r replicator_client result \<times> 'd" where
  "NewClient retry mg conf redis d =
     (case CreatePool retry mg (GetMongoAddr conf) d of
        (Some e, d') \<Rightarrow> (Inl (Error (''cant connect to mongo, exit kanban-replicator: '' @ err_text e)), d')
      | (None, d') \<Rightarrow> (Inr \<lparr>rl_aionHome = replicator_GetAionHome conf, rl_redis = redis\<rparr>, d'))"

text \<open>
  The select of \<open>StartWatchKanban\<close> with a given context and channel, which no other goroutine
  writes to: without a context that is done and without a project it waits, for ever.
\<close>

partial_function (option) watch_projects :: "bool \<Rightarrow> AionSetting option list \<Rightarrow> stream_watch list \<Rightarrow> stream_watch list result option" where
  "watch_projects over aionCh running =
     (if over then Some (StartWatchKanban [ClientDone] running)
      else (case aionCh of
          [] \<Rightarrow> watch_projects over aionCh running
        | ya # rest \<Rightarrow>
            (case StartWatchKanban [NewProject ya] running of
               Inl e \<Rightarrow> Some (Inl e)
             | Inr ws \<Rightarrow> watch_projects over rest ws)))"

lemma watch_projects_waits: "watch_projects False aionCh running = Some out \<Longrightarrow> \<exists>e. out = Inl e"
proof -
  have "watch_projects over aionCh running = Some out \<Longrightarrow> \<not> over \<longrightarrow> (\<exists>e. out = Inl e)" for over
    by (erule watch_projects.raw_induct [where P = "\<lambda>over aionCh running out. \<not> over \<longrightarrow> (\<exists>e. out = Inl e)", rotated])
      (auto simp del: StartWatchKanban.simps split: if_splits list.splits sum.splits intro: sym)
  then show "watch_projects False aionCh running = Some out \<Longrightarrow> ?thesis" by blast
qed

text \<open>
  The error with which main ends, or \<open>None\<close> when it waits for ever. After the loop it would put
  the loaded project on a channel that nobody reads.
\<close>

definition replicator_main :: "replicator_env result \<Rightarrow> string option \<Rightarrow> (string \<Rightarrow> bool) \<Rightarrow> 'd retrier \<Rightarrow> 'd mongo_api \<Rightarrow>
    (string \<Rightarrow> AionSetting option result) \<Rightarrow> 'r \<Rightarrow> 'd \<Rightarrow> go_error option" where
  "replicator_main process c not_exist retry mg load redis d =
     (case replicator_GetConfig process c not_exist of
        Inl e \<Rightarrow> Some e
      | Inr conf \<Rightarrow>
         (case fst (NewClient retry mg conf redis d) of
            Inl e \<Rightarrow> Some e
          | Inr client \<Rightarrow>
             (case watch_projects False [] [] of
                None \<Rightarrow> None
              | Some (Inl e) \<Rightarrow> Some e
              | Some (Inr ws) \<Rightarrow> (case load (replicator_GetConfigPath conf) of Inl e \<Rightarrow> Some e | Inr ya \<Rightarrow> None))))"

lemma watch_projects_empty: "watch_projects False [] running = None"
proof -
  have "watch_projects over aionCh running = Some out \<Longrightarrow> over \<or> aionCh \<noteq> []" for over aionCh out
    by (erule watch_projects.raw_induct [where P = "\<lambda>over aionCh running out. over \<or> aionCh \<noteq> []", rotated])
      (auto split: if_splits list.splits)
  from this [of False "[]"] show ?thesis by (cases "watch_projects False [] running") auto
qed

text \<open>However the environment is, main neither reads the project file nor watches a stream.\<close>

lemma replicator_never_serves:
  assumes "replicator_GetConfig process c not_exist = Inr conf" "fst (NewClient retry mg conf redis d) = Inr client"
  shows "replicator_main process c not_exist retry mg load redis d = None"
  using assms by (simp add: replicator_main_def watch_projects_empty)

end
