(* ===== verification/Wiring.thy ===== *)
theory Wiring
  imports Startup
begin

text \<open>
  How the parts of the programs are put together at the start: the constructors of the device
  controller, the status monitor, the Redis client, the client of Kubernetes and the server of
  send-anything, and the debugging functions of send-anything. A constructor of a library is a parameter.
\<close>

section \<open>The device controller and the monitor\<close>

definition device_addr :: string where
  "device_addr = ''aion-sendanything:10000''"

record device_controller =
  dc_addr :: string
  dc_recvCh :: "SendKanban list"
  dc_sendCh :: "SendKanban list"

text \<open>It never fails, and starts with empty channels; the connection loop is \<open>connectToServer\<close>.\<close>

definition NewDeviceController :: "device_controller result" where
  "NewDeviceController = Inr \<lparr>dc_addr = device_addr, dc_recvCh = [], dc_sendCh = []\<rparr>"

definition GetReceiveKanbanCh :: "device_controller \<Rightarrow> SendKanban list" where
  "GetReceiveKanbanCh c = dc_recvCh c"

record 'r status_monitor =
  wm_Rdisc :: 'r
  wm_RdisKey :: string
  wm_WorkerCh :: "services_status list"

definition NewWorkerStatusMonitor :: "services_status list \<Rightarrow> 'r \<Rightarrow> 'r status_monitor" where
  "NewWorkerStatusMonitor nmch redis = \<lparr>wm_Rdisc = redis, wm_RdisKey = redisKey, wm_WorkerCh = nmch\<rparr>"

section \<open>The clients of Redis and of Kubernetes\<close>

text \<open>A client of the pool is made of these options by the library, when the pool is empty.\<close>

record redis_options =
  ro_Addr :: string
  ro_Password :: string
  ro_DB :: int

definition NewRedisClient :: "string \<Rightarrow> redis_options" where
  "NewRedisClient address = \<lparr>ro_Addr = address, ro_Password = '''', ro_DB = 0\<rparr>"

text \<open>The client set is made when the program is loaded, and a failure ends the process.\<close>

definition k8sClient :: "'o result \<Rightarrow> ('o \<Rightarrow> 'k result) \<Rightarrow> 'k result" where
  "k8sClient inClusterConfig newForConfig =
     (case inClusterConfig of
        Inl e \<Rightarrow> Inl (Error (''cannot get config: '' @ err_text e @ [CHR 0x0A]))
      | Inr config \<Rightarrow>
          (case newForConfig config of
             Inl e \<Rightarrow> Inl (Error (''cannot get client: '' @ err_text e @ [CHR 0x0A]))
           | Inr client \<Rightarrow> Inr client))"

definition newClient :: "'o result \<Rightarrow> ('o \<Rightarrow> 'k result) \<Rightarrow> 'k result" where
  "newClient inClusterConfig newForConfig =
     (case inClusterConfig of
        Inl e \<Rightarrow> Inl e
      | Inr config \<Rightarrow> (case newForConfig config of Inl e \<Rightarrow> Inl e | Inr client \<Rightarrow> Inr client))"

text \<open>
  The pods watcher is started and returns at once, without an error; its informer then calls
  back for each event of a pod until the context is done.
\<close>

definition pods_watcher :: "logger \<Rightarrow> pod_event list \<Rightarrow> go_error option \<times> std_log list" where
  "pods_watcher l until_done = (None, concat (map (PodsWatcher l) until_done))"

lemma pods_watcher_logs: "length (snd (pods_watcher l evs)) = length evs"
proof -
  have "length (PodsWatcher l ev) = 1" for ev by (cases ev) (simp_all add: log_Print_def)
  then show ?thesis by (induction evs) (simp_all add: pods_watcher_def)
qed

lemma clients_agree: "k8sClient cfg mk = Inr c \<longleftrightarrow> newClient cfg mk = Inr c"
  by (simp add: k8sClient_def newClient_def split: sum.splits)

section \<open>The server of send-anything\<close>

record send_server =
  ss_env :: send_env
  ss_sendToServiceBrokerCh :: "SendKanban list"

definition send_NewServer :: "send_env \<Rightarrow> go_error option \<Rightarrow> server_end \<Rightarrow> send_server \<times> go_error option" where
  "send_NewServer env listen ev =
     (\<lparr>ss_env = env, ss_sendToServiceBrokerCh = []\<rparr>, createServerConnection listen ev)"

text \<open>Whatever the listener and the server do, the process ends with status 0 after a good environment.\<close>

lemma send_main_server:
  "process = Inr env \<Longrightarrow> \<not> not_exist (sn_AionHome env) \<Longrightarrow> send_main process not_exist listen ev = 0"
  by (simp add: send_main_def send_GetConfig_def split: option.splits)

section \<open>Debugging output\<close>

text \<open>
  The caller's file and line, \<open>Sprintf\<close> and \<open>Sprintln\<close> are parameters. With more than two arguments
  and a string in front, the shorter of the two texts is printed (the formatted one when they are equally long).
\<close>

definition LOG :: "logger \<Rightarrow> string \<times> int \<Rightarrow> (string \<Rightarrow> iface list \<Rightarrow> string) \<Rightarrow> (iface list \<Rightarrow> string) \<Rightarrow> iface list \<Rightarrow> std_log list" where
  "LOG l caller sprintf sprintln any =
     log_Printf l ''DEBUG from %s:%d'' [IString (fst caller), IInt (snd caller)] @
     (case any of
        IString format # a # b # rest \<Rightarrow>
          (let f = sprintf format (a # b # rest); ln = sprintln any
           in if length ln < length f then log_Println l [IString ln] else log_Println l [IString f])
      | _ \<Rightarrow> log_Println l any) @
     log_Println l []"

text \<open>That of the baggage writes with Go's own log.\<close>

definition baggage_LOG :: "string \<times> int \<Rightarrow> iface \<Rightarrow> std_log list" where
  "baggage_LOG caller any =
     [StdPrintf ''DEBUG from %s:%d'' [IString (fst caller), IInt (snd caller)], StdPrintf ''%v'' [any], StdPrintf '''' []]"

lemma LOG_short: "length any \<le> 2 \<Longrightarrow> LOG l caller sprintf sprintln any =
    log_Printf l ''DEBUG from %s:%d'' [IString (fst caller), IInt (snd caller)] @ log_Println l any @ log_Println l []"
  by (auto simp: LOG_def split: list.splits iface.splits)

text \<open>The default logger before \<open>SetFormat\<close>, and the function of the package that sets its format.\<close>

definition defaultLogger :: logger where
  "defaultLogger = \<lparr>lg_processName = '''', lg_pid = 0\<rparr>"

definition log_SetFormat :: "string \<Rightarrow> int \<Rightarrow> logger" where
  "log_SetFormat processName egid = SetFormat processName egid defaultLogger"

end
