(* ===== verification/Spec2Isabelle.thy ===== *)
theory Spec2Isabelle
  imports BrokerSync Network ClusterRun MasterRun Commands Wiring
begin

text \<open>
  Verification of aion-core, which runs the microservices of a project on Kubernetes and
  routes kanbans (work orders with lists of files) between them, within a device and between
  devices.

  The program. A project (config/) names microservices, devices and, for every microservice,
  the next services of a kanban by connection key. The service broker
  (cmd/service-broker/app) deploys the project: it keeps a container per instance of a
  microservice (internal/microservice), each with a config map, a deployment or job and a
  service (pkg/k8s), starts those marked startup, watches the streams of Redis
  (internal/kanban, pkg/my_redis) on which the instances write their results, and hands each
  kanban to the next services. A kanban for another device goes over the device controller
  (internal/devices) to send-anything (cmd/send-anything/app), which uploads it with its files
  to the send-anything of that device. The microservices themselves use a client library
  (pkg/go-client/msclient), which reads and writes the streams through the kanban server
  (cmd/kanban-server/app); the replicator (cmd/kanban-replicator/app) copies every stream into
  Mongo. Projects come from a file, or by the project service (internal/services, called by
  cmd/aionctl), which on the master of a cluster passes them on to the brokers of its workers
  and collects the status of their services.

  Theories, in the order of the imports:
  Prelude - errors and panics as values (\<open>go_error\<close>, \<open>result\<close>), Go maps as association
    lists, loops that stop at an error (\<open>rmap\<close>, \<open>for_list\<close>), int32 as 32-bit words, the retry
    library as a parameter (\<open>retry_documented\<close>), the locales \<open>stepper\<close> (a machine with an
    invariant) and \<open>defaulter\<close> (a function that fills in defaults).
  Clock - the date formats of pkg/common as functions of the time.
  GoStrings, Paths - the parts of Go's strings, strconv, fmt, path and path/filepath that the
    code uses, and pkg/common.
  Proto - the protobuf messages as records and the packing into Any as a parameter.
  Config - config/project.go and config/yaml_model.go.
  Kanban - internal/kanban and pkg/my_redis over a Redis client that is a parameter; the
    locale \<open>stream_naming\<close> is what the naming of streams promises, \<open>redis_streams\<close> what the
    adaptor relies on of the server.
  K8s, PodSpec - pkg/k8s: names, the pod template, the four resources with Apply and Delete
    against an API server that is a parameter (locale \<open>k8s_resource\<close>).
  Microservice - internal/microservice: one instance and the numbered instances.
  Controller - cmd/service-broker/app/controller.go: the state of the broker and its
    messages; the broker is a \<open>stepper\<close>.
  Watcher - cmd/service-broker/app/watcher.go and internal/devices: the routing of a kanban, as
    one pass (\<open>route\<close>) and as the steps of the goroutine (\<open>take_kanban\<close>, \<open>pass_step\<close>), between
    which the project may change and queued messages are sent; undisturbed, both do the same
    (\<open>undisturbed_pass\<close>). A queued message points to a kanban object (\<open>wt_kanbans\<close>) and takes the
    kanban when it is marshalled.
  BrokerSync - the channels between the goroutines of the broker as a step relation: a project
    is received in one step and assigned in a later one, and status reports may block.
  Files, Baggage, SendClient, SendServer - the disk as a parameter with the locale \<open>disk\<close> for
    its documented behaviour, the files to send (baggage/content.go), the client and the
    server of send-anything.
  SendAnything, Download, Delivery - the two halves of send-anything together.
  KanbanServer, MsClient, Pipeline - cmd/kanban-server/app, pkg/go-client/msclient, and a kanban
    on its way through the client, the server, the watcher of the broker and the server again;
    the end of a client and what a watcher sees that is started again.
  CrossDevice - a kanban with files from a microservice of one device to one of another, through
    all of these parts.
  Services - internal/services, workerClient and the modes of cmd/service-broker, its status
    monitor, and the commands of aionctl; the master's table of workers is a \<open>stepper\<close>,
    the locale \<open>redis_hashes\<close> is what the monitor relies on.
  Replicator - cmd/kanban-replicator/app and pkg/my_mongo; its naming of streams is shown to be
    that of the adaptor by an interpretation of \<open>stream_naming\<close>.
  DeviceRun - a whole device as a step relation: its microservices, the sessions of the kanban
    server, the watchers and the controller of the broker take turns on one Redis server that may
    fail. A routing pass takes one step per action of the loop, so a deployment, a second watch or
    the sending of a message can come in between; the locale \<open>redis_entries\<close> is what holds of the streams even then.
  Network - any number of devices as one step relation: each goes on by itself, and the messages
    between them pass through the client and the server of send-anything, which may break off
    anywhere; \<open>stream_documented\<close> is what gRPC documents of a stream. An upload is one step, so
    that the files it sends do not change while it is sent.
  ClusterRun - a project from the project service of the master to the broker of a worker, and
    the status back.
  MasterRun - the process of the master (and the server of the default mode) over a list of
    events in any order: calls of the project service, the streams of the workers, and the turns
    of the goroutine that sends projects and of the monitor; a panic ends the run.
  Startup, Commands, Wiring - the environments (env.go of each program), pkg/log, and how the programs
    start and end; aionctl up to the project service, the worker's connection to its master and
    the main function of the replicator, whose loop may not end and is a partial function; the
    constructors that connect the parts.

  Conventions. A definition has the name of the function it models; the loop of a function is a
  definition of its own where it is recursive (\<open>route_loop\<close>,
  \<open>set_loop\<close>, \<open>file_loop\<close>). State is passed explicitly: the record
  \<open>broker\<close> is the struct controller with the running watchers and the API calls
  made so far, \<open>watcher\<close> the struct Watcher, and so on. A channel is the list of
  what has been sent to it, a gRPC stream the list of its messages. A kanban that is queued for
  another device is a pointer to an object that the routing loop still changes, and the status
  map of the workers is read when the monitor takes its turn, as the map is the live one. Other
  pointers that are sent over a channel are the values behind them when they are sent; where the
  code changes these later the findings say so. The calls of the log inside other functions are
  left out, but for those that end the process. Where the code spawns a goroutine, the model
  records that it was spawned; what the goroutines do to each other over channels is the step
  relation \<open>sync_step\<close>.

  What the properties show. Configuration: loading over gRPC fails exactly for a nil setting and
  for nil devices, microservices and next services, is idempotent and fills in every default.
  Streams: names are unique, a watcher sends every kanban once and in order. Kubernetes:
  resource names of different instances differ, the pod template is well formed, services reach
  their pods. Instances: starting applies the resources in order and stops at the first failure,
  stopping tries them all, the counts of running instances follow the requests. Broker: a
  deployment starts what it should, a start is served from the project that the watchers have or
  are just about to get. Routing: a kanban is handed to exactly its next services when the
  remote ones come first, and what a queued message carries depends on when it is marshalled; a
  watch ends only on a terminate kanban, a closed reader or a cancelled context. Transfer: a
  kanban and its files arrive with the same bytes, no file is accepted unchecked, the kanban is
  handed on exactly once. Pipeline: what a microservice outputs is what its next services
  receive, on the same device and on another; a client that connects again may get its last
  kanban again or lose the one that could not be sent; a closed client ends the watch of its
  instance, and a watch that is started again repeats the old kanbans. Services: which projects
  are accepted and where they go, what deletes deploy, what the status shows. Replicator: every
  stream is watched once and every kanban becomes a document until one has no metadata. Device:
  in any run, with any failures of Redis and any interleaving, what a microservice receives has
  a cause in what was output, has arrived or was made for its start; the routing never panics on
  loaded projects; an instance has at most one watch that is not cancelled (unless its
  microservice may run more than once), and never more than it counts as started. Network: what
  a microservice receives from another device was output there, where a deployed project names
  this instance as the next, and nothing that is sent between devices arrives more often than it
  was sent. Cluster: an applied project runs on its workers and its status is what the master
  shows as of the last turn of its monitor, in whatever order the master's goroutines run; its
  process panics only when a delete comes before the first apply or a worker joins without its
  metadata; a file means the same to aionctl and to a broker in default mode. Start and end: the
  programs agree on the data directory, and the signal deletes the objects of every instance
  that counts as started. Dates: both formats are in the order of time. Several properties state
  behaviour that the code has and its comments do not promise (a deadlock, lost restarts, the
  guard on paths, files in sub-directories); they are listed as findings in the manifest of the
  development.

  Bounds. The retry counts are those of the code (50 for the config map, 33, 31 and 30 for the
  other resources, 10 for a message of an upload), and \<open>attempts\<close> is structural in them. The
  watch loop runs for a given number of turns, as the code's loop ends only with its context.
  The loops of the upload consume a message or a byte each and are total.

  Not modelled. The listeners, dialling and the gRPC transport and stubs, generated code beyond
  the messages; what envconfig, the flag library and the clock read (parameters), the client
  set and the informer of Kubernetes, the parsing of command lines, and the statik file system;
  data races: a handler is one step, also where the code reads a map without its lock.
  Redis, Mongo, the Kubernetes API, the disk, the codecs and the retry library are parameters
  with their documented behaviour as hypotheses, each with a reference instance that satisfies
  it.
\<close>

end
